theory Spec2Isabelle
  imports Main "HOL-Library.Multiset"
begin

section \<open>The relational store (database/init.sql)\<close>

text \<open>
  Amounts of the columns \<open>DECIMAL(10,2)\<close> are counted in hundredths, as integers.
  The controller turns a price into a JavaScript number with \<open>parseFloat\<close> and adds and
  multiplies such numbers; the model computes with the exact amounts, so rounding of
  binary floating point is outside of it.

  Column names carry the prefix of their table (\<open>p_\<close>, \<open>o_\<close>, \<open>oi_\<close>), since
  \<open>id\<close> and \<open>quantity\<close> occur in several tables. Of the timestamps, only \<open>created_at\<close>
  of a product is kept (the listing is ordered by it), as a number; \<open>image_url\<close> is left
  out.
\<close>

type_synonym money = int

record product =
  p_id :: int
  p_name :: string
  p_description :: "string option"
  p_price :: money
  p_stock_quantity :: int
  p_category_id :: "int option"
  p_created_at :: nat

record order_row =
  o_id :: int
  o_user_id :: int
  o_total_amount :: money
  o_status :: string
  o_shipping_address :: string

record order_item_row =
  oi_id :: int
  oi_order_id :: int
  oi_product_id :: int
  oi_unit_price :: money
  oi_quantity :: int

text \<open>
  The tables in insertion order, and the ids of the \<open>users\<close> table (the target of a
  foreign key).
\<close>

record database =
  users :: "int list"
  products :: "product list"
  orders :: "order_row list"
  order_items :: "order_item_row list"

text \<open>
  A pooled connection: the committed state of the store, and the state the open
  transaction works on, if one is open. A statement outside of a transaction commits at
  once. The two \<open>SERIAL\<close> sequences are no part of a transaction: a value that was drawn
  is not given back by \<open>ROLLBACK\<close>.

  The rows of a query come in the order its \<open>ORDER BY\<close> fixes; where it fixes none, or
  leaves rows equal, the server chooses (by its plan, by the place of the rows on disk).
  That choice is a part of the connection: \<open>row_order\<close> gives the rows of a result their
  ranks, a row beyond the list the rank 0, and \<open>arrange\<close> puts the rows in the order of
  their ranks. Every order of the rows is the choice of some \<open>row_order\<close>.
\<close>

record connection =
  committed :: database
  working :: "database option"
  orders_id_seq :: int
  order_items_id_seq :: int
  row_order :: "nat list"

definition arrange :: "nat list \<Rightarrow> 'a list \<Rightarrow> 'a list" where
  "arrange ranks rows =
     map snd (sort_key fst (zip (ranks @ replicate (length rows - length ranks) 0) rows))"

datatype sql =
    BEGIN
  | COMMIT
  | ROLLBACK
  | SelectProduct int
  | InsertOrder int money string string
  | InsertOrderItem int int money int
  | UpdateStock int int
  | SelectCompleteOrder int
  | SelectOrder int
  | SelectOrderItems int

datatype exn = DbError string | RedisError | SyntaxError

definition current :: "connection \<Rightarrow> database" where
  "current c = (case working c of Some d \<Rightarrow> d | None \<Rightarrow> committed c)"

definition store :: "database \<Rightarrow> connection \<Rightarrow> connection" where
  "store d c = (case working c of Some _ \<Rightarrow> c\<lparr>working := Some d\<rparr>
                                 | None \<Rightarrow> c\<lparr>committed := d\<rparr>)"

definition begin_tx :: "connection \<Rightarrow> connection" where
  "begin_tx c = (case working c of Some _ \<Rightarrow> c
                                  | None \<Rightarrow> c\<lparr>working := Some (committed c)\<rparr>)"

definition commit_tx :: "connection \<Rightarrow> connection" where
  "commit_tx c = (case working c of Some d \<Rightarrow> c\<lparr>committed := d, working := None\<rparr>
                                   | None \<Rightarrow> c)"

definition rollback_tx :: "connection \<Rightarrow> connection" where
  "rollback_tx c = c\<lparr>working := None\<rparr>"

text \<open>
  The ranges of the types of the columns: \<open>INTEGER\<close> (also \<open>SERIAL\<close>), \<open>BIGINT\<close> (the
  type of \<open>LIMIT\<close> and \<open>OFFSET\<close>) and \<open>DECIMAL(10,2)\<close> in hundredths. The server
  refuses a statement with a parameter outside of the range of its type.
\<close>

definition int4 :: "int \<Rightarrow> bool" where
  "int4 n = (- 2147483648 \<le> n \<and> n \<le> 2147483647)"

definition int8 :: "int \<Rightarrow> bool" where
  "int8 n = (- 9223372036854775808 \<le> n \<and> n \<le> 9223372036854775807)"

definition decimal_10_2 :: "money \<Rightarrow> bool" where
  "decimal_10_2 a = (\<bar>a\<bar> < 10000000000)"

text \<open>\<open>SELECT id, name, price, stock_quantity FROM products WHERE id = $1\<close>\<close>

definition select_product :: "int \<Rightarrow> database \<Rightarrow> exn + product list" where
  "select_product pid d =
     (if int4 pid then Inr (filter (\<lambda>p. p_id p = pid) (products d))
      else Inl (DbError ''out of range for type integer''))"

text \<open>
  \<open>INSERT INTO orders (user_id, total_amount, status, shipping_address) ... RETURNING id\<close>,
  the id drawn from the sequence being \<open>new_id\<close>. The primary key and the foreign key to
  \<open>users\<close> can reject the row.
\<close>

definition insert_order ::
  "int \<Rightarrow> int \<Rightarrow> money \<Rightarrow> string \<Rightarrow> string \<Rightarrow> database \<Rightarrow> exn + (order_row \<times> database)"
  where
  "insert_order new_id uid totalAmount st addr d =
     (if new_id \<in> set (map o_id (orders d)) then Inl (DbError ''orders_pkey'')
      else if uid \<notin> set (users d) then Inl (DbError ''orders_user_id_fkey'')
      else let row = \<lparr>o_id = new_id, o_user_id = uid, o_total_amount = totalAmount,
                        o_status = st, o_shipping_address = addr\<rparr>
           in Inr (row, d\<lparr>orders := orders d @ [row]\<rparr>))"

text \<open>
  \<open>INSERT INTO order_items (order_id, product_id, unit_price, quantity)\<close>, with the
  primary key, the two foreign keys and \<open>CHECK (quantity > 0)\<close>.
\<close>

definition insert_order_item ::
  "int \<Rightarrow> int \<Rightarrow> int \<Rightarrow> money \<Rightarrow> int \<Rightarrow> database \<Rightarrow> exn + database" where
  "insert_order_item new_id oid pid unit_price qty d =
     (if new_id \<in> set (map oi_id (order_items d)) then Inl (DbError ''order_items_pkey'')
      else if oid \<notin> set (map o_id (orders d))
        then Inl (DbError ''order_items_order_id_fkey'')
      else if pid \<notin> set (map p_id (products d))
        then Inl (DbError ''order_items_product_id_fkey'')
      else if \<not> 0 < qty then Inl (DbError ''order_items_quantity_check'')
      else Inr (d\<lparr>order_items := order_items d @
                      [\<lparr>oi_id = new_id, oi_order_id = oid,
                        oi_product_id = pid, oi_unit_price = unit_price,
                        oi_quantity = qty\<rparr>]\<rparr>))"

text \<open>
  \<open>UPDATE products SET stock_quantity = stock_quantity - $1 WHERE id = $2\<close>, with
  \<open>CHECK (stock_quantity >= 0)\<close> on the new row.
\<close>

definition update_stock :: "int \<Rightarrow> int \<Rightarrow> database \<Rightarrow> exn + database" where
  "update_stock qty pid d =
     (if \<exists>p \<in> set (products d). p_id p = pid \<and> p_stock_quantity p - qty < 0
      then Inl (DbError ''products_stock_quantity_check'')
      else Inr (d\<lparr>products :=
                    map (\<lambda>p. if p_id p = pid
                              then p\<lparr>p_stock_quantity := p_stock_quantity p - qty\<rparr>
                              else p) (products d)\<rparr>))"

section \<open>The order as it is read back\<close>

text \<open>
  The TypeScript controller reads the order back with two queries, the header
  (\<open>SELECT o.id, o.total_amount, o.status, o.shipping_address, o.created_at FROM orders o
  WHERE o.id = $1\<close>) and the lines, and answers with the first row of the header and, under
  \<open>items\<close>, all rows of the lines. Without a row of the header the answer has the lines
  only.
\<close>

record header_view =
  hv_id :: int
  hv_total_amount :: money
  hv_status :: string
  hv_shipping_address :: string

record item_view =
  iv_id :: int
  iv_product_id :: int
  iv_product_name :: string
  iv_unit_price :: money
  iv_quantity :: int
  iv_subtotal :: money

record order_view =
  ov_header :: "header_view option"
  ov_items :: "item_view list"

definition order_header_rows :: "int \<Rightarrow> database \<Rightarrow> header_view list" where
  "order_header_rows oid d =
     map (\<lambda>ord. \<lparr>hv_id = o_id ord, hv_total_amount = o_total_amount ord,
                  hv_status = o_status ord, hv_shipping_address = o_shipping_address ord\<rparr>)
       (filter (\<lambda>ord. o_id ord = oid) (orders d))"

text \<open>
  \<open>FROM order_items oi JOIN products p ON oi.product_id = p.id WHERE oi.order_id = $1\<close>,
  each row with \<open>(oi.unit_price * oi.quantity) as subtotal\<close>: the rows of the join, here
  in the order of the table. The query has no \<open>ORDER BY\<close>: the connection arranges the
  rows it returns (\<open>select_order_items\<close> below).
\<close>

definition order_items_join :: "int \<Rightarrow> database \<Rightarrow> item_view list" where
  "order_items_join oid d =
     concat (map (\<lambda>oi. map (\<lambda>p. \<lparr>iv_id = oi_id oi, iv_product_id = oi_product_id oi,
                                   iv_product_name = p_name p,
                                   iv_unit_price = oi_unit_price oi,
                                   iv_quantity = oi_quantity oi,
                                   iv_subtotal = oi_unit_price oi * oi_quantity oi\<rparr>)
                            (filter (\<lambda>p. oi_product_id oi = p_id p) (products d)))
                 (filter (\<lambda>oi. oi_order_id oi = oid) (order_items d)))"

text \<open>The results of the two queries, as a connection with the given ranks returns them.\<close>

definition select_order :: "nat list \<Rightarrow> int \<Rightarrow> database \<Rightarrow> header_view list" where
  "select_order ranks oid d = arrange ranks (order_header_rows oid d)"

definition select_order_items :: "nat list \<Rightarrow> int \<Rightarrow> database \<Rightarrow> item_view list" where
  "select_order_items ranks oid d = arrange ranks (order_items_join oid d)"

text \<open>
  The compiled controller reads the order back with one query, which joins
  \<open>orders\<close>, \<open>order_items\<close> and \<open>products\<close> and aggregates the lines with
  \<open>json_agg(json_build(...))\<close>. No function \<open>json_build\<close> exists: PostgreSQL has
  \<open>json_build_object\<close> and \<open>json_build_array\<close>, and \<open>init.sql\<close> defines
  \<open>update_updated_at_column\<close> only. The server refuses the statement, whatever the store
  holds.
\<close>

definition select_complete_order :: "int \<Rightarrow> database \<Rightarrow> exn + order_view list" where
  "select_complete_order oid d = Inl (DbError ''function json_build does not exist'')"


section \<open>Requests, responses and the events of a call\<close>

text \<open>
  The body of \<open>POST /api/orders\<close> as the schema reads it, and \<open>req.user?.id\<close> as the
  authentication middleware left it. The numbers of a body are JavaScript numbers; the
  model has the integers among them, so the check \<open>.int()\<close> of the schema holds of every
  quantity. (The schema also admits a product id with a fraction; the \<open>SELECT\<close> of the
  product refuses it, as it refuses an id beyond \<open>INTEGER\<close>.)
\<close>

record cart_item =
  productId :: int
  quantity :: int

record order_item = cart_item +
  unitPrice :: money
  availableStock :: int

record order_body =
  items :: "cart_item list"
  shippingAddress :: string

record request =
  body :: order_body
  user_id :: "int option"

datatype issue =
    Items_min
  | ProductId_positive nat
  | Quantity_positive nat
  | ShippingAddress_min

record response_json =
  message :: string
  errors :: "issue list option"
  order_json :: "order_view option"

record response =
  status :: nat
  json :: response_json

definition reply :: "nat \<Rightarrow> string \<Rightarrow> response" where
  "reply code msg =
     \<lparr>status = code, json = \<lparr>message = msg, errors = None, order_json = None\<rparr>\<rparr>"

definition created :: "order_view option \<Rightarrow> response" where
  "created completeOrder =
     \<lparr>status = 201,
      json = \<lparr>message = ''Order created successfully'', errors = None,
              order_json = completeOrder\<rparr>\<rparr>"

section \<open>The cache layer (services/cache)\<close>

text \<open>A page of the product listing, the value the listing route caches.\<close>

record listing =
  l_items :: "product list"
  l_page :: int
  l_limit :: int
  l_total :: int

text \<open>
  The string stored under a key: the serialisation of a listing, the text \<open>null\<close>, a
  text that is no JSON, or the empty string. \<open>JSON.parse\<close> throws on the last two.
\<close>

datatype stored = Json listing | JsonNull | NotJson | EmptyString

datatype redis_cmd =
    Get string
  | Setex string nat stored
  | Del "string list"
  | Keys string
  | Exists string
  | Ttl string
  | Expire string nat
  | Flushall
  | Info
  | Dbsize
  | Ping
  | Quit

text \<open>
  The Redis server as the client sees it: its entries with their time to live, the text
  it gives for \<open>INFO\<close>, the status of the client, and the commands that fail at present
  (an outage, a timeout). Time does not pass in the model: no entry expires.
\<close>

record redis_server =
  entries :: "(string \<times> nat \<times> stored) list"
  info :: string
  client_status :: string
  failing :: "redis_cmd \<Rightarrow> bool"

datatype event = Query sql | Redis redis_cmd | Release

record world =
  conn :: connection
  redis :: redis_server
  trace :: "event list"

text \<open>
  An awaited call either returns a value or throws, and changes the world in both cases.
\<close>

type_synonym 'a io = "world \<Rightarrow> (exn + 'a) \<times> world"

definition return_io :: "'a \<Rightarrow> 'a io" where
  "return_io a w = (Inr a, w)"

definition bind_io :: "'a io \<Rightarrow> ('a \<Rightarrow> 'b io) \<Rightarrow> 'b io" where
  "bind_io m f w = (case m w of (Inl e, w') \<Rightarrow> (Inl e, w') | (Inr a, w') \<Rightarrow> f a w')"

definition throw_io :: "exn \<Rightarrow> 'a io" where
  "throw_io e w = (Inl e, w)"

definition try_catch :: "'a io \<Rightarrow> (exn \<Rightarrow> 'a io) \<Rightarrow> 'a io" where
  "try_catch m handler w =
     (case m w of (Inl e, w') \<Rightarrow> handler e w' | (Inr a, w') \<Rightarrow> (Inr a, w'))"

definition emit :: "event \<Rightarrow> world \<Rightarrow> world" where
  "emit ev w = w\<lparr>trace := trace w @ [ev]\<rparr>"

subsection \<open>Key patterns\<close>

text \<open>
  The patterns of the command \<open>KEYS\<close>, with \<open>*\<close> and \<open>?\<close>. Character classes and
  escapes are not modelled: the only pattern of this program is \<open>products:*\<close>.
\<close>

fun glob_match :: "string \<Rightarrow> string \<Rightarrow> bool" where
  "glob_match [] [] = True"
| "glob_match [] (d # s) = False"
| "glob_match (c # p) [] = (c = CHR ''*'' \<and> glob_match p [])"
| "glob_match (c # p) (d # s) =
     (if c = CHR ''*'' then glob_match p (d # s) \<or> glob_match (c # p) s
      else if c = CHR ''?'' then glob_match p s
      else c = d \<and> glob_match p s)"

subsection \<open>The commands of the Redis client\<close>

definition redis_apply :: "redis_cmd \<Rightarrow> redis_server \<Rightarrow> redis_server" where
  "redis_apply cmd r =
     (case cmd of
        Setex k ttl v \<Rightarrow> r\<lparr>entries := (k, ttl, v) # filter (\<lambda>e. fst e \<noteq> k) (entries r)\<rparr>
      | Del ks \<Rightarrow> r\<lparr>entries := filter (\<lambda>e. fst e \<notin> set ks) (entries r)\<rparr>
      | Expire k ttl \<Rightarrow>
          r\<lparr>entries := map (\<lambda>e. if fst e = k then (k, ttl, snd (snd e)) else e) (entries r)\<rparr>
      | Flushall \<Rightarrow> r\<lparr>entries := []\<rparr>
      | _ \<Rightarrow> r)"

definition redis_call :: "redis_cmd \<Rightarrow> (redis_server \<Rightarrow> 'a) \<Rightarrow> 'a io" where
  "redis_call cmd result w =
     (let w1 = emit (Redis cmd) w
      in if failing (redis w1) cmd then (Inl RedisError, w1)
         else (Inr (result (redis w1)), w1\<lparr>redis := redis_apply cmd (redis w1)\<rparr>))"

definition redis_get :: "string \<Rightarrow> stored option io" where
  "redis_get k = redis_call (Get k) (\<lambda>r. map_option snd (map_of (entries r) k))"

definition redis_setex :: "string \<Rightarrow> nat \<Rightarrow> stored \<Rightarrow> unit io" where
  "redis_setex k ttl v = redis_call (Setex k ttl v) (\<lambda>r. ())"

definition redis_del :: "string list \<Rightarrow> unit io" where
  "redis_del ks = redis_call (Del ks) (\<lambda>r. ())"

definition redis_keys :: "string \<Rightarrow> string list io" where
  "redis_keys pat =
     redis_call (Keys pat) (\<lambda>r. filter (glob_match pat) (remdups (map fst (entries r))))"

definition redis_exists :: "string \<Rightarrow> int io" where
  "redis_exists k = redis_call (Exists k) (\<lambda>r. if k \<in> fst ` set (entries r) then 1 else 0)"

text \<open>\<open>TTL\<close> gives -2 for a key that does not exist.\<close>

definition redis_ttl :: "string \<Rightarrow> int io" where
  "redis_ttl k =
     redis_call (Ttl k)
       (\<lambda>r. case map_of (entries r) k of None \<Rightarrow> - 2 | Some (ttl, v) \<Rightarrow> int ttl)"

definition redis_expire :: "string \<Rightarrow> nat \<Rightarrow> unit io" where
  "redis_expire k ttl = redis_call (Expire k ttl) (\<lambda>r. ())"

definition redis_flushall :: "unit io" where
  "redis_flushall = redis_call Flushall (\<lambda>r. ())"

definition redis_info :: "string io" where
  "redis_info = redis_call Info info"

definition redis_dbsize :: "nat io" where
  "redis_dbsize = redis_call Dbsize (\<lambda>r. length (remdups (map fst (entries r))))"

definition redis_ping :: "unit io" where
  "redis_ping = redis_call Ping (\<lambda>r. ())"

definition redis_quit :: "unit io" where
  "redis_quit = redis_call Quit (\<lambda>r. ())"

subsection \<open>CacheService\<close>

definition JSON_parse :: "stored \<Rightarrow> listing option io" where
  "JSON_parse v w =
     (case v of Json l \<Rightarrow> (Inr (Some l), w)
              | JsonNull \<Rightarrow> (Inr None, w)
              | NotJson \<Rightarrow> (Inl SyntaxError, w)
              | EmptyString \<Rightarrow> (Inl SyntaxError, w))"

text \<open>
  \<open>get\<close>: the body of its \<open>try\<close>, and the whole. \<open>if (value)\<close>: a missing key gives
  \<open>null\<close>, and the empty string is falsy too.
\<close>

definition cache_get_try :: "string \<Rightarrow> listing option io" where
  "cache_get_try key =
     bind_io (redis_get key) (\<lambda>v.
       case v of None \<Rightarrow> return_io None
               | Some EmptyString \<Rightarrow> return_io None
               | Some s \<Rightarrow> JSON_parse s)"

definition cache_get :: "string \<Rightarrow> listing option io" where
  "cache_get key = try_catch (cache_get_try key) (\<lambda>error. return_io None)"

definition cache_set :: "string \<Rightarrow> listing \<Rightarrow> nat \<Rightarrow> unit io" where
  "cache_set key v ttl =
     try_catch (redis_setex key ttl (Json v)) (\<lambda>error. return_io ())"

definition cache_del :: "string \<Rightarrow> unit io" where
  "cache_del key = try_catch (redis_del [key]) (\<lambda>error. return_io ())"

definition cache_delMultiple :: "string list \<Rightarrow> unit io" where
  "cache_delMultiple ks =
     try_catch (if 0 < length ks then redis_del ks else return_io ())
       (\<lambda>error. return_io ())"

definition cache_delByPattern :: "string \<Rightarrow> unit io" where
  "cache_delByPattern pat =
     try_catch
       (bind_io (redis_keys pat) (\<lambda>ks.
          if 0 < length ks then redis_del ks else return_io ()))
       (\<lambda>error. return_io ())"

definition cache_exists :: "string \<Rightarrow> bool io" where
  "cache_exists key =
     try_catch (bind_io (redis_exists key) (\<lambda>result. return_io (result = 1)))
       (\<lambda>error. return_io False)"

definition cache_getTTL :: "string \<Rightarrow> int io" where
  "cache_getTTL key = try_catch (redis_ttl key) (\<lambda>error. return_io (- 2))"

definition cache_setTTL :: "string \<Rightarrow> nat \<Rightarrow> unit io" where
  "cache_setTTL key ttl = try_catch (redis_expire key ttl) (\<lambda>error. return_io ())"

definition cache_clearAll :: "unit io" where
  "cache_clearAll = try_catch redis_flushall (\<lambda>error. return_io ())"

text \<open>
  \<open>getStats\<close> gives the lines of \<open>INFO\<close> that contain a colon, the number of keys and the
  status of the client, or an object made from the error it caught.
\<close>

fun split_crlf :: "string \<Rightarrow> string \<Rightarrow> string list" where
  "split_crlf line [] = [line]"
| "split_crlf line [c] = [line @ [c]]"
| "split_crlf line (c # d # cs) =
     (if c = CHR 0x0D \<and> d = CHR 0x0A then line # split_crlf [] cs
      else split_crlf (line @ [c]) (d # cs))"

datatype stats = Stats "string list" nat string | StatsError exn

definition cache_getStats :: "stats io" where
  "cache_getStats =
     try_catch
       (bind_io redis_info (\<lambda>text.
        bind_io redis_dbsize (\<lambda>keys. (\<lambda>w.
          return_io (Stats (filter (\<lambda>line. CHR '':'' \<in> set line) (split_crlf [] text)) keys
                       (client_status (redis w))) w))))
       (\<lambda>error. return_io (StatsError error))"

definition cache_healthCheck :: "bool io" where
  "cache_healthCheck =
     try_catch (bind_io redis_ping (\<lambda>_. return_io True)) (\<lambda>error. return_io False)"

definition cache_close :: "unit io" where
  "cache_close = try_catch redis_quit (\<lambda>error. return_io ())"

section \<open>The orders controller\<close>

subsection \<open>Numbers in template strings\<close>

text \<open>
  A template string prints an integer with its decimal digits as long as the integer is
  safe (\<open>Number.isSafeInteger\<close>: at most \<open>2^53 - 1\<close> in absolute value). Beyond, the
  number is a rounded one and JavaScript prints rounded digits, from \<open>1e21\<close> on with an
  exponent; \<open>string_of_int\<close> does not follow it there. The statements that quote a text
  with a number in it are made for safe integers.
\<close>

definition safe_integer :: "int \<Rightarrow> bool" where
  "safe_integer n = (\<bar>n\<bar> \<le> 9007199254740991)"

text \<open>The decimal digit of a number below 10.\<close>

definition digit_char :: "nat \<Rightarrow> char" where
  "digit_char n = ''0123456789'' ! n"

function string_of_nat :: "nat \<Rightarrow> string" where
  "string_of_nat n =
     (if n < 10 then [digit_char n] else string_of_nat (n div 10) @ [digit_char (n mod 10)])"
  by pat_completeness auto
termination
  by (relation "measure id") auto

declare string_of_nat.simps [simp del]

definition string_of_int :: "int \<Rightarrow> string" where
  "string_of_int i = (if i < 0 then CHR ''-'' # string_of_nat (nat (- i))
                      else string_of_nat (nat i))"

subsection \<open>createOrderSchema\<close>

fun item_issues :: "nat \<Rightarrow> cart_item list \<Rightarrow> issue list" where
  "item_issues i [] = []"
| "item_issues i (item # rest) =
     (if 0 < productId item then [] else [ProductId_positive i]) @
     (if 0 < quantity item then [] else [Quantity_positive i]) @
     item_issues (Suc i) rest"

definition createOrderSchema :: "order_body \<Rightarrow> issue list" where
  "createOrderSchema b =
     (if length (items b) < 1 then [Items_min] else []) @
     item_issues 0 (items b) @
     (if length (shippingAddress b) < 10 then [ShippingAddress_min] else [])"

subsection \<open>Queries on the client of the call\<close>

definition client_control :: "sql \<Rightarrow> (connection \<Rightarrow> connection) \<Rightarrow> unit io" where
  "client_control q f w = (Inr (), (emit (Query q) w)\<lparr>conn := f (conn w)\<rparr>)"

definition client_query :: "sql \<Rightarrow> (database \<Rightarrow> exn + 'a \<times> database) \<Rightarrow> 'a io" where
  "client_query q f w =
     (let w1 = emit (Query q) w
      in case f (current (conn w1)) of
           Inl e \<Rightarrow> (Inl e, w1)
         | Inr (a, d) \<Rightarrow> (Inr a, w1\<lparr>conn := store d (conn w1)\<rparr>))"

definition query_begin :: "unit io" where
  "query_begin = client_control BEGIN begin_tx"

definition query_commit :: "unit io" where
  "query_commit = client_control COMMIT commit_tx"

definition query_rollback :: "unit io" where
  "query_rollback = client_control ROLLBACK rollback_tx"

definition query_product :: "int \<Rightarrow> product list io" where
  "query_product pid =
     client_query (SelectProduct pid) (\<lambda>d. map_sum id (\<lambda>rows. (rows, d)) (select_product pid d))"

text \<open>
  A statement with a parameter outside of the range of its type, or one that would draw
  an id beyond the range of \<open>SERIAL\<close>, is refused before a row is made: no id is drawn.
  Otherwise an \<open>INSERT\<close> draws its id from the sequence, whether the constraints of the
  table then accept the row or not.
\<close>

definition refused :: "sql \<Rightarrow> 'a io" where
  "refused q = client_query q (\<lambda>d. Inl (DbError ''out of range''))"

definition query_insert_order :: "int \<Rightarrow> money \<Rightarrow> string \<Rightarrow> string \<Rightarrow> order_row io" where
  "query_insert_order uid totalAmount st addr w =
     (if int4 uid \<and> decimal_10_2 totalAmount \<and> int4 (orders_id_seq (conn w))
      then client_query (InsertOrder uid totalAmount st addr)
             (insert_order (orders_id_seq (conn w)) uid totalAmount st addr)
             (w\<lparr>conn := (conn w)\<lparr>orders_id_seq := orders_id_seq (conn w) + 1\<rparr>\<rparr>)
      else refused (InsertOrder uid totalAmount st addr) w)"

definition query_insert_order_item :: "int \<Rightarrow> int \<Rightarrow> money \<Rightarrow> int \<Rightarrow> unit io" where
  "query_insert_order_item oid pid unit_price qty w =
     (if int4 oid \<and> int4 pid \<and> decimal_10_2 unit_price \<and> int4 qty \<and>
         int4 (order_items_id_seq (conn w))
      then client_query (InsertOrderItem oid pid unit_price qty)
             (\<lambda>d. map_sum id (Pair ())
                     (insert_order_item (order_items_id_seq (conn w)) oid pid unit_price qty d))
             (w\<lparr>conn := (conn w)\<lparr>order_items_id_seq := order_items_id_seq (conn w) + 1\<rparr>\<rparr>)
      else refused (InsertOrderItem oid pid unit_price qty) w)"

definition query_update_stock :: "int \<Rightarrow> int \<Rightarrow> unit io" where
  "query_update_stock qty pid =
     (if int4 qty \<and> int4 pid
      then client_query (UpdateStock qty pid)
             (\<lambda>d. map_sum id (Pair ()) (update_stock qty pid d))
      else refused (UpdateStock qty pid))"

text \<open>The query of the compiled controller for the complete order.\<close>

definition query_complete_order :: "int \<Rightarrow> order_view list io" where
  "query_complete_order oid =
     client_query (SelectCompleteOrder oid)
       (\<lambda>d. map_sum id (\<lambda>rows. (rows, d)) (select_complete_order oid d))"

text \<open>The two queries of the TypeScript controller for the order and its lines.\<close>

definition query_order :: "int \<Rightarrow> header_view list io" where
  "query_order oid w =
     client_query (SelectOrder oid)
       (\<lambda>d. Inr (select_order (row_order (conn w)) oid d, d)) w"

definition query_order_items :: "int \<Rightarrow> item_view list io" where
  "query_order_items oid w =
     client_query (SelectOrderItems oid)
       (\<lambda>d. Inr (select_order_items (row_order (conn w)) oid d, d)) w"

subsection \<open>invalidateProductCache\<close>

definition invalidateProductCache :: "unit io" where
  "invalidateProductCache =
     try_catch (cache_delByPattern ''products:*'') (\<lambda>error. return_io ())"

subsection \<open>createOrder\<close>

definition not_found_message :: "cart_item \<Rightarrow> string" where
  "not_found_message item =
     ''Product with ID '' @ string_of_int (productId item) @ '' not found''"

definition insufficient_message :: "product \<Rightarrow> cart_item \<Rightarrow> string" where
  "insufficient_message product item =
     ''Insufficient stock for '' @ p_name product @ ''. Available: '' @
     string_of_int (p_stock_quantity product) @ '', Requested: '' @
     string_of_int (quantity item)"

text \<open>
  The first loop: the stock of every line is read and compared. It leaves with a
  response at the first line that fails, after \<open>ROLLBACK\<close>; otherwise it gives the
  total and the lines with their prices.
\<close>

fun stock_loop ::
  "cart_item list \<Rightarrow> money \<Rightarrow> order_item list \<Rightarrow> (response + money \<times> order_item list) io" where
  "stock_loop [] totalAmount orderItems = return_io (Inr (totalAmount, orderItems))"
| "stock_loop (item # rest) totalAmount orderItems =
     bind_io (query_product (productId item)) (\<lambda>rows.
       case rows of
         [] \<Rightarrow> bind_io query_rollback (\<lambda>_.
                 return_io (Inl (reply 404 (not_found_message item))))
       | product # _ \<Rightarrow>
           if p_stock_quantity product < quantity item
           then bind_io query_rollback (\<lambda>_.
                  return_io (Inl (reply 400 (insufficient_message product item))))
           else stock_loop rest
                  (totalAmount + p_price product * quantity item)
                  (orderItems @
                     [\<lparr>productId = productId item, quantity = quantity item,
                       unitPrice = p_price product,
                       availableStock = p_stock_quantity product\<rparr>]))"

text \<open>The second loop: one line of the order and one decrement of the stock per item.\<close>

fun write_loop :: "int \<Rightarrow> order_item list \<Rightarrow> unit io" where
  "write_loop oid [] = return_io ()"
| "write_loop oid (item # rest) =
     bind_io (query_insert_order_item oid (productId item) (unitPrice item) (quantity item))
       (\<lambda>_. bind_io (query_update_stock (quantity item) (productId item))
       (\<lambda>_. write_loop oid rest))"

text \<open>
  \<open>createOrder\<close> is there twice in the sources: as the TypeScript controller, and as
  compiled JavaScript. The two have the same text from \<open>BEGIN\<close> to the invalidation of
  the cache; they differ in how they read the complete order back and in what their
  \<open>catch\<close> does after \<open>ROLLBACK\<close>.

  \<open>place\<close> is the common part from the first loop on: both loops, the \<open>COMMIT\<close> and the
  invalidation. It gives the response of an early return, or the row of the order that
  \<open>INSERT ... RETURNING\<close> gave.
\<close>

definition place :: "int \<Rightarrow> order_body \<Rightarrow> (response + order_row) io" where
  "place userId b =
     bind_io (stock_loop (items b) 0 []) (\<lambda>checked.
       case checked of
         Inl early \<Rightarrow> return_io (Inl early)
       | Inr (totalAmount, orderItems) \<Rightarrow>
           bind_io (query_insert_order userId totalAmount ''pending'' (shippingAddress b))
             (\<lambda>order.
           bind_io (write_loop (o_id order) orderItems) (\<lambda>_.
           bind_io query_commit (\<lambda>_.
           bind_io invalidateProductCache (\<lambda>_.
           return_io (Inr order))))))"

text \<open>
  The reading of the complete order. The compiled controller takes the first row of its
  one query; the TypeScript controller takes the first row of the header and puts all
  rows of the lines under \<open>items\<close>.
\<close>

definition completeOrder :: "int \<Rightarrow> order_view option io" where
  "completeOrder oid =
     bind_io (query_complete_order oid) (\<lambda>rows.
       return_io (case rows of [] \<Rightarrow> None | r # _ \<Rightarrow> Some r))"

definition orderWithItems :: "int \<Rightarrow> order_view option io" where
  "orderWithItems oid =
     bind_io (query_order oid) (\<lambda>headers.
     bind_io (query_order_items oid) (\<lambda>lines.
       return_io (Some \<lparr>ov_header = (case headers of [] \<Rightarrow> None | h # _ \<Rightarrow> Some h),
                        ov_items = lines\<rparr>)))"

text \<open>
  The body of \<open>try\<close>, which the two controllers share but for the reading of the complete
  order, \<open>read_back\<close>. \<open>!userId\<close> holds when there is no user, no id, or the id 0.
\<close>

definition createOrder_try :: "(int \<Rightarrow> order_view option io) \<Rightarrow> request \<Rightarrow> response io" where
  "createOrder_try read_back req =
     bind_io query_begin (\<lambda>_.
       if createOrderSchema (body req) \<noteq> []
       then return_io \<lparr>status = 400,
                       json = \<lparr>message = ''Invalid input'',
                               errors = Some (createOrderSchema (body req)),
                               order_json = None\<rparr>\<rparr>
       else case user_id req of
              None \<Rightarrow> return_io (reply 401 ''Authentication required'')
            | Some userId \<Rightarrow>
                if userId = 0 then return_io (reply 401 ''Authentication required'')
                else bind_io (place userId (body req)) (\<lambda>placed.
                       case placed of
                         Inl early \<Rightarrow> return_io early
                       | Inr order \<Rightarrow>
                           bind_io (read_back (o_id order)) (\<lambda>complete.
                             return_io (created complete))))"

text \<open>
  The compiled controller: the \<open>catch\<close> rolls back and answers 500, the \<open>finally\<close>
  releases the client on every path. (The key \<open>error\<close> of the answer 500, present in
  development only, is left out.) The client that \<open>pool.connect()\<close> gives is the
  connection of the world. Since its reading of the complete order is refused, this
  controller answers 500 for every order it has committed.

  A statement on the store is refused where a type or a constraint of \<open>init.sql\<close> is
  violated, or where it names a function that does not exist; failures of the connection
  itself are not modelled.
\<close>

definition createOrder :: "request \<Rightarrow> response io" where
  "createOrder req w =
     (case try_catch (createOrder_try completeOrder req)
             (\<lambda>error. bind_io query_rollback (\<lambda>_.
                return_io (reply 500 ''Failed to create order''))) w
      of (r, w') \<Rightarrow> (r, emit Release w'))"

text \<open>
  The TypeScript controller: its \<open>catch\<close> rolls back and throws the error again, for
  the error handler of the application.
\<close>

definition createOrder_ts :: "request \<Rightarrow> response io" where
  "createOrder_ts req w =
     (case try_catch (createOrder_try orderWithItems req)
             (\<lambda>error. bind_io query_rollback (\<lambda>_. throw_io error)) w
      of (r, w') \<Rightarrow> (r, emit Release w'))"

section \<open>The product listing (routes/products)\<close>

text \<open>
  The query parameters after \<open>Number(...)\<close>: \<open>None\<close> stands for a parameter that is
  absent or no number, which the route treats alike. The model has the integers among the
  numbers, and computes the offset exactly; the route computes it in floating point, which
  is exact as long as the offset is a safe integer.
\<close>

record listing_query =
  q_page :: "int option"
  q_limit :: "int option"
  q_category :: "int option"
  q_search :: "string option"

definition page_of :: "listing_query \<Rightarrow> int" where
  "page_of q = max 1 (case q_page q of None \<Rightarrow> 1 | Some n \<Rightarrow> if n = 0 then 1 else n)"

definition limit_of :: "listing_query \<Rightarrow> int" where
  "limit_of q =
     min 50 (max 1 (case q_limit q of None \<Rightarrow> 12 | Some n \<Rightarrow> if n = 0 then 12 else n))"

definition cacheKey :: "listing_query \<Rightarrow> string" where
  "cacheKey q =
     ''products:'' @ string_of_int (page_of q) @ '':'' @ string_of_int (limit_of q) @ '':'' @
     (case q_category q of None \<Rightarrow> ''all''
                         | Some c \<Rightarrow> if c = 0 then ''all'' else string_of_int c) @ '':'' @
     (case q_search q of None \<Rightarrow> ''none'' | Some s \<Rightarrow> if s = [] then ''none'' else s)"

text \<open>
  \<open>ILIKE\<close>: \<open>%\<close> stands for any text, \<open>_\<close> for one character, a backslash takes the next
  character literally; letters are compared without case (ASCII).
\<close>

definition lower :: "char \<Rightarrow> char" where
  "lower c = (if (65::nat) \<le> of_char c \<and> of_char c \<le> (90::nat)
              then char_of (of_char c + (32::nat)) else c)"

fun like_match :: "string \<Rightarrow> string \<Rightarrow> bool" where
  "like_match [] [] = True"
| "like_match [] (d # s) = False"
| "like_match [c] [] = (c = CHR ''%'')"
| "like_match (c # c' # p) [] = (c = CHR ''%'' \<and> like_match (c' # p) [])"
| "like_match [c] (d # s) =
     (if c = CHR ''%'' then True
      else if c = CHR ''_'' then s = []
      else lower c = lower d \<and> s = [])"
| "like_match (c # c' # p) (d # s) =
     (if c = CHR ''%'' then like_match (c' # p) (d # s) \<or> like_match (c # c' # p) s
      else if c = CHR ''_'' then like_match (c' # p) s
      else if c = CHR 0x5C then lower c' = lower d \<and> like_match p s
      else lower c = lower d \<and> like_match (c' # p) s)"

definition ilike :: "string option \<Rightarrow> string \<Rightarrow> bool" where
  "ilike text pat = (case text of None \<Rightarrow> False | Some t \<Rightarrow> like_match pat t)"

definition blank :: "string \<Rightarrow> bool" where
  "blank s = (\<forall>c \<in> set s. c \<in> set [CHR '' '', CHR 0x09, CHR 0x0A, CHR 0x0B, CHR 0x0C, CHR 0x0D])"

text \<open>
  The \<open>WHERE\<close> clause the route builds from the category and the search text. The
  category is compared with the column \<open>category_id\<close>, an \<open>INTEGER\<close>.
\<close>

definition selected :: "listing_query \<Rightarrow> product \<Rightarrow> bool" where
  "selected q p =
     ((case q_category q of None \<Rightarrow> True | Some c \<Rightarrow> p_category_id p = Some c) \<and>
      (case q_search q of
         None \<Rightarrow> True
       | Some s \<Rightarrow> if s \<noteq> [] \<and> \<not> blank s
                   then ilike (Some (p_name p)) (''%'' @ s @ ''%'') \<or>
                        ilike (p_description p) (''%'' @ s @ ''%'')
                   else True))"

text \<open>
  The two queries of the route, \<open>SELECT COUNT(*) FROM products ...\<close> and \<open>SELECT * FROM
  products ... ORDER BY created_at DESC LIMIT $n OFFSET $m\<close>, on the committed state of the
  store (\<open>pool.query\<close>). The first is refused for a category beyond \<open>INTEGER\<close>, the second
  for an offset beyond \<open>BIGINT\<close>. Rows with the same \<open>created_at\<close> come in the order the
  connection arranges.
\<close>

definition fetch_listing :: "listing_query \<Rightarrow> connection \<Rightarrow> exn + listing" where
  "fetch_listing q c =
     (let matching = filter (selected q) (products (committed c));
          ordered = rev (sort_key p_created_at (arrange (row_order c) matching));
          offset = (page_of q - 1) * limit_of q
      in if (case q_category q of None \<Rightarrow> False | Some category \<Rightarrow> \<not> int4 category)
         then Inl (DbError ''out of range for type integer'')
         else if \<not> int8 offset then Inl (DbError ''out of range for type bigint'')
         else Inr \<lparr>l_items = take (nat (limit_of q)) (drop (nat offset) ordered),
                    l_page = page_of q, l_limit = limit_of q,
                    l_total = int (length matching)\<rparr>)"

definition query_listing :: "listing_query \<Rightarrow> listing io" where
  "query_listing q w = (fetch_listing q (conn w), w)"

datatype listing_reply = Page listing | Failure nat string

text \<open>
  \<open>GET /api/products\<close>: a page found in the cache is the answer; otherwise the page is
  read from the store and cached for 60 seconds. The \<open>catch\<close> of the route answers 500.
\<close>

definition products_route :: "listing_query \<Rightarrow> listing_reply io" where
  "products_route q =
     try_catch
       (bind_io (cache_get (cacheKey q)) (\<lambda>cachedResult.
          case cachedResult of
            Some l \<Rightarrow> return_io (Page l)
          | None \<Rightarrow>
              bind_io (query_listing q) (\<lambda>response.
              bind_io (cache_set (cacheKey q) response 60) (\<lambda>_.
              return_io (Page response)))))
       (\<lambda>err. return_io (Failure 500 ''Failed to fetch products''))"

section \<open>Notions used in the statements\<close>

text \<open>
  What the first loop decides for one line, in terms of the store it reads: whether the
  line passes, the line with its price, and otherwise the response with which the
  compiled controller ends the call (404, 400, or the 500 of its \<open>catch\<close> when the
  \<open>SELECT\<close> is refused).
\<close>

definition in_stock :: "database \<Rightarrow> cart_item \<Rightarrow> bool" where
  "in_stock d item =
     (case select_product (productId item) d of
        Inl e \<Rightarrow> False
      | Inr [] \<Rightarrow> False
      | Inr (product # _) \<Rightarrow> \<not> p_stock_quantity product < quantity item)"

definition priced :: "database \<Rightarrow> cart_item \<Rightarrow> order_item list" where
  "priced d item =
     (case select_product (productId item) d of
        Inl e \<Rightarrow> []
      | Inr [] \<Rightarrow> []
      | Inr (product # _) \<Rightarrow>
          [\<lparr>productId = productId item, quantity = quantity item,
            unitPrice = p_price product, availableStock = p_stock_quantity product\<rparr>])"

definition stock_failure :: "database \<Rightarrow> cart_item \<Rightarrow> response" where
  "stock_failure d item =
     (case select_product (productId item) d of
        Inl e \<Rightarrow> reply 500 ''Failed to create order''
      | Inr [] \<Rightarrow> reply 404 (not_found_message item)
      | Inr (product # _) \<Rightarrow> reply 400 (insufficient_message product item))"

definition selects :: "cart_item list \<Rightarrow> event list" where
  "selects its = map (\<lambda>i. Query (SelectProduct (productId i))) its"

text \<open>
  What the second loop does to the store: the rows it adds to \<open>order_items\<close>, the first
  with the id \<open>new_id\<close>, and the store after all its statements, if none is rejected.
\<close>

fun item_rows :: "int \<Rightarrow> int \<Rightarrow> order_item list \<Rightarrow> order_item_row list" where
  "item_rows new_id oid [] = []"
| "item_rows new_id oid (item # rest) =
     \<lparr>oi_id = new_id, oi_order_id = oid, oi_product_id = productId item,
      oi_unit_price = unitPrice item, oi_quantity = quantity item\<rparr> #
     item_rows (new_id + 1) oid rest"

fun write_lines :: "int \<Rightarrow> int \<Rightarrow> order_item list \<Rightarrow> database \<Rightarrow> exn + database" where
  "write_lines new_id oid [] d = Inr d"
| "write_lines new_id oid (item # rest) d =
     (case insert_order_item new_id oid (productId item) (unitPrice item) (quantity item) d of
        Inl e \<Rightarrow> Inl e
      | Inr d1 \<Rightarrow>
          (case update_stock (quantity item) (productId item) d1 of
             Inl e \<Rightarrow> Inl e
           | Inr d2 \<Rightarrow> write_lines (new_id + 1) oid rest d2))"

text \<open>
  Two facts the schema of the store guarantees (primary keys, sequences, foreign keys):
  the ids of the rows are below the next values of their sequences, and no two products
  share an id.
\<close>

definition fresh_ids :: "connection \<Rightarrow> bool" where
  "fresh_ids c =
     ((\<forall>ord \<in> set (orders (current c)). o_id ord < orders_id_seq c) \<and>
      (\<forall>oi \<in> set (order_items (current c)). oi_order_id oi < orders_id_seq c))"

definition unique_products :: "database \<Rightarrow> bool" where
  "unique_products d = distinct (map p_id (products d))"

text \<open>
  A third fact the schema guarantees: the stock of a product is an \<open>INTEGER\<close>. A message
  prints such a number exactly.
\<close>

definition integer_stocks :: "database \<Rightarrow> bool" where
  "integer_stocks d = (\<forall>p \<in> set (products d). int4 (p_stock_quantity p))"

text \<open>
  A computation that leaves Redis alone and adds to the trace statements on the client
  only, none of them \<open>COMMIT\<close>.
\<close>

definition no_commit :: "'a io \<Rightarrow> bool" where
  "no_commit m =
     (\<forall>w. redis (snd (m w)) = redis w \<and>
          (\<exists>qs. trace (snd (m w)) = trace w @ map Query qs \<and> COMMIT \<notin> set qs))"

text \<open>
  A computation that neither reads nor changes anything but the connection: from two
  worlds with the same connection it gives the same result and the same connection.
\<close>

definition store_only :: "'a io \<Rightarrow> bool" where
  "store_only m =
     (\<forall>w1 w2. conn w1 = conn w2 \<longrightarrow>
        fst (m w1) = fst (m w2) \<and> conn (snd (m w1)) = conn (snd (m w2)))"

text \<open>
  A computation that keeps an open transaction open and leaves the committed store as
  it is.
\<close>

definition in_transaction :: "'a io \<Rightarrow> bool" where
  "in_transaction m =
     (\<forall>w. working (conn w) \<noteq> None \<longrightarrow>
        committed (conn (snd (m w))) = committed (conn w) \<and>
        working (conn (snd (m w))) \<noteq> None)"

text \<open>The lines of an order in the store.\<close>

definition order_lines :: "int \<Rightarrow> database \<Rightarrow> order_item_row list" where
  "order_lines oid d = filter (\<lambda>oi. oi_order_id oi = oid) (order_items d)"

text \<open>The events a call added to the trace, and whether \<open>COMMIT\<close> is among them.\<close>

definition new_events :: "world \<Rightarrow> world \<Rightarrow> event list" where
  "new_events w w' = drop (length (trace w)) (trace w')"

definition committing :: "world \<Rightarrow> world \<Rightarrow> bool" where
  "committing w w' = (Query COMMIT \<in> set (new_events w w'))"

text \<open>
  The part of \<open>place\<close> before \<open>COMMIT\<close>: both loops and the row of the order between
  them.
\<close>

definition reserve :: "int \<Rightarrow> order_body \<Rightarrow> (response + order_row) io" where
  "reserve userId b =
     bind_io (stock_loop (items b) 0 []) (\<lambda>checked.
       case checked of
         Inl early \<Rightarrow> return_io (Inl early)
       | Inr (totalAmount, orderItems) \<Rightarrow>
           bind_io (query_insert_order userId totalAmount ''pending'' (shippingAddress b))
             (\<lambda>order.
           bind_io (write_loop (o_id order) orderItems) (\<lambda>_.
           return_io (Inr order))))"

text \<open>
  The shape the two controllers share: the body of \<open>try\<close> with a way to read the order
  back, a \<open>catch\<close> that rolls back and then answers or throws (the outcome it makes of
  the error), and the release of the client. A way to read the order back that only
  reads.
\<close>

definition controller ::
  "(int \<Rightarrow> order_view option io) \<Rightarrow> (exn \<Rightarrow> exn + response) \<Rightarrow> request \<Rightarrow> response io"
  where
  "controller read_back outcome req w =
     (case try_catch (createOrder_try read_back req)
             (\<lambda>error. bind_io query_rollback (\<lambda>_ w'. (outcome error, w'))) w
      of (r, w') \<Rightarrow> (r, emit Release w'))"

definition reading :: "(int \<Rightarrow> order_view option io) \<Rightarrow> bool" where
  "reading read_back =
     (\<forall>oid w. conn (snd (read_back oid w)) = conn w \<and>
              redis (snd (read_back oid w)) = redis w \<and>
              (\<exists>qs. trace (snd (read_back oid w)) = trace w @ map Query qs \<and>
                 COMMIT \<notin> set qs))"

text \<open>
  Calls of a controller one after the other on the same connection, with a mark for each
  that tells whether the call committed; the quantity of a product that a request orders.
\<close>

fun serve :: "(request \<Rightarrow> response io) \<Rightarrow> request list \<Rightarrow> world \<Rightarrow> bool list \<times> world" where
  "serve handler [] w = ([], w)"
| "serve handler (req # reqs) w =
     (case handler req w of
        (r, w1) \<Rightarrow> (case serve handler reqs w1 of
                       (marks, w2) \<Rightarrow> (committing w w1 # marks, w2)))"

definition ordered_quantity :: "int \<Rightarrow> request \<Rightarrow> int" where
  "ordered_quantity pid req =
     (\<Sum>item\<leftarrow>items (body req). if productId item = pid then quantity item else 0)"

text \<open>The answer of the listing route to the outcome of its queries.\<close>

definition listing_answer :: "exn + listing \<Rightarrow> listing_reply" where
  "listing_answer r =
     (case r of Inl e \<Rightarrow> Failure 500 ''Failed to fetch products'' | Inr l \<Rightarrow> Page l)"

section \<open>A small shop\<close>

definition mug :: product where
  "mug = \<lparr>p_id = 1, p_name = ''Mug'', p_description = Some ''Ceramic mug'',
          p_price = 1299, p_stock_quantity = 5, p_category_id = Some 1,
          p_created_at = 1\<rparr>"

definition shirt :: product where
  "shirt = \<lparr>p_id = 2, p_name = ''Shirt'', p_description = None,
            p_price = 1999, p_stock_quantity = 0, p_category_id = Some 2,
            p_created_at = 2\<rparr>"

definition shop :: database where
  "shop = \<lparr>users = [7], products = [mug, shirt], orders = [], order_items = []\<rparr>"

definition redis_up :: redis_server where
  "redis_up = \<lparr>entries = [], info = [], client_status = ''ready'',
                failing = (\<lambda>cmd. False)\<rparr>"

definition redis_down :: redis_server where
  "redis_down = \<lparr>entries = [], info = [], client_status = ''reconnecting'',
                  failing = (\<lambda>cmd. True)\<rparr>"

definition shop_world :: world where
  "shop_world =
     \<lparr>conn = \<lparr>committed = shop, working = None, orders_id_seq = 1,
              order_items_id_seq = 1, row_order = []\<rparr>,
      redis = redis_up, trace = []\<rparr>"

definition order_request :: "cart_item list \<Rightarrow> request" where
  "order_request its =
     \<lparr>body = \<lparr>items = its, shippingAddress = ''123 Test Street''\<rparr>, user_id = Some 7\<rparr>"

definition cart_line :: "int \<Rightarrow> int \<Rightarrow> cart_item" where
  "cart_line pid qty = \<lparr>productId = pid, quantity = qty\<rparr>"

definition shirt_shop :: "int \<Rightarrow> world" where
  "shirt_shop n =
     shop_world\<lparr>conn := (conn shop_world)
       \<lparr>committed := shop\<lparr>products := [mug, shirt\<lparr>p_id := n\<rparr>]\<rparr>\<rparr>\<rparr>"

text \<open>
  A Redis server that refuses the command \<open>KEYS\<close> and serves all others; the shop after
  its first page was listed (and cached), with a given server; and that shop after two
  mugs were ordered through a given controller. The shop whose connection returns two
  unordered rows in the reverse of their order in the table.
\<close>

definition redis_without_keys :: redis_server where
  "redis_without_keys =
     \<lparr>entries = [], info = [], client_status = ''ready'',
      failing = (\<lambda>cmd. case cmd of Keys pat \<Rightarrow> True | _ \<Rightarrow> False)\<rparr>"

definition first_page :: listing_query where
  "first_page = \<lparr>q_page = None, q_limit = None, q_category = None, q_search = None\<rparr>"

definition listed :: "redis_server \<Rightarrow> world" where
  "listed r = snd (products_route first_page (shop_world\<lparr>redis := r\<rparr>))"

definition sold :: "(request \<Rightarrow> response io) \<Rightarrow> redis_server \<Rightarrow> world" where
  "sold handler r = snd (handler (order_request [cart_line 1 2]) (listed r))"

definition reversing_shop :: world where
  "reversing_shop = shop_world\<lparr>conn := (conn shop_world)\<lparr>row_order := [1, 0]\<rparr>\<rparr>"

text \<open>The stock figures of a page of the listing, in the order of the page.\<close>

definition page_stock :: "exn + listing_reply \<Rightarrow> int list" where
  "page_stock r = (case r of Inr (Page l) \<Rightarrow> map p_stock_quantity (l_items l) | _ \<Rightarrow> [])"

section \<open>Properties of the io combinators\<close>

lemma emit_simps [simp]:
  "conn (emit ev w) = conn w"
  "redis (emit ev w) = redis w"
  "trace (emit ev w) = trace w @ [ev]"
  by (simp_all add: emit_def)

lemma return_io_eq: "return_io a = (\<lambda>w. (Inr a, w))"
  by (rule ext) (simp add: return_io_def)

lemma throw_io_eq: "throw_io e = (\<lambda>w. (Inl e, w))"
  by (rule ext) (simp add: throw_io_def)

lemma bind_io_InrE:
  assumes "bind_io m f w = (Inr b, w'')"
  obtains a w' where "m w = (Inr a, w')" and "f a w' = (Inr b, w'')"
  using assms by (auto simp: bind_io_def split: prod.splits sum.splits)

lemma map_sum_Pair_Inr [simp]: "(map_sum id (Pair ()) x = Inr (u, b)) = (x = Inr b)"
  by (cases x) auto

section \<open>Properties of the store and of the first loop\<close>

lemma store_current [simp]: "store (current c) c = c"
  by (cases "working c") (simp_all add: store_def current_def)

lemma current_store [simp]: "current (store d c) = d"
  by (cases "working c") (simp_all add: store_def current_def)

lemma working_store [simp]: "(working (store d c) = None) = (working c = None)"
  by (cases "working c") (simp_all add: store_def)

lemma committed_store [simp]: "working c = Some x \<Longrightarrow> committed (store d c) = committed c"
  by (simp add: store_def)

lemma seqs_store [simp]:
  "orders_id_seq (store d c) = orders_id_seq c"
  "order_items_id_seq (store d c) = order_items_id_seq c"
  "row_order (store d c) = row_order c"
  by (cases "working c"; simp add: store_def)+

lemma begin_tx_simps [simp]:
  "current (begin_tx c) = current c"
  "committed (begin_tx c) = committed c"
  "working (begin_tx c) = Some (current c)"
  "orders_id_seq (begin_tx c) = orders_id_seq c"
  "order_items_id_seq (begin_tx c) = order_items_id_seq c"
  "row_order (begin_tx c) = row_order c"
  by (cases "working c"; simp add: begin_tx_def current_def)+

lemma rollback_tx_simps [simp]:
  "committed (rollback_tx c) = committed c"
  "working (rollback_tx c) = None"
  "orders_id_seq (rollback_tx c) = orders_id_seq c"
  "order_items_id_seq (rollback_tx c) = order_items_id_seq c"
  "row_order (rollback_tx c) = row_order c"
  by (simp_all add: rollback_tx_def)

lemma commit_tx_simps [simp]:
  "working (commit_tx c) = None"
  "committed (commit_tx c) = current c"
  "orders_id_seq (commit_tx c) = orders_id_seq c"
  "order_items_id_seq (commit_tx c) = order_items_id_seq c"
  "row_order (commit_tx c) = row_order c"
  by (cases "working c"; simp add: commit_tx_def current_def)+

lemma rollback_settled: "working c = None \<Longrightarrow> rollback_tx c = c"
  by (simp add: rollback_tx_def)

lemma client_query_cases:
  "client_query q f w =
     (case f (current (conn w)) of
        Inl e \<Rightarrow> (Inl e, emit (Query q) w)
      | Inr (a, d) \<Rightarrow> (Inr a, (emit (Query q) w)\<lparr>conn := store d (conn w)\<rparr>))"
  by (simp add: client_query_def Let_def split: sum.splits prod.splits)

lemma query_product_eq:
  "query_product pid w =
     (select_product pid (current (conn w)), emit (Query (SelectProduct pid)) w)"
  by (cases "select_product pid (current (conn w))")
     (simp_all add: query_product_def client_query_cases emit_def)

lemma query_begin_eq:
  "query_begin w = (Inr (), (emit (Query BEGIN) w)\<lparr>conn := begin_tx (conn w)\<rparr>)"
  by (simp add: query_begin_def client_control_def)

lemma query_rollback_eq:
  "query_rollback w = (Inr (), (emit (Query ROLLBACK) w)\<lparr>conn := rollback_tx (conn w)\<rparr>)"
  by (simp add: query_rollback_def client_control_def)

lemma query_commit_eq:
  "query_commit w = (Inr (), (emit (Query COMMIT) w)\<lparr>conn := commit_tx (conn w)\<rparr>)"
  by (simp add: query_commit_def client_control_def)

lemma in_stock_row:
  assumes "in_stock d item"
  obtains product others where "select_product (productId item) d = Inr (product # others)"
    and "\<not> p_stock_quantity product < quantity item"
  using assms by (auto simp: in_stock_def split: sum.splits list.splits)

lemma stock_loop_head_fails:
  assumes "\<not> in_stock (current (conn w)) item"
  shows "stock_loop (item # post) t acc w =
     (case select_product (productId item) (current (conn w)) of
        Inl e \<Rightarrow> (Inl e, w\<lparr>trace := trace w @ [Query (SelectProduct (productId item))]\<rparr>)
      | Inr rows \<Rightarrow>
          (Inr (Inl (stock_failure (current (conn w)) item)),
           w\<lparr>trace := trace w @ [Query (SelectProduct (productId item)), Query ROLLBACK],
             conn := rollback_tx (conn w)\<rparr>))"
  using assms
  by (auto simp: in_stock_def stock_failure_def bind_io_def query_product_eq query_rollback_eq
      return_io_def emit_def split: sum.splits list.splits)

lemma stock_loop_append:
  "\<forall>item \<in> set pre. in_stock (current (conn w)) item \<Longrightarrow>
   stock_loop (pre @ rest) t acc w =
     stock_loop rest
       (t + (\<Sum>i\<leftarrow>concat (map (priced (current (conn w))) pre). unitPrice i * quantity i))
       (acc @ concat (map (priced (current (conn w))) pre))
       (w\<lparr>trace := trace w @ selects pre\<rparr>)"
proof (induction pre arbitrary: t acc w)
  case Nil
  then show ?case by (simp add: selects_def)
next
  case (Cons item pre)
  from Cons.prems have "in_stock (current (conn w)) item" by simp
  then obtain product others where
    sel: "select_product (productId item) (current (conn w)) = Inr (product # others)"
    and ok: "\<not> p_stock_quantity product < quantity item"
    by (rule in_stock_row)
  let ?w1 = "emit (Query (SelectProduct (productId item))) w"
  have rest: "\<forall>i \<in> set pre. in_stock (current (conn ?w1)) i"
    using Cons.prems by simp
  show ?case
    using sel ok Cons.IH [OF rest]
    by (simp add: bind_io_def query_product_eq priced_def emit_def algebra_simps selects_def)
qed

lemma stock_loop_pass:
  assumes "\<forall>item \<in> set its. in_stock (current (conn w)) item"
  shows "stock_loop its t acc w =
     (Inr (Inr (t + (\<Sum>i\<leftarrow>concat (map (priced (current (conn w))) its). unitPrice i * quantity i),
                acc @ concat (map (priced (current (conn w))) its))),
      w\<lparr>trace := trace w @ selects its\<rparr>)"
  using stock_loop_append [OF assms, of "[]" t acc] by (simp add: return_io_def)

lemma stock_loop_fails:
  assumes "\<forall>i \<in> set pre. in_stock (current (conn w)) i"
    and "\<not> in_stock (current (conn w)) item"
  shows "stock_loop (pre @ item # post) t acc w =
     (case select_product (productId item) (current (conn w)) of
        Inl e \<Rightarrow> (Inl e, w\<lparr>trace := trace w @ selects (pre @ [item])\<rparr>)
      | Inr rows \<Rightarrow>
          (Inr (Inl (stock_failure (current (conn w)) item)),
           w\<lparr>trace := trace w @ selects (pre @ [item]) @ [Query ROLLBACK],
             conn := rollback_tx (conn w)\<rparr>))"
  using assms
  by (simp add: stock_loop_append stock_loop_head_fails selects_def del: stock_loop.simps
      split: sum.splits)

lemma item_issues_empty:
  "(item_issues n its = []) = (\<forall>i \<in> set its. 0 < productId i \<and> 0 < quantity i)"
  by (induction its arbitrary: n) auto

lemma createOrderSchema_accepts:
  "(createOrderSchema b = []) =
     (items b \<noteq> [] \<and> (\<forall>i \<in> set (items b). 0 < productId i \<and> 0 < quantity i) \<and>
      10 \<le> length (shippingAddress b))"
  by (cases "items b") (auto simp: createOrderSchema_def item_issues_empty)

lemma createOrder_controller:
  "createOrder = controller completeOrder (\<lambda>error. Inr (reply 500 ''Failed to create order''))"
  by (intro ext) (simp add: createOrder_def controller_def return_io_eq)

lemma createOrder_ts_controller: "createOrder_ts = controller orderWithItems Inl"
  by (intro ext) (simp add: createOrder_ts_def controller_def throw_io_eq)

lemma controller_invalid:
  assumes "createOrderSchema (body req) \<noteq> []"
  shows "controller read_back outcome req w =
     (Inr \<lparr>status = 400,
           json = \<lparr>message = ''Invalid input'',
                   errors = Some (createOrderSchema (body req)), order_json = None\<rparr>\<rparr>,
      w\<lparr>trace := trace w @ [Query BEGIN, Release], conn := begin_tx (conn w)\<rparr>)"
  using assms
  by (simp add: controller_def createOrder_try_def try_catch_def bind_io_def query_begin_eq
      return_io_def emit_def)

lemma controller_unauthenticated:
  assumes "createOrderSchema (body req) = []" and "user_id req = None \<or> user_id req = Some 0"
  shows "controller read_back outcome req w =
     (Inr (reply 401 ''Authentication required''),
      w\<lparr>trace := trace w @ [Query BEGIN, Release], conn := begin_tx (conn w)\<rparr>)"
  using assms
  by (auto simp: controller_def createOrder_try_def try_catch_def bind_io_def query_begin_eq
      return_io_def emit_def)

lemma controller_stock_failure:
  assumes valid: "createOrderSchema (body req) = []"
    and user: "user_id req = Some userId" "userId \<noteq> 0"
    and cart: "items (body req) = pre @ item # post"
    and pre: "\<forall>i \<in> set pre. in_stock (current (conn w)) i"
    and item: "\<not> in_stock (current (conn w)) item"
  shows "controller read_back outcome req w =
     (case select_product (productId item) (current (conn w)) of
        Inl e \<Rightarrow> outcome e
      | Inr rows \<Rightarrow> Inr (stock_failure (current (conn w)) item),
      w\<lparr>trace := trace w @ [Query BEGIN] @ selects (pre @ [item]) @ [Query ROLLBACK, Release],
        conn := rollback_tx (begin_tx (conn w))\<rparr>)"
proof -
  let ?w1 = "(emit (Query BEGIN) w)\<lparr>conn := begin_tx (conn w)\<rparr>"
  have "stock_loop (pre @ item # post) 0 [] ?w1 =
     (case select_product (productId item) (current (conn ?w1)) of
        Inl e \<Rightarrow> (Inl e, ?w1\<lparr>trace := trace ?w1 @ selects (pre @ [item])\<rparr>)
      | Inr rows \<Rightarrow>
          (Inr (Inl (stock_failure (current (conn ?w1)) item)),
           ?w1\<lparr>trace := trace ?w1 @ selects (pre @ [item]) @ [Query ROLLBACK],
             conn := rollback_tx (conn ?w1)\<rparr>))"
    by (rule stock_loop_fails) (use pre item in simp_all)
  then show ?thesis
    using valid user cart
    by (cases "select_product (productId item) (current (conn w))")
       (simp_all add: controller_def createOrder_try_def place_def try_catch_def bind_io_def
          query_begin_eq query_rollback_eq return_io_def emit_def del: stock_loop.simps)
qed

lemma createOrder_invalid:
  assumes "createOrderSchema (body req) \<noteq> []"
  shows "createOrder req w =
     (Inr \<lparr>status = 400,
           json = \<lparr>message = ''Invalid input'',
                   errors = Some (createOrderSchema (body req)), order_json = None\<rparr>\<rparr>,
      w\<lparr>trace := trace w @ [Query BEGIN, Release], conn := begin_tx (conn w)\<rparr>)"
  unfolding createOrder_controller by (rule controller_invalid [OF assms])

lemma createOrder_unauthenticated:
  assumes "createOrderSchema (body req) = []" and "user_id req = None \<or> user_id req = Some 0"
  shows "createOrder req w =
     (Inr (reply 401 ''Authentication required''),
      w\<lparr>trace := trace w @ [Query BEGIN, Release], conn := begin_tx (conn w)\<rparr>)"
  unfolding createOrder_controller by (rule controller_unauthenticated [OF assms])

lemma createOrder_stock_failure:
  assumes valid: "createOrderSchema (body req) = []"
    and user: "user_id req = Some userId" "userId \<noteq> 0"
    and cart: "items (body req) = pre @ item # post"
    and pre: "\<forall>i \<in> set pre. in_stock (current (conn w)) i"
    and item: "\<not> in_stock (current (conn w)) item"
  shows "createOrder req w =
     (Inr (stock_failure (current (conn w)) item),
      w\<lparr>trace := trace w @ [Query BEGIN] @ selects (pre @ [item]) @ [Query ROLLBACK, Release],
        conn := rollback_tx (begin_tx (conn w))\<rparr>)"
  unfolding createOrder_controller controller_stock_failure [OF assms]
  by (simp add: stock_failure_def split: sum.splits)

section \<open>Properties of the cache service\<close>

lemma redis_call_cases:
  "redis_call cmd f w =
     (if failing (redis w) cmd then (Inl RedisError, emit (Redis cmd) w)
      else (Inr (f (redis w)), (emit (Redis cmd) w)\<lparr>redis := redis_apply cmd (redis w)\<rparr>))"
  by (simp add: redis_call_def Let_def)

lemma cache_get_returns: "\<exists>v w'. cache_get key w = (Inr v, w')"
  by (auto simp: cache_get_def cache_get_try_def try_catch_def bind_io_def return_io_def
      redis_get_def redis_call_cases JSON_parse_def
      split: prod.splits sum.splits option.splits stored.splits)

lemma cache_get_null_on_error:
  "fst (cache_get_try key w) = Inl e \<Longrightarrow> fst (cache_get key w) = Inr None"
  by (cases "cache_get_try key w") (simp add: cache_get_def try_catch_def return_io_def)

lemma cache_get_try_redis_error:
  "failing (redis w) (Get key) \<Longrightarrow> fst (cache_get_try key w) = Inl RedisError"
  by (simp add: cache_get_try_def bind_io_def redis_get_def redis_call_cases)

lemma cache_get_try_parse_error:
  "\<not> failing (redis w) (Get key) \<Longrightarrow>
   map_option snd (map_of (entries (redis w)) key) = Some NotJson \<Longrightarrow>
   fst (cache_get_try key w) = Inl SyntaxError"
  by (auto simp: cache_get_try_def bind_io_def redis_get_def redis_call_cases JSON_parse_def)

lemma cache_set_returns: "\<exists>w'. cache_set key v ttl w = (Inr (), w')"
  by (auto simp: cache_set_def try_catch_def return_io_def redis_setex_def
      redis_call_cases split: prod.splits sum.splits)

lemma cache_del_returns: "\<exists>w'. cache_del key w = (Inr (), w')"
  by (auto simp: cache_del_def try_catch_def return_io_def redis_del_def
      redis_call_cases split: prod.splits sum.splits)

lemma cache_delMultiple_returns: "\<exists>w'. cache_delMultiple ks w = (Inr (), w')"
  by (auto simp: cache_delMultiple_def try_catch_def return_io_def redis_del_def
      redis_call_cases split: prod.splits sum.splits)

lemma cache_delByPattern_returns: "\<exists>w'. cache_delByPattern pat w = (Inr (), w')"
  by (auto simp: cache_delByPattern_def try_catch_def bind_io_def return_io_def redis_del_def
      redis_keys_def redis_call_cases emit_def split: prod.splits sum.splits)

lemma cache_exists_returns: "\<exists>v w'. cache_exists key w = (Inr v, w')"
  by (auto simp: cache_exists_def try_catch_def bind_io_def return_io_def redis_exists_def
      redis_call_cases)

lemma cache_getTTL_returns: "\<exists>v w'. cache_getTTL key w = (Inr v, w')"
  by (simp add: cache_getTTL_def try_catch_def return_io_def redis_ttl_def redis_call_cases)

lemma cache_setTTL_returns: "\<exists>w'. cache_setTTL key ttl w = (Inr (), w')"
  by (simp add: cache_setTTL_def try_catch_def return_io_def redis_expire_def redis_call_cases)

lemma cache_clearAll_returns: "\<exists>w'. cache_clearAll w = (Inr (), w')"
  by (simp add: cache_clearAll_def try_catch_def return_io_def redis_flushall_def
      redis_call_cases)

lemma cache_getStats_returns: "\<exists>v w'. cache_getStats w = (Inr v, w')"
  by (simp add: cache_getStats_def try_catch_def bind_io_def return_io_def redis_info_def
      redis_dbsize_def redis_call_cases)

lemma cache_healthCheck_returns: "\<exists>v w'. cache_healthCheck w = (Inr v, w')"
  by (auto simp: cache_healthCheck_def try_catch_def bind_io_def return_io_def redis_ping_def
      redis_call_cases)

lemma cache_close_returns: "\<exists>w'. cache_close w = (Inr (), w')"
  by (simp add: cache_close_def try_catch_def return_io_def redis_quit_def redis_call_cases)

lemma products_route_outage:
  assumes "\<forall>cmd. failing (redis w) cmd"
  shows "fst (products_route q w) = Inr (listing_answer (fetch_listing q (conn w)))"
  using assms
  by (cases "fetch_listing q (conn w)")
     (simp_all add: products_route_def cache_get_def cache_get_try_def cache_set_def
        try_catch_def bind_io_def return_io_def redis_get_def redis_setex_def redis_call_cases
        emit_def query_listing_def listing_answer_def)

text \<open>
  Claim C10. No operation of the cache service throws, whatever the state of the Redis
  server and whichever of its commands fail: \<open>get\<close>, \<open>set\<close>, \<open>del\<close>, \<open>delMultiple\<close>,
  \<open>delByPattern\<close>, \<open>exists\<close>, \<open>getTTL\<close>, \<open>setTTL\<close>, \<open>clearAll\<close>, \<open>getStats\<close>,
  \<open>healthCheck\<close> and \<open>close\<close> return a value. \<open>get\<close> returns \<open>null\<close> whenever the body of
  its \<open>try\<close> throws, which it does when the command \<open>GET\<close> fails and when the stored text
  is no JSON. And when every Redis command fails, the product listing answers as its
  queries on the store decide: with the page they give, or with 500 if the store refuses
  them (for a page whose offset is a safe integer, see the section of the listing).
\<close>

theorem cache_service_never_throws:
  "(\<exists>v w'. cache_get key w = (Inr v, w')) \<and>
   (\<forall>e. fst (cache_get_try key w) = Inl e \<longrightarrow> fst (cache_get key w) = Inr None) \<and>
   (failing (redis w) (Get key) \<longrightarrow> fst (cache_get_try key w) = Inl RedisError) \<and>
   (\<not> failing (redis w) (Get key) \<and>
    map_option snd (map_of (entries (redis w)) key) = Some NotJson \<longrightarrow>
      fst (cache_get_try key w) = Inl SyntaxError) \<and>
   (\<exists>w'. cache_set key v ttl w = (Inr (), w')) \<and>
   (\<exists>w'. cache_del key w = (Inr (), w')) \<and>
   (\<exists>w'. cache_delMultiple ks w = (Inr (), w')) \<and>
   (\<exists>w'. cache_delByPattern pat w = (Inr (), w')) \<and>
   (\<exists>v w'. cache_exists key w = (Inr v, w')) \<and>
   (\<exists>v w'. cache_getTTL key w = (Inr v, w')) \<and>
   (\<exists>w'. cache_setTTL key ttl w = (Inr (), w')) \<and>
   (\<exists>w'. cache_clearAll w = (Inr (), w')) \<and>
   (\<exists>v w'. cache_getStats w = (Inr v, w')) \<and>
   (\<exists>v w'. cache_healthCheck w = (Inr v, w')) \<and>
   (\<exists>w'. cache_close w = (Inr (), w')) \<and>
   ((\<forall>cmd. failing (redis w) cmd) \<and> safe_integer ((page_of q - 1) * limit_of q) \<longrightarrow>
      fst (products_route q w) = Inr (listing_answer (fetch_listing q (conn w))))"
proof -
  have get: "\<forall>e. fst (cache_get_try key w) = Inl e \<longrightarrow> fst (cache_get key w) = Inr None"
    by (blast intro: cache_get_null_on_error)
  have parse: "\<not> failing (redis w) (Get key) \<and>
    map_option snd (map_of (entries (redis w)) key) = Some NotJson \<longrightarrow>
      fst (cache_get_try key w) = Inl SyntaxError"
    by (blast intro: cache_get_try_parse_error)
  have outage: "(\<forall>cmd. failing (redis w) cmd) \<and> safe_integer ((page_of q - 1) * limit_of q) \<longrightarrow>
      fst (products_route q w) = Inr (listing_answer (fetch_listing q (conn w)))"
    by (blast intro: products_route_outage)
  show ?thesis
    by (intro conjI get parse outage impI cache_get_returns cache_get_try_redis_error
        cache_set_returns cache_del_returns cache_delMultiple_returns
        cache_delByPattern_returns cache_exists_returns cache_getTTL_returns
        cache_setTTL_returns cache_clearAll_returns cache_getStats_returns
        cache_healthCheck_returns cache_close_returns)
qed

theorem cache_service_never_throws_witness:
  "failing (redis (shop_world\<lparr>redis := redis_down\<rparr>)) (Get ''products:1:12:all:none'') \<and>
   fst (cache_get_try ''products:1:12:all:none'' (shop_world\<lparr>redis := redis_down\<rparr>)) =
     Inl RedisError \<and>
   fst (cache_get ''products:1:12:all:none'' (shop_world\<lparr>redis := redis_down\<rparr>)) = Inr None \<and>
   \<not> failing (redis (shop_world\<lparr>redis := redis_up\<lparr>entries := [(''k'', 60, NotJson)]\<rparr>\<rparr>)) (Get ''k'') \<and>
   map_option snd (map_of
     (entries (redis (shop_world\<lparr>redis := redis_up\<lparr>entries := [(''k'', 60, NotJson)]\<rparr>\<rparr>))) ''k'') =
     Some NotJson \<and>
   fst (cache_get_try ''k'' (shop_world\<lparr>redis := redis_up\<lparr>entries := [(''k'', 60, NotJson)]\<rparr>\<rparr>)) =
     Inl SyntaxError \<and>
   fst (cache_get ''k'' (shop_world\<lparr>redis := redis_up\<lparr>entries := [(''k'', 60, NotJson)]\<rparr>\<rparr>)) =
     Inr None \<and>
   (\<forall>cmd. failing (redis (shop_world\<lparr>redis := redis_down\<rparr>)) cmd) \<and>
   safe_integer ((page_of first_page - 1) * limit_of first_page) \<and>
   fst (products_route first_page (shop_world\<lparr>redis := redis_down\<rparr>)) =
     Inr (Page \<lparr>l_items = [shirt, mug], l_page = 1, l_limit = 12, l_total = 2\<rparr>)"
proof -
  let ?down = "shop_world\<lparr>redis := redis_down\<rparr>"
  let ?bad = "shop_world\<lparr>redis := redis_up\<lparr>entries := [(''k'', 60, NotJson)]\<rparr>\<rparr>"
  have down: "\<forall>cmd. failing (redis ?down) cmd"
    by (simp add: redis_down_def)
  have up: "\<not> failing (redis ?bad) (Get ''k'')"
    "map_option snd (map_of (entries (redis ?bad)) ''k'') = Some NotJson"
    by (simp_all add: redis_up_def)
  have safe: "safe_integer ((page_of first_page - 1) * limit_of first_page)"
    by (simp add: safe_integer_def page_of_def limit_of_def first_page_def)
  have page: "listing_answer (fetch_listing first_page (conn ?down)) =
      Page \<lparr>l_items = [shirt, mug], l_page = 1, l_limit = 12, l_total = 2\<rparr>"
    by code_simp
  note t1 = cache_service_never_throws [of "''products:1:12:all:none''" ?down _ _ _ _ first_page]
  note t2 = cache_service_never_throws [of "''k''" ?bad]
  from t1 down have a: "fst (cache_get_try ''products:1:12:all:none'' ?down) = Inl RedisError"
    by blast
  with t1 have b: "fst (cache_get ''products:1:12:all:none'' ?down) = Inr None"
    by blast
  from t2 up have c: "fst (cache_get_try ''k'' ?bad) = Inl SyntaxError"
    by blast
  with t2 have d: "fst (cache_get ''k'' ?bad) = Inr None"
    by blast
  from t1 down safe have "fst (products_route first_page ?down) =
      Inr (listing_answer (fetch_listing first_page (conn ?down)))"
    by blast
  with page have e: "fst (products_route first_page ?down) =
      Inr (Page \<lparr>l_items = [shirt, mug], l_page = 1, l_limit = 12, l_total = 2\<rparr>)"
    by simp
  from down up safe a b c d e show ?thesis by blast
qed

section \<open>Properties of the order placement: rejected requests\<close>

lemma new_events_eq: "trace w' = trace w @ evs \<Longrightarrow> new_events w w' = evs"
  by (simp add: new_events_def)

lemma string_of_nat_digit: "n < 10 \<Longrightarrow> string_of_nat n = [digit_char n]"
  by (simp add: string_of_nat.simps)

lemma shop_facts:
  "current (conn shop_world) = shop"
  "select_product 1 shop = Inr [mug]"
  "select_product 2 shop = Inr [shirt]"
  "select_product 3 shop = Inr []"
  "select_product 2147483648 shop = Inl (DbError ''out of range for type integer'')"
  by (simp_all add: shop_world_def current_def select_product_def int4_def shop_def mug_def
      shirt_def)

lemma order_request_simps [simp]:
  "items (body (order_request its)) = its"
  "user_id (order_request its) = Some 7"
  "shippingAddress (body (order_request its)) = ''123 Test Street''"
  by (simp_all add: order_request_def)

lemma cart_line_simps [simp]:
  "productId (cart_line p q) = p" "quantity (cart_line p q) = q"
  by (simp_all add: cart_line_def)

text \<open>
  Claim C2. When a valid, authenticated request has a line that fails the check of the
  first loop (the product is missing, its stock is below the quantity, or the \<open>SELECT\<close> of
  the product is refused) and all lines before it pass, then the compiled \<open>createOrder\<close>
  answers with the failure of that line (404, 400 or 500; the text of the answer is the one
  given here when the quantity is a safe integer and the stocks are \<open>INTEGER\<close>s), the
  committed store is what it was before the call (every stock, no order, no order line),
  the transaction is closed, no id was drawn from a sequence, and the only statements
  issued are \<open>BEGIN\<close>, the reads of the products up to that line, and \<open>ROLLBACK\<close>. An
  instance is the cart \<open>[(A, 2), (B, 1)]\<close> with no stock of \<open>B\<close>.
\<close>

theorem failed_line_leaves_store_untouched:
  assumes "createOrderSchema (body req) = []"
    and "user_id req = Some userId" and "userId \<noteq> 0"
    and "items (body req) = pre @ item # post"
    and "\<forall>i \<in> set pre. in_stock (current (conn w)) i"
    and "\<not> in_stock (current (conn w)) item"
  shows "(\<exists>resp. fst (createOrder req w) = Inr resp \<and>
            status resp = status (stock_failure (current (conn w)) item) \<and>
            (safe_integer (quantity item) \<and> integer_stocks (current (conn w)) \<longrightarrow>
               resp = stock_failure (current (conn w)) item)) \<and>
         committed (conn (snd (createOrder req w))) = committed (conn w) \<and>
         working (conn (snd (createOrder req w))) = None \<and>
         orders_id_seq (conn (snd (createOrder req w))) = orders_id_seq (conn w) \<and>
         order_items_id_seq (conn (snd (createOrder req w))) = order_items_id_seq (conn w) \<and>
         new_events w (snd (createOrder req w)) =
           [Query BEGIN] @ selects (pre @ [item]) @ [Query ROLLBACK, Release]"
  using createOrder_stock_failure [OF assms] by (simp add: new_events_eq)

theorem failed_line_leaves_store_untouched_witness:
  "createOrderSchema (body (order_request [cart_line 1 2, cart_line 2 1])) = [] \<and>
   in_stock (current (conn shop_world)) (cart_line 1 2) \<and>
   \<not> in_stock (current (conn shop_world)) (cart_line 2 1) \<and>
   safe_integer (quantity (cart_line 2 1)) \<and> integer_stocks (current (conn shop_world)) \<and>
   fst (createOrder (order_request [cart_line 1 2, cart_line 2 1]) shop_world) =
     Inr (reply 400 ''Insufficient stock for Shirt. Available: 0, Requested: 1'') \<and>
   committed (conn (snd (createOrder (order_request [cart_line 1 2, cart_line 2 1]) shop_world)))
     = shop \<and>
   working (conn (snd (createOrder (order_request [cart_line 1 2, cart_line 2 1]) shop_world)))
     = None \<and>
   orders shop = [] \<and> order_items shop = [] \<and>
   map p_stock_quantity (products shop) = [5, 0] \<and>
   createOrderSchema (body (order_request [cart_line 2147483648 1])) = [] \<and>
   \<not> in_stock (current (conn shop_world)) (cart_line 2147483648 1) \<and>
   status (projr (fst (createOrder (order_request [cart_line 2147483648 1]) shop_world))) = 500 \<and>
   committed (conn (snd (createOrder (order_request [cart_line 2147483648 1]) shop_world)))
     = shop"
proof -
  let ?req = "order_request [cart_line 1 2, cart_line 2 1]"
  let ?far = "order_request [cart_line 2147483648 1]"
  have valid: "createOrderSchema (body ?req) = []" "createOrderSchema (body ?far) = []"
    by (simp_all add: createOrderSchema_accepts)
  have a: "in_stock (current (conn shop_world)) (cart_line 1 2)"
    by (simp add: in_stock_def shop_facts) (simp add: mug_def)
  have b: "\<not> in_stock (current (conn shop_world)) (cart_line 2 1)"
    by (simp add: in_stock_def shop_facts) (simp add: shirt_def)
  have c: "\<not> in_stock (current (conn shop_world)) (cart_line 2147483648 1)"
    by (simp add: in_stock_def shop_facts)
  have safe: "safe_integer (quantity (cart_line 2 1))" "integer_stocks (current (conn shop_world))"
    by (simp_all add: safe_integer_def integer_stocks_def shop_facts int4_def)
       (simp add: shop_def mug_def shirt_def)
  have msg: "stock_failure (current (conn shop_world)) (cart_line 2 1) =
      reply 400 ''Insufficient stock for Shirt. Available: 0, Requested: 1''"
    by (simp add: stock_failure_def shop_facts insufficient_message_def string_of_int_def
        string_of_nat_digit digit_char_def reply_def shirt_def)
  have far: "status (stock_failure (current (conn shop_world)) (cart_line 2147483648 1)) = 500"
    by (simp add: stock_failure_def shop_facts reply_def)
  note t = failed_line_leaves_store_untouched
      [of ?req 7 "[cart_line 1 2]" "cart_line 2 1" "[]" shop_world]
  note u = failed_line_leaves_store_untouched
      [of ?far 7 "[]" "cart_line 2147483648 1" "[]" shop_world]
  have "fst (createOrder ?req shop_world) =
          Inr (stock_failure (current (conn shop_world)) (cart_line 2 1)) \<and>
        committed (conn (snd (createOrder ?req shop_world))) = committed (conn shop_world) \<and>
        working (conn (snd (createOrder ?req shop_world))) = None"
    using t valid a b safe by auto
  moreover have "status (projr (fst (createOrder ?far shop_world))) = 500 \<and>
        committed (conn (snd (createOrder ?far shop_world))) = committed (conn shop_world)"
    using u valid c far by auto
  ultimately show ?thesis
    using valid a b c safe msg
    by (simp add: shop_world_def) (simp add: shop_def mug_def shirt_def)
qed

text \<open>
  Claim C9, as amended. When a valid, authenticated request has a first failing line
  whose product exists with less stock than the quantity asked for, \<open>createOrder\<close> issues
  \<open>ROLLBACK\<close> and answers 400 with a message that gives the name of the product (not
  its id), the available quantity and the requested quantity. The digits of the message
  are the ones given here when the quantity is a safe integer and the stock an \<open>INTEGER\<close>
  (see the section on numbers in template strings).
\<close>

theorem insufficient_stock_reported:
  assumes "createOrderSchema (body req) = []"
    and "user_id req = Some userId" and "userId \<noteq> 0"
    and "items (body req) = pre @ item # post"
    and "\<forall>i \<in> set pre. in_stock (current (conn w)) i"
    and "select_product (productId item) (current (conn w)) = Inr (product # others)"
    and "p_stock_quantity product < quantity item"
    and "safe_integer (quantity item)" and "int4 (p_stock_quantity product)"
  shows "fst (createOrder req w) =
           Inr (reply 400 (''Insufficient stock for '' @ p_name product @
                  ''. Available: '' @ string_of_int (p_stock_quantity product) @
                  '', Requested: '' @ string_of_int (quantity item))) \<and>
         Query ROLLBACK \<in> set (new_events w (snd (createOrder req w))) \<and>
         working (conn (snd (createOrder req w))) = None \<and>
         committed (conn (snd (createOrder req w))) = committed (conn w)"
proof -
  have "\<not> in_stock (current (conn w)) item"
    using assms(6,7) by (simp add: in_stock_def)
  from createOrder_stock_failure [OF assms(1-5) this] assms(6)
  show ?thesis
    by (simp add: new_events_eq stock_failure_def insufficient_message_def)
qed

theorem insufficient_stock_reported_witness:
  "createOrderSchema (body (order_request [cart_line 1 2, cart_line 2 1])) = [] \<and>
   in_stock (current (conn shop_world)) (cart_line 1 2) \<and>
   select_product 2 (current (conn shop_world)) = Inr [shirt] \<and>
   p_stock_quantity shirt < 1 \<and> safe_integer 1 \<and> int4 (p_stock_quantity shirt) \<and>
   fst (createOrder (order_request [cart_line 1 2, cart_line 2 1]) shop_world) =
     Inr (reply 400 ''Insufficient stock for Shirt. Available: 0, Requested: 1'') \<and>
   Query ROLLBACK \<in> set (new_events shop_world
     (snd (createOrder (order_request [cart_line 1 2, cart_line 2 1]) shop_world)))"
proof -
  let ?req = "order_request [cart_line 1 2, cart_line 2 1]"
  have valid: "createOrderSchema (body ?req) = []"
    by (simp add: createOrderSchema_accepts)
  have a: "in_stock (current (conn shop_world)) (cart_line 1 2)"
    by (simp add: in_stock_def shop_facts) (simp add: mug_def)
  have b: "select_product 2 (current (conn shop_world)) = Inr [shirt]"
    by (simp add: shop_facts)
  have c: "p_stock_quantity shirt < 1" "safe_integer 1" "int4 (p_stock_quantity shirt)"
    by (simp_all add: shirt_def safe_integer_def int4_def)
  have "fst (createOrder ?req shop_world) =
           Inr (reply 400 (''Insufficient stock for '' @ p_name shirt @
                  ''. Available: '' @ string_of_int (p_stock_quantity shirt) @
                  '', Requested: '' @ string_of_int 1)) \<and>
        Query ROLLBACK \<in> set (new_events shop_world (snd (createOrder ?req shop_world)))"
    using insufficient_stock_reported
      [of ?req 7 "[cart_line 1 2]" "cart_line 2 1" "[]" shop_world shirt "[]"] valid a b c
    by simp
  then show ?thesis
    using valid a b c
    by (simp add: string_of_int_def string_of_nat_digit digit_char_def shirt_def)
qed

text \<open>
  The claim as stated fails: two shops that differ in the id of the product out of stock
  give the same answer for that product, so the answer does not tell the id.
\<close>

theorem insufficient_stock_omits_id_counterexample:
  "fst (createOrder (order_request [cart_line 2 1]) (shirt_shop 2)) =
     Inr (reply 400 ''Insufficient stock for Shirt. Available: 0, Requested: 1'') \<and>
   fst (createOrder (order_request [cart_line 3 1]) (shirt_shop 3)) =
     Inr (reply 400 ''Insufficient stock for Shirt. Available: 0, Requested: 1'')"
proof -
  have v: "createOrderSchema (body (order_request [cart_line n 1])) = []" if "0 < n" for n
    using that by (simp add: createOrderSchema_accepts)
  have f: "\<not> in_stock (current (conn (shirt_shop n))) (cart_line n 1)" if "n \<noteq> 1" for n
    using that
    by (simp add: in_stock_def shirt_shop_def shop_world_def current_def select_product_def
        mug_def shirt_def)
  have m: "stock_failure (current (conn (shirt_shop n))) (cart_line n 1) =
      reply 400 ''Insufficient stock for Shirt. Available: 0, Requested: 1''"
    if "n \<noteq> 1" "int4 n" for n
    using that
    by (simp add: stock_failure_def shirt_shop_def shop_world_def current_def
        select_product_def mug_def shirt_def insufficient_message_def string_of_int_def
        string_of_nat_digit digit_char_def)
  have "fst (createOrder (order_request [cart_line n 1]) (shirt_shop n)) =
      Inr (reply 400 ''Insufficient stock for Shirt. Available: 0, Requested: 1'')"
    if "0 < n" "n \<noteq> 1" "int4 n" for n
    using createOrder_stock_failure
      [of "order_request [cart_line n 1]" 7 "[]" "cart_line n 1" "[]" "shirt_shop n"]
      v [OF that(1)] f [OF that(2)] m [OF that(2,3)]
    by simp
  from this [of 2] this [of 3] show ?thesis by (simp add: int4_def)
qed

text \<open>
  Claim C4, as amended. A request with an empty list of items, a quantity or product id
  that is not positive, or a shipping address shorter than 10 characters is answered
  with 400 \<open>Invalid input\<close> and the issues of the schema. The transaction has been
  opened by then: \<open>BEGIN\<close> is the first statement of the call. No product is read and no
  row is written, and the committed store is unchanged.
\<close>

theorem invalid_input_rejected_after_begin:
  assumes "items (body req) = [] \<or>
           (\<exists>item \<in> set (items (body req)). quantity item \<le> 0 \<or> productId item \<le> 0) \<or>
           length (shippingAddress (body req)) < 10"
  shows "fst (createOrder req w) =
           Inr \<lparr>status = 400,
                json = \<lparr>message = ''Invalid input'',
                        errors = Some (createOrderSchema (body req)),
                        order_json = None\<rparr>\<rparr> \<and>
         createOrderSchema (body req) \<noteq> [] \<and>
         (\<exists>evs. new_events w (snd (createOrder req w)) = Query BEGIN # evs \<and>
                (\<forall>ev \<in> set evs. ev = Query ROLLBACK \<or> ev = Release)) \<and>
         committed (conn (snd (createOrder req w))) = committed (conn w)"
proof -
  have "createOrderSchema (body req) \<noteq> []"
    using assms by (fastforce simp: createOrderSchema_accepts)
  from createOrder_invalid [OF this] this show ?thesis
    by (simp add: new_events_eq)
qed

theorem invalid_input_rejected_after_begin_witness:
  "items (body (order_request [])) = [] \<and>
   fst (createOrder (order_request []) shop_world) =
     Inr \<lparr>status = 400,
          json = \<lparr>message = ''Invalid input'', errors = Some [Items_min],
                  order_json = None\<rparr>\<rparr> \<and>
   committed (conn (snd (createOrder (order_request []) shop_world))) = shop"
  using invalid_input_rejected_after_begin [of "order_request []" shop_world]
  by (simp add: createOrderSchema_def) (simp add: shop_world_def)

text \<open>
  The claim as stated fails: a cart with the quantity 0 is rejected after \<open>BEGIN\<close> was
  issued.
\<close>

theorem validation_follows_begin_counterexample:
  "fst (createOrder (order_request [cart_line 1 0]) shop_world) =
     Inr \<lparr>status = 400,
          json = \<lparr>message = ''Invalid input'', errors = Some [Quantity_positive 0],
                  order_json = None\<rparr>\<rparr> \<and>
   trace shop_world = [] \<and>
   trace (snd (createOrder (order_request [cart_line 1 0]) shop_world)) =
     [Query BEGIN, Release]"
proof -
  have "createOrderSchema (body (order_request [cart_line 1 0])) = [Quantity_positive 0]"
    by (simp add: createOrderSchema_def)
  then show ?thesis
    using createOrder_invalid [of "order_request [cart_line 1 0]" shop_world]
    by (simp add: shop_world_def)
qed

text \<open>
  Claim C3. The claim fails on the code at a request that is rejected by the schema and at
  one without an authenticated user: both are answered (400, 401) after \<open>BEGIN\<close> and
  without \<open>ROLLBACK\<close>, and the client is released with its transaction open.
\<close>

theorem rejection_without_rollback:
  "fst (createOrder (order_request []) shop_world) =
     Inr \<lparr>status = 400,
          json = \<lparr>message = ''Invalid input'', errors = Some [Items_min],
                  order_json = None\<rparr>\<rparr> \<and>
   trace (snd (createOrder (order_request []) shop_world)) = [Query BEGIN, Release] \<and>
   working (conn (snd (createOrder (order_request []) shop_world))) = Some shop \<and>
   fst (createOrder ((order_request [cart_line 1 1])\<lparr>user_id := None\<rparr>) shop_world) =
     Inr (reply 401 ''Authentication required'') \<and>
   trace (snd (createOrder ((order_request [cart_line 1 1])\<lparr>user_id := None\<rparr>) shop_world)) =
     [Query BEGIN, Release] \<and>
   working (conn (snd (createOrder ((order_request [cart_line 1 1])\<lparr>user_id := None\<rparr>)
     shop_world))) = Some shop"
proof -
  have a: "createOrderSchema (body (order_request [])) = [Items_min]"
    by (simp add: createOrderSchema_def)
  have b: "createOrderSchema (body ((order_request [cart_line 1 1])\<lparr>user_id := None\<rparr>)) = []"
    by (simp add: createOrderSchema_accepts)
  have c: "current (conn shop_world) = shop" "trace shop_world = []"
    by (simp_all add: shop_world_def current_def)
  show ?thesis
    using createOrder_invalid [of "order_request []" shop_world] a
      createOrder_unauthenticated [OF b, of shop_world] c
    by simp
qed

section \<open>Properties of the order placement: the steps of a placed order\<close>

lemma refused_eq: "refused q w = (Inl (DbError ''out of range''), emit (Query q) w)"
  by (simp add: refused_def client_query_cases)

lemma query_insert_order_item_InrD:
  assumes "query_insert_order_item oid pid up qty w = (Inr u, w')"
  shows "insert_order_item (order_items_id_seq (conn w)) oid pid up qty (current (conn w))
           = Inr (current (conn w'))"
    and "(working (conn w') = None) = (working (conn w) = None)"
    and "working (conn w) = Some x \<Longrightarrow> committed (conn w') = committed (conn w)"
    and "orders_id_seq (conn w') = orders_id_seq (conn w)"
    and "order_items_id_seq (conn w') = order_items_id_seq (conn w) + 1"
    and "redis w' = redis w"
    and "trace w' = trace w @ [Query (InsertOrderItem oid pid up qty)]"
    and "row_order (conn w') = row_order (conn w)"
  using assms
  by (auto simp: query_insert_order_item_def refused_eq client_query_cases current_def store_def
      split: sum.splits option.splits if_splits)

lemma query_update_stock_InrD:
  assumes "query_update_stock qty pid w = (Inr u, w')"
  shows "update_stock qty pid (current (conn w)) = Inr (current (conn w'))"
    and "(working (conn w') = None) = (working (conn w) = None)"
    and "working (conn w) = Some x \<Longrightarrow> committed (conn w') = committed (conn w)"
    and "orders_id_seq (conn w') = orders_id_seq (conn w)"
    and "order_items_id_seq (conn w') = order_items_id_seq (conn w)"
    and "redis w' = redis w"
    and "trace w' = trace w @ [Query (UpdateStock qty pid)]"
    and "row_order (conn w') = row_order (conn w)"
  using assms
  by (auto simp: query_update_stock_def refused_eq client_query_cases current_def store_def
      split: sum.splits option.splits if_splits)

lemma write_loop_InrD:
  assumes "write_loop oid its w = (Inr u, w')"
  shows "write_lines (order_items_id_seq (conn w)) oid its (current (conn w))
           = Inr (current (conn w')) \<and>
         ((working (conn w') = None) = (working (conn w) = None)) \<and>
         (\<forall>x. working (conn w) = Some x \<longrightarrow> committed (conn w') = committed (conn w)) \<and>
         orders_id_seq (conn w') = orders_id_seq (conn w) \<and>
         row_order (conn w') = row_order (conn w)"
  using assms
proof (induction its arbitrary: w)
  case Nil
  then show ?case by (simp add: return_io_def)
next
  case (Cons item rest)
  from Cons.prems obtain u1 w1 u2 w2 where
    ins: "query_insert_order_item oid (productId item) (unitPrice item) (quantity item) w
            = (Inr u1, w1)"
    and upd: "query_update_stock (quantity item) (productId item) w1 = (Inr u2, w2)"
    and rest: "write_loop oid rest w2 = (Inr u, w')"
    by (auto elim!: bind_io_InrE)
  note i = query_insert_order_item_InrD [OF ins]
  note u = query_update_stock_InrD [OF upd]
  note r = Cons.IH [OF rest]
  have "write_lines (order_items_id_seq (conn w)) oid (item # rest) (current (conn w))
          = Inr (current (conn w'))"
    using i(1,5) u(1,5) r by simp
  moreover have "(working (conn w') = None) = (working (conn w) = None)"
    using i(2) u(2) r by simp
  moreover have "\<forall>x. working (conn w) = Some x \<longrightarrow> committed (conn w') = committed (conn w)"
    using i(2,3) u(2,3) r by (metis option.exhaust)
  moreover have "orders_id_seq (conn w') = orders_id_seq (conn w)"
    using i(4) u(4) r by simp
  moreover have "row_order (conn w') = row_order (conn w)"
    using i(8) u(8) r by simp
  ultimately show ?case by blast
qed

lemma query_insert_order_InrD:
  assumes "query_insert_order uid t st addr w = (Inr row, w')"
  shows "row = \<lparr>o_id = orders_id_seq (conn w), o_user_id = uid, o_total_amount = t,
                 o_status = st, o_shipping_address = addr\<rparr>"
    and "current (conn w') = (current (conn w))\<lparr>orders := orders (current (conn w)) @ [row]\<rparr>"
    and "(working (conn w') = None) = (working (conn w) = None)"
    and "working (conn w) = Some x \<Longrightarrow> committed (conn w') = committed (conn w)"
    and "order_items_id_seq (conn w') = order_items_id_seq (conn w)"
    and "redis w' = redis w"
    and "trace w' = trace w @ [Query (InsertOrder uid t st addr)]"
    and "row_order (conn w') = row_order (conn w)"
    and "orders_id_seq (conn w') = orders_id_seq (conn w) + 1"
  using assms
  by (auto simp: query_insert_order_def refused_eq client_query_cases insert_order_def Let_def
      current_def store_def split: sum.splits option.splits if_splits)

lemma status_stock_failure: "status (stock_failure d item) \<noteq> 201"
  by (simp add: stock_failure_def reply_def split: sum.splits list.splits)

lemma first_failing:
  assumes "\<not> (\<forall>x \<in> set xs. P x)"
  obtains pre x post where "xs = pre @ x # post" "\<forall>y \<in> set pre. P y" "\<not> P x"
proof -
  from assms have "\<exists>x \<in> set xs. \<not> P x" by simp
  from split_list_first_prop [OF this] that show thesis by auto
qed


lemma redis_keys_eq:
  "redis_keys pat w =
     (if failing (redis w) (Keys pat) then (Inl RedisError, emit (Redis (Keys pat)) w)
      else (Inr (filter (glob_match pat) (remdups (map fst (entries (redis w))))),
            emit (Redis (Keys pat)) w))"
  by (simp add: redis_keys_def redis_call_cases redis_apply_def emit_def)

lemma redis_del_eq:
  "redis_del ks w =
     (if failing (redis w) (Del ks) then (Inl RedisError, emit (Redis (Del ks)) w)
      else (Inr (), (emit (Redis (Del ks)) w)
              \<lparr>redis := (redis w)\<lparr>entries := filter (\<lambda>e. fst e \<notin> set ks) (entries (redis w))\<rparr>\<rparr>))"
  by (simp add: redis_del_def redis_call_cases redis_apply_def)

lemma cache_delByPattern_eq:
  "cache_delByPattern pat w =
     (let w1 = emit (Redis (Keys pat)) w;
          ks = filter (glob_match pat) (remdups (map fst (entries (redis w))))
      in if failing (redis w) (Keys pat) \<or> ks = [] then (Inr (), w1)
         else if failing (redis w) (Del ks) then (Inr (), emit (Redis (Del ks)) w1)
         else (Inr (), (emit (Redis (Del ks)) w1)
                \<lparr>redis := (redis w)\<lparr>entries := filter (\<lambda>e. fst e \<notin> set ks) (entries (redis w))\<rparr>\<rparr>))"
  by (simp add: cache_delByPattern_def try_catch_def bind_io_def return_io_def redis_keys_eq
      redis_del_eq Let_def)


lemma matching_keys_deleted:
  "filter (\<lambda>e. fst e \<notin> set (filter (glob_match pat) (remdups (map fst es)))) es =
   filter (\<lambda>e. \<not> glob_match pat (fst e)) es"
  by (rule filter_cong) auto

lemma no_matching_keys:
  assumes "filter (glob_match pat) (remdups (map fst es)) = []"
  shows "filter (\<lambda>e. \<not> glob_match pat (fst e)) es = es"
proof -
  have "filter (\<lambda>e. fst e \<notin> set (filter (glob_match pat) (remdups (map fst es)))) es = es"
    unfolding assms by simp
  then show ?thesis by (simp only: matching_keys_deleted)
qed

lemma invalidateProductCache_effect:
  "\<exists>w'. invalidateProductCache w = (Inr (), w') \<and> conn w' = conn w \<and>
        failing (redis w') = failing (redis w) \<and>
        (\<exists>evs. trace w' = trace w @ evs \<and> (\<forall>ev \<in> set evs. \<exists>cmd. ev = Redis cmd)) \<and>
        (\<not> failing (redis w) (Keys ''products:*'') \<and> (\<forall>ks. \<not> failing (redis w) (Del ks)) \<longrightarrow>
           entries (redis w') =
             filter (\<lambda>e. \<not> glob_match ''products:*'' (fst e)) (entries (redis w)))"
proof -
  let ?pat = "''products:*''"
  let ?ks = "filter (glob_match ?pat) (remdups (map fst (entries (redis w))))"
  let ?w1 = "emit (Redis (Keys ?pat)) w"
  consider (skip) "failing (redis w) (Keys ?pat) \<or> ?ks = []"
    | (fail) "\<not> failing (redis w) (Keys ?pat)" "?ks \<noteq> []" "failing (redis w) (Del ?ks)"
    | (del) "\<not> failing (redis w) (Keys ?pat)" "?ks \<noteq> []" "\<not> failing (redis w) (Del ?ks)"
    by blast
  then show ?thesis
  proof cases
    case skip
    then have eq: "invalidateProductCache w = (Inr (), ?w1)"
      by (simp only: invalidateProductCache_def try_catch_def cache_delByPattern_eq Let_def)
         simp
    have "trace ?w1 = trace w @ [Redis (Keys ?pat)]" by simp
    moreover have "\<not> failing (redis w) (Keys ?pat) \<longrightarrow>
        entries (redis ?w1) = filter (\<lambda>e. \<not> glob_match ?pat (fst e)) (entries (redis w))"
      using skip no_matching_keys [of ?pat "entries (redis w)"] by (auto simp del: glob_match.simps)
    ultimately show ?thesis using eq by (simp del: glob_match.simps)
  next
    case fail
    then have eq: "invalidateProductCache w = (Inr (), emit (Redis (Del ?ks)) ?w1)"
      by (simp only: invalidateProductCache_def try_catch_def cache_delByPattern_eq Let_def)
         simp
    have "trace (emit (Redis (Del ?ks)) ?w1) = trace w @ [Redis (Keys ?pat), Redis (Del ?ks)]"
      by simp
    then show ?thesis using eq fail(3) by (auto simp del: glob_match.simps)
  next
    case del
    let ?w2 = "(emit (Redis (Del ?ks)) ?w1)
        \<lparr>redis := (redis w)\<lparr>entries := filter (\<lambda>e. fst e \<notin> set ?ks) (entries (redis w))\<rparr>\<rparr>"
    from del have eq: "invalidateProductCache w = (Inr (), ?w2)"
      by (simp only: invalidateProductCache_def try_catch_def cache_delByPattern_eq Let_def)
         simp
    have "trace ?w2 = trace w @ [Redis (Keys ?pat), Redis (Del ?ks)]"
      by simp
    moreover have "entries (redis ?w2) =
        filter (\<lambda>e. \<not> glob_match ?pat (fst e)) (entries (redis w))"
      by (subst matching_keys_deleted [symmetric]) simp
    ultimately show ?thesis using eq by (simp del: glob_match.simps)
  qed
qed

lemma no_commit_return: "no_commit (return_io a)"
  unfolding no_commit_def
proof (intro allI conjI)
  fix w :: world
  show "redis (snd (return_io a w)) = redis w" by (simp add: return_io_def)
  have "trace (snd (return_io a w)) = trace w @ map Query []" by (simp add: return_io_def)
  then show "\<exists>qs. trace (snd (return_io a w)) = trace w @ map Query qs \<and> COMMIT \<notin> set qs"
    by (intro exI [of _ "[]"]) simp
qed

lemma no_commitD:
  assumes "no_commit m" and "m w = (r, w')"
  obtains qs where "redis w' = redis w" "trace w' = trace w @ map Query qs" "COMMIT \<notin> set qs"
  using assms unfolding no_commit_def by (metis snd_conv)

lemma no_commit_bind:
  assumes "no_commit m" and "\<And>a. no_commit (f a)"
  shows "no_commit (bind_io m f)"
  unfolding no_commit_def
proof (intro allI)
  fix w
  obtain r w1 where m: "m w = (r, w1)" by (cases "m w")
  from no_commitD [OF assms(1) m] obtain qs1 where
    e1: "redis w1 = redis w" "trace w1 = trace w @ map Query qs1" "COMMIT \<notin> set qs1"
    by blast
  show "redis (snd (bind_io m f w)) = redis w \<and>
    (\<exists>qs. trace (snd (bind_io m f w)) = trace w @ map Query qs \<and> COMMIT \<notin> set qs)"
  proof (cases r)
    case (Inl e)
    with m e1 show ?thesis by (auto simp: bind_io_def)
  next
    case (Inr a)
    obtain r2 w2 where f: "f a w1 = (r2, w2)" by (cases "f a w1")
    from no_commitD [OF assms(2) f] obtain qs2 where
      e2: "redis w2 = redis w1" "trace w2 = trace w1 @ map Query qs2" "COMMIT \<notin> set qs2"
      by blast
    have "trace (snd (bind_io m f w)) = trace w @ map Query (qs1 @ qs2)"
      using Inr m f e1 e2 by (simp add: bind_io_def)
    moreover have "COMMIT \<notin> set (qs1 @ qs2)"
      using e1 e2 by simp
    moreover have "redis (snd (bind_io m f w)) = redis w"
      using Inr m f e1 e2 by (simp add: bind_io_def)
    ultimately show ?thesis by blast
  qed
qed

lemma no_commit_single:
  assumes "\<And>w. redis (snd (m w)) = redis w" and "\<And>w. trace (snd (m w)) = trace w @ [Query q]"
    and "q \<noteq> COMMIT"
  shows "no_commit m"
  unfolding no_commit_def
proof (intro allI conjI)
  fix w
  show "redis (snd (m w)) = redis w" by (rule assms(1))
  have "trace (snd (m w)) = trace w @ map Query [q]" using assms(2) by simp
  with assms(3) show "\<exists>qs. trace (snd (m w)) = trace w @ map Query qs \<and> COMMIT \<notin> set qs"
    by (intro exI [of _ "[q]"]) simp
qed

lemma no_commit_client_query: "q \<noteq> COMMIT \<Longrightarrow> no_commit (client_query q f)"
  by (rule no_commit_single [of _ q])
     (simp_all add: client_query_cases split: sum.splits prod.splits)

lemma no_commit_client_control: "q \<noteq> COMMIT \<Longrightarrow> no_commit (client_control q f)"
  by (rule no_commit_single [of _ q]) (simp_all add: client_control_def)

lemma no_commit_insert_order: "no_commit (query_insert_order uid t st addr)"
  by (rule no_commit_single [of _ "InsertOrder uid t st addr"])
     (simp_all add: query_insert_order_def refused_eq client_query_cases
        split: sum.splits prod.splits)

lemma no_commit_insert_order_item: "no_commit (query_insert_order_item oid pid up qty)"
  by (rule no_commit_single [of _ "InsertOrderItem oid pid up qty"])
     (simp_all add: query_insert_order_item_def refused_eq client_query_cases
        split: sum.splits prod.splits)

lemma no_commit_update_stock: "no_commit (query_update_stock qty pid)"
  by (rule no_commit_single [of _ "UpdateStock qty pid"])
     (simp_all add: query_update_stock_def refused_eq client_query_cases
        split: sum.splits prod.splits)

lemma no_commit_basic:
  "no_commit query_begin" "no_commit query_rollback" "no_commit (query_product pid)"
  "no_commit (query_complete_order oid)"
  by (simp_all add: query_begin_def query_rollback_def query_product_def
      query_complete_order_def no_commit_client_query no_commit_client_control)

lemma no_commit_order: "no_commit (query_order oid)"
  by (rule no_commit_single [of _ "SelectOrder oid"])
     (simp_all add: query_order_def client_query_cases)

lemma no_commit_order_items: "no_commit (query_order_items oid)"
  by (rule no_commit_single [of _ "SelectOrderItems oid"])
     (simp_all add: query_order_items_def client_query_cases)

lemma no_commit_stock_loop: "no_commit (stock_loop its t acc)"
proof (induction its arbitrary: t acc)
  case Nil
  then show ?case by (simp add: no_commit_return)
next
  case (Cons item rest)
  show ?case
    unfolding stock_loop.simps
    by (intro no_commit_bind no_commit_basic)
       (auto split: list.splits intro!: no_commit_bind no_commit_basic
          no_commit_return Cons.IH)
qed

lemma no_commit_write_loop: "no_commit (write_loop oid its)"
proof (induction its)
  case Nil
  then show ?case by (simp add: no_commit_return)
next
  case (Cons item rest)
  show ?case
    unfolding write_loop.simps
    by (intro no_commit_bind no_commit_insert_order_item no_commit_update_stock Cons.IH)
qed

lemma no_commit_reserve: "no_commit (reserve userId b)"
  unfolding reserve_def
  by (intro no_commit_bind no_commit_stock_loop)
     (auto split: sum.splits intro!: no_commit_bind no_commit_return no_commit_insert_order
        no_commit_write_loop)

lemma conn_client_query_read:
  "conn (snd (client_query q (\<lambda>d. Inr (f d, d)) w)) = conn w"
  by (simp add: client_query_cases)

lemma reading_completeOrder: "reading completeOrder"
proof -
  have nc: "no_commit (completeOrder oid)" for oid
    unfolding completeOrder_def by (intro no_commit_bind no_commit_basic no_commit_return)
  have "conn (snd (completeOrder oid w)) = conn w" for oid w
    by (simp add: completeOrder_def bind_io_def query_complete_order_def client_query_cases
        select_complete_order_def)
  with nc show ?thesis
    unfolding reading_def no_commit_def by blast
qed

lemma orderWithItems_eq:
  "orderWithItems oid w =
     (Inr (Some \<lparr>ov_header =
                   (case arrange (row_order (conn w)) (order_header_rows oid (current (conn w))) of
                      [] \<Rightarrow> None | h # _ \<Rightarrow> Some h),
                 ov_items =
                   arrange (row_order (conn w)) (order_items_join oid (current (conn w)))\<rparr>),
      w\<lparr>trace := trace w @ [Query (SelectOrder oid), Query (SelectOrderItems oid)]\<rparr>)"
  by (simp add: orderWithItems_def bind_io_def return_io_def query_order_def
      query_order_items_def select_order_def select_order_items_def client_query_cases
      emit_def)

lemma completeOrder_eq:
  "completeOrder oid w =
     (Inl (DbError ''function json_build does not exist''),
      w\<lparr>trace := trace w @ [Query (SelectCompleteOrder oid)]\<rparr>)"
  by (simp add: completeOrder_def bind_io_def query_complete_order_def client_query_cases
      select_complete_order_def emit_def)

lemma reading_orderWithItems: "reading orderWithItems"
  unfolding reading_def
proof (intro allI conjI)
  fix oid w
  show "conn (snd (orderWithItems oid w)) = conn w" by (simp add: orderWithItems_eq)
  show "redis (snd (orderWithItems oid w)) = redis w" by (simp add: orderWithItems_eq)
  have "trace (snd (orderWithItems oid w)) =
      trace w @ map Query [SelectOrder oid, SelectOrderItems oid]"
    by (simp add: orderWithItems_eq)
  then show "\<exists>qs. trace (snd (orderWithItems oid w)) = trace w @ map Query qs \<and>
      COMMIT \<notin> set qs"
    by (intro exI [of _ "[SelectOrder oid, SelectOrderItems oid]"]) simp
qed

lemma place_reserve:
  "place userId b =
     bind_io (reserve userId b) (\<lambda>r.
       case r of
         Inl early \<Rightarrow> return_io (Inl early)
       | Inr order \<Rightarrow>
           bind_io query_commit (\<lambda>_.
           bind_io invalidateProductCache (\<lambda>_.
           return_io (Inr order))))"
proof (rule ext)
  fix w
  let ?rhs = "bind_io (reserve userId b) (\<lambda>r.
       case r of
         Inl early \<Rightarrow> return_io (Inl early)
       | Inr order \<Rightarrow>
           bind_io query_commit (\<lambda>_.
           bind_io invalidateProductCache (\<lambda>_.
           return_io (Inr order)))) w"
  obtain r1 w1 where s: "stock_loop (items b) 0 [] w = (r1, w1)"
    by (cases "stock_loop (items b) 0 [] w")
  show "place userId b w = ?rhs"
  proof (cases r1)
    case (Inl e)
    with s show ?thesis by (simp add: place_def reserve_def bind_io_def)
  next
    case (Inr checked)
    show ?thesis
    proof (cases checked)
      case (Inl early)
      with s Inr show ?thesis by (simp add: place_def reserve_def bind_io_def return_io_def)
    next
      case right: (Inr p)
      obtain t its where p: "p = (t, its)" by (cases p)
      obtain r3 w3 where
        ins: "query_insert_order userId t ''pending'' (shippingAddress b) w1 = (r3, w3)"
        by (cases "query_insert_order userId t ''pending'' (shippingAddress b) w1")
      show ?thesis
      proof (cases r3)
        case (Inl e)
        with s Inr right p ins show ?thesis
          by (simp add: place_def reserve_def bind_io_def)
      next
        case order: (Inr order)
        obtain r4 w4 where wr: "write_loop (o_id order) its w3 = (r4, w4)"
          by (cases "write_loop (o_id order) its w3")
        show ?thesis
          using s Inr right p ins order wr
          by (cases r4) (simp_all add: place_def reserve_def bind_io_def return_io_def)
      qed
    qed
  qed
qed

lemma reserve_reserved:
  assumes run: "reserve userId b w = (Inr (Inr order), w')"
  defines "d \<equiv> current (conn w)"
  defines "lines \<equiv> concat (map (priced (current (conn w))) (items b))"
  defines "oid \<equiv> orders_id_seq (conn w)"
  shows "(\<forall>item \<in> set (items b). in_stock d item) \<and>
      order = \<lparr>o_id = oid, o_user_id = userId,
                o_total_amount = (\<Sum>i\<leftarrow>lines. unitPrice i * quantity i),
                o_status = ''pending'', o_shipping_address = shippingAddress b\<rparr> \<and>
      write_lines (order_items_id_seq (conn w)) oid lines
        (d\<lparr>orders := orders d @ [order]\<rparr>) = Inr (current (conn w')) \<and>
      ((working (conn w') = None) = (working (conn w) = None)) \<and>
      (\<forall>x. working (conn w) = Some x \<longrightarrow> committed (conn w') = committed (conn w)) \<and>
      row_order (conn w') = row_order (conn w) \<and>
      orders_id_seq (conn w') = oid + 1"
proof -
  have pass: "\<forall>item \<in> set (items b). in_stock d item"
  proof (rule ccontr)
    assume "\<not> (\<forall>item \<in> set (items b). in_stock d item)"
    then obtain pre item post where cart: "items b = pre @ item # post"
      and "\<forall>y \<in> set pre. in_stock d y" "\<not> in_stock d item"
      by (rule first_failing)
    then have "stock_loop (items b) 0 [] w =
       (case select_product (productId item) (current (conn w)) of
          Inl e \<Rightarrow> (Inl e, w\<lparr>trace := trace w @ selects (pre @ [item])\<rparr>)
        | Inr rows \<Rightarrow>
            (Inr (Inl (stock_failure (current (conn w)) item)),
             w\<lparr>trace := trace w @ selects (pre @ [item]) @ [Query ROLLBACK],
               conn := rollback_tx (conn w)\<rparr>))"
      unfolding cart d_def by (intro stock_loop_fails)
    with run show False
      by (simp add: reserve_def bind_io_def return_io_def split: sum.splits)
  qed
  let ?t = "\<Sum>i\<leftarrow>lines. unitPrice i * quantity i"
  let ?w2 = "w\<lparr>trace := trace w @ selects (items b)\<rparr>"
  have loop: "stock_loop (items b) 0 [] w = (Inr (Inr (?t, lines)), ?w2)"
    using stock_loop_pass [of "items b" w 0 "[]"] pass by (simp add: d_def lines_def)
  from run loop obtain row w3 u4 where
    ins: "query_insert_order userId ?t ''pending'' (shippingAddress b) ?w2 = (Inr row, w3)"
    and wr: "write_loop (o_id row) lines w3 = (Inr u4, w')"
    and row: "order = row"
    unfolding reserve_def
    by (auto elim!: bind_io_InrE simp: return_io_def simp del: stock_loop.simps)
  note i = query_insert_order_InrD [OF ins]
  note r = write_loop_InrD [OF wr]
  have order: "order = \<lparr>o_id = oid, o_user_id = userId, o_total_amount = ?t,
                o_status = ''pending'', o_shipping_address = shippingAddress b\<rparr>"
    using i(1) row by (simp add: oid_def)
  have d3: "current (conn w3) = d\<lparr>orders := orders d @ [order]\<rparr>"
    using i(2) row by (simp add: d_def)
  have lines4: "write_lines (order_items_id_seq (conn w)) oid lines (current (conn w3))
      = Inr (current (conn w'))"
    using r i(1,5) by (simp add: oid_def)
  have "(working (conn w') = None) = (working (conn w) = None)"
    using r i(3) by simp
  moreover have "\<forall>x. working (conn w) = Some x \<longrightarrow> committed (conn w') = committed (conn w)"
  proof (intro allI impI)
    fix x assume "working (conn w) = Some x"
    then have x: "working (conn ?w2) = Some x" by simp
    from i(4) [OF x] have c3: "committed (conn w3) = committed (conn w)" by simp
    from i(3) x obtain y where "working (conn w3) = Some y" by auto
    with r have "committed (conn w') = committed (conn w3)" by blast
    with c3 show "committed (conn w') = committed (conn w)" by simp
  qed
  moreover have "row_order (conn w') = row_order (conn w)"
    using r i(8) by simp
  moreover have "orders_id_seq (conn w') = oid + 1"
    using r i(9) by (simp add: oid_def)
  ultimately show ?thesis
    using pass order lines4 d3 by simp
qed

lemma in_transactionD:
  "in_transaction m \<Longrightarrow> working (conn w) \<noteq> None \<Longrightarrow>
   committed (conn (snd (m w))) = committed (conn w) \<and> working (conn (snd (m w))) \<noteq> None"
  unfolding in_transaction_def by blast

lemma in_transaction_return: "in_transaction (return_io a)"
  by (simp add: in_transaction_def return_io_def)

lemma in_transaction_bind:
  assumes "in_transaction m" and "\<And>a. in_transaction (f a)"
  shows "in_transaction (bind_io m f)"
  unfolding in_transaction_def
proof (intro allI impI)
  fix w :: world
  assume open_tx: "working (conn w) \<noteq> None"
  obtain r w1 where m: "m w = (r, w1)" by (cases "m w")
  from in_transactionD [OF assms(1) open_tx] m
  have w1: "committed (conn w1) = committed (conn w)" "working (conn w1) \<noteq> None"
    by simp_all
  show "committed (conn (snd (bind_io m f w))) = committed (conn w) \<and>
        working (conn (snd (bind_io m f w))) \<noteq> None"
  proof (cases r)
    case (Inl e)
    with m w1 show ?thesis by (simp add: bind_io_def)
  next
    case (Inr a)
    from in_transactionD [OF assms(2) w1(2), of a] w1(1) Inr m
    show ?thesis by (simp add: bind_io_def)
  qed
qed

lemma in_transaction_client_query: "in_transaction (client_query q f)"
  unfolding in_transaction_def
  by (auto simp: client_query_cases store_def split: sum.splits prod.splits option.splits)

lemma in_transaction_insert_order: "in_transaction (query_insert_order uid t st addr)"
  unfolding in_transaction_def
  by (auto simp: query_insert_order_def refused_eq client_query_cases store_def
      split: sum.splits prod.splits option.splits)

lemma in_transaction_insert_order_item:
  "in_transaction (query_insert_order_item oid pid up qty)"
  unfolding in_transaction_def
  by (auto simp: query_insert_order_item_def refused_eq client_query_cases store_def
      split: sum.splits prod.splits option.splits)

lemma in_transaction_update_stock: "in_transaction (query_update_stock qty pid)"
  by (simp add: query_update_stock_def refused_def in_transaction_client_query)

lemma in_transaction_write_loop: "in_transaction (write_loop oid its)"
proof (induction its)
  case Nil
  then show ?case by (simp add: in_transaction_return)
next
  case (Cons item rest)
  show ?case
    unfolding write_loop.simps
    by (intro in_transaction_bind in_transaction_insert_order_item in_transaction_update_stock
        Cons.IH)
qed


lemma reserve_unchanged:
  assumes run: "reserve userId b w = (r, w')" and open_tx: "working (conn w) \<noteq> None"
  shows "committed (conn w') = committed (conn w) \<and>
         (\<forall>early. r = Inr (Inl early) \<longrightarrow> working (conn w') = None \<and> status early \<noteq> 201)"
proof (cases "\<forall>item \<in> set (items b). in_stock (current (conn w)) item")
  case False
  then obtain pre item post where cart: "items b = pre @ item # post"
    and "\<forall>y \<in> set pre. in_stock (current (conn w)) y" "\<not> in_stock (current (conn w)) item"
    by (rule first_failing)
  then have "stock_loop (items b) 0 [] w =
     (case select_product (productId item) (current (conn w)) of
        Inl e \<Rightarrow> (Inl e, w\<lparr>trace := trace w @ selects (pre @ [item])\<rparr>)
      | Inr rows \<Rightarrow>
          (Inr (Inl (stock_failure (current (conn w)) item)),
           w\<lparr>trace := trace w @ selects (pre @ [item]) @ [Query ROLLBACK],
             conn := rollback_tx (conn w)\<rparr>))"
    unfolding cart by (intro stock_loop_fails)
  with run show ?thesis
    by (cases "select_product (productId item) (current (conn w))")
       (auto simp: reserve_def bind_io_def return_io_def status_stock_failure)
next
  case True
  let ?lines = "concat (map (priced (current (conn w))) (items b))"
  let ?t = "\<Sum>i\<leftarrow>?lines. unitPrice i * quantity i"
  let ?w2 = "w\<lparr>trace := trace w @ selects (items b)\<rparr>"
  have loop: "stock_loop (items b) 0 [] w = (Inr (Inr (?t, ?lines)), ?w2)"
    using stock_loop_pass [of "items b" w 0 "[]"] True by simp
  obtain r3 w3 where ins:
    "query_insert_order userId ?t ''pending'' (shippingAddress b) ?w2 = (r3, w3)"
    by (cases "query_insert_order userId ?t ''pending'' (shippingAddress b) ?w2")
  have "working (conn ?w2) \<noteq> None"
    using open_tx by simp
  from in_transactionD [OF in_transaction_insert_order this,
      of userId ?t "''pending''" "shippingAddress b"] ins
  have w3: "committed (conn w3) = committed (conn w)" "working (conn w3) \<noteq> None"
    by simp_all
  show ?thesis
  proof (cases r3)
    case (Inl e)
    with run loop ins w3 show ?thesis
      by (auto simp: reserve_def bind_io_def simp del: stock_loop.simps)
  next
    case order: (Inr order)
    obtain r4 w4 where wr: "write_loop (o_id order) ?lines w3 = (r4, w4)"
      by (cases "write_loop (o_id order) ?lines w3")
    from in_transactionD [OF in_transaction_write_loop w3(2), of "o_id order" ?lines] wr w3(1)
    have w4: "committed (conn w4) = committed (conn w)"
      by simp
    show ?thesis
      using run loop ins order wr w4
      by (cases r4) (auto simp: reserve_def bind_io_def return_io_def simp del: stock_loop.simps)
  qed
qed

lemma invalidateProductCache_returns:
  "invalidateProductCache w = (Inr (), snd (invalidateProductCache w))"
  using invalidateProductCache_effect [of w] by auto

lemma controller_run:
  assumes valid: "createOrderSchema (body req) = []"
    and user: "user_id req = Some userId" "userId \<noteq> 0"
  shows "controller read_back outcome req w =
     (case reserve userId (body req) ((emit (Query BEGIN) w)\<lparr>conn := begin_tx (conn w)\<rparr>) of
        (Inl e, w2) \<Rightarrow>
          (outcome e, emit Release ((emit (Query ROLLBACK) w2)\<lparr>conn := rollback_tx (conn w2)\<rparr>))
      | (Inr (Inl early), w2) \<Rightarrow> (Inr early, emit Release w2)
      | (Inr (Inr order), w2) \<Rightarrow>
          (case read_back (o_id order)
                  (snd (invalidateProductCache
                     ((emit (Query COMMIT) w2)\<lparr>conn := commit_tx (conn w2)\<rparr>))) of
             (Inl e, w5) \<Rightarrow>
               (outcome e,
                emit Release ((emit (Query ROLLBACK) w5)\<lparr>conn := rollback_tx (conn w5)\<rparr>))
           | (Inr complete, w5) \<Rightarrow> (Inr (created complete), emit Release w5)))"
proof -
  let ?w1 = "(emit (Query BEGIN) w)\<lparr>conn := begin_tx (conn w)\<rparr>"
  obtain r2 w2 where res: "reserve userId (body req) ?w1 = (r2, w2)"
    by (cases "reserve userId (body req) ?w1")
  let ?w3 = "(emit (Query COMMIT) w2)\<lparr>conn := commit_tx (conn w2)\<rparr>"
  obtain w4 where inv: "invalidateProductCache ?w3 = (Inr (), w4)"
    using invalidateProductCache_effect [of ?w3] by blast
  then have w4: "snd (invalidateProductCache ?w3) = w4" by simp
  have tb: "createOrder_try read_back req w =
      bind_io (place userId (body req)) (\<lambda>placed.
                       case placed of
                         Inl early \<Rightarrow> return_io early
                       | Inr order \<Rightarrow>
                           bind_io (read_back (o_id order)) (\<lambda>complete.
                             return_io (created complete))) ?w1"
    using valid user by (simp add: createOrder_try_def bind_io_def query_begin_eq)
  show ?thesis
  proof (cases r2)
    case (Inl e)
    with res show ?thesis
      by (simp add: controller_def tb place_reserve bind_io_def try_catch_def
          query_rollback_eq)
  next
    case (Inr placed)
    show ?thesis
    proof (cases placed)
      case (Inl early)
      with res Inr show ?thesis
        by (simp add: controller_def tb place_reserve bind_io_def try_catch_def return_io_def)
    next
      case order: (Inr order)
      obtain r5 w5 where rb: "read_back (o_id order) w4 = (r5, w5)"
        by (cases "read_back (o_id order) w4")
      have pl: "place userId (body req) ?w1 = (Inr (Inr order), w4)"
        using res Inr order inv
        by (simp add: place_reserve bind_io_def query_commit_eq return_io_def)
      show ?thesis
        using res Inr order rb pl
        by (cases r5)
           (simp_all add: controller_def tb bind_io_def try_catch_def return_io_def
              query_rollback_eq w4)
    qed
  qed
qed

lemma committing_iff:
  "trace w' = trace w @ evs \<Longrightarrow> committing w w' = (Query COMMIT \<in> set evs)"
  by (simp add: committing_def new_events_def)

lemma readingD:
  assumes "reading read_back" and "read_back oid w = (r, w')"
  obtains qs where "conn w' = conn w" "redis w' = redis w"
    "trace w' = trace w @ map Query qs" "COMMIT \<notin> set qs"
  using assms unfolding reading_def by (metis snd_conv)

lemma controller_cases:
  assumes run: "controller read_back outcome req w = (r, w')" and rd: "reading read_back"
  defines "d \<equiv> current (conn w)"
  defines "lines \<equiv> concat (map (priced (current (conn w))) (items (body req)))"
  defines "oid \<equiv> orders_id_seq (conn w)"
  shows "(\<not> committing w w' \<and>
          committed (conn w') = committed (conn w) \<and>
          (working (conn w') = None \<or> working (conn w') = Some (current (conn w))) \<and>
          (\<forall>resp. r = Inr resp \<longrightarrow> status resp \<noteq> 201 \<or> (\<exists>e. outcome e = Inr resp)) \<and>
          (\<exists>qs. new_events w w' = map Query qs @ [Release])) \<or>
         (committing w w' \<and>
          (\<exists>userId d' pre mid post w4.
             createOrderSchema (body req) = [] \<and> user_id req = Some userId \<and> userId \<noteq> 0 \<and>
             (\<forall>item \<in> set (items (body req)). in_stock d item) \<and>
             write_lines (order_items_id_seq (conn w)) oid lines
               (d\<lparr>orders := orders d @
                     [\<lparr>o_id = oid, o_user_id = userId,
                       o_total_amount = (\<Sum>i\<leftarrow>lines. unitPrice i * quantity i),
                       o_status = ''pending'',
                       o_shipping_address = shippingAddress (body req)\<rparr>]\<rparr>) = Inr d' \<and>
             committed (conn w') = d' \<and> working (conn w') = None \<and>
             row_order (conn w') = row_order (conn w) \<and>
             conn w4 = conn w' \<and>
             r = (case fst (read_back oid w4) of
                    Inl e \<Rightarrow> outcome e
                  | Inr complete \<Rightarrow> Inr (created complete)) \<and>
             new_events w w' =
               Query BEGIN # map Query pre @ [Query COMMIT] @ mid @ map Query post @ [Release] \<and>
             COMMIT \<notin> set pre \<and> COMMIT \<notin> set post \<and>
             (\<forall>ev \<in> set mid. \<exists>cmd. ev = Redis cmd) \<and>
             (\<exists>qs. trace (snd (read_back oid w4)) = trace w4 @ map Query qs \<and>
                   set qs \<subseteq> set post) \<and>
             (\<exists>wc. redis wc = redis w \<and> redis w' = redis (snd (invalidateProductCache wc)))))"
proof (cases "createOrderSchema (body req) = []")
  case False
  from controller_invalid [OF this, of read_back outcome w] run
  have r: "r = Inr \<lparr>status = 400,
           json = \<lparr>message = ''Invalid input'',
                   errors = Some (createOrderSchema (body req)), order_json = None\<rparr>\<rparr>"
    and w': "w' = w\<lparr>trace := trace w @ [Query BEGIN, Release], conn := begin_tx (conn w)\<rparr>"
    by simp_all
  have tr: "trace w' = trace w @ [Query BEGIN, Release]" using w' by simp
  from committing_iff [OF this] have "\<not> committing w w'" by simp
  moreover have "\<exists>qs. new_events w w' = map Query qs @ [Release]"
    using tr by (intro exI [of _ "[BEGIN]"]) (simp add: new_events_def)
  ultimately show ?thesis using r w' by simp
next
  case valid: True
  show ?thesis
  proof (cases "user_id req = None \<or> user_id req = Some 0")
    case True
    from controller_unauthenticated [OF valid this, of read_back outcome w] run
    have r: "r = Inr (reply 401 ''Authentication required'')"
      and w': "w' = w\<lparr>trace := trace w @ [Query BEGIN, Release], conn := begin_tx (conn w)\<rparr>"
      by simp_all
    have tr: "trace w' = trace w @ [Query BEGIN, Release]" using w' by simp
    from committing_iff [OF this] have "\<not> committing w w'" by simp
    moreover have "\<exists>qs. new_events w w' = map Query qs @ [Release]"
      using tr by (intro exI [of _ "[BEGIN]"]) (simp add: new_events_def)
    ultimately show ?thesis using r w' by (simp add: reply_def)
  next
    case False
    then obtain userId where user: "user_id req = Some userId" "userId \<noteq> 0"
      by (cases "user_id req") auto
    let ?w1 = "(emit (Query BEGIN) w)\<lparr>conn := begin_tx (conn w)\<rparr>"
    obtain r2 w2 where res: "reserve userId (body req) ?w1 = (r2, w2)"
      by (cases "reserve userId (body req) ?w1")
    have open_tx: "working (conn ?w1) \<noteq> None" by simp
    from no_commitD [OF no_commit_reserve res] obtain pre where
      pre: "redis w2 = redis ?w1" "trace w2 = trace ?w1 @ map Query pre" "COMMIT \<notin> set pre"
      by blast
    note same = reserve_unchanged [OF res open_tx]
    note unfolded = controller_run [OF valid user, of read_back outcome w, unfolded res run]
    show ?thesis
    proof (cases r2)
      case (Inl e)
      with unfolded have r: "r = outcome e"
        and w': "w' = emit Release ((emit (Query ROLLBACK) w2)\<lparr>conn := rollback_tx (conn w2)\<rparr>)"
        by simp_all
      have tr: "trace w' = trace w @ (Query BEGIN # map Query pre @ [Query ROLLBACK, Release])"
        using w' pre by simp
      from committing_iff [OF this] pre(3) have "\<not> committing w w'" by auto
      moreover have "\<exists>qs. new_events w w' = map Query qs @ [Release]"
        using tr by (intro exI [of _ "BEGIN # pre @ [ROLLBACK]"]) (simp add: new_events_def)
      ultimately show ?thesis using r w' same by auto
    next
      case (Inr placed)
      show ?thesis
      proof (cases placed)
        case (Inl early)
        with unfolded Inr have r: "r = Inr early" and w': "w' = emit Release w2"
          by simp_all
        have tr: "trace w' = trace w @ (Query BEGIN # map Query pre @ [Release])"
          using w' pre by simp
        from committing_iff [OF this] pre(3) have "\<not> committing w w'" by auto
        moreover have "\<exists>qs. new_events w w' = map Query qs @ [Release]"
          using tr by (intro exI [of _ "BEGIN # pre"]) (simp add: new_events_def)
        ultimately show ?thesis using r w' same Inr Inl by auto
      next
        case order: (Inr order)
        let ?w3 = "(emit (Query COMMIT) w2)\<lparr>conn := commit_tx (conn w2)\<rparr>"
        obtain w4 where inv: "invalidateProductCache ?w3 = (Inr (), w4)"
          using invalidateProductCache_effect [of ?w3] by blast
        from invalidateProductCache_effect [of ?w3] inv obtain mid where
          conn4: "conn w4 = conn ?w3" and tr4: "trace w4 = trace ?w3 @ mid"
          and mid: "\<forall>ev \<in> set mid. \<exists>cmd. ev = Redis cmd"
          by auto
        obtain r5 w5 where rb: "read_back (o_id order) w4 = (r5, w5)"
          by (cases "read_back (o_id order) w4")
        from readingD [OF rd rb] obtain qs where
          q: "conn w5 = conn w4" "redis w5 = redis w4" "trace w5 = trace w4 @ map Query qs"
            "COMMIT \<notin> set qs"
          by blast
        have res': "reserve userId (body req) ?w1 = (Inr (Inr order), w2)"
          using res Inr order by simp
        note f = reserve_reserved [OF res']
        have oid: "o_id order = oid"
          using f by (simp add: oid_def)
        have settled: "working (conn w5) = None"
          using q(1) conn4 by simp
        let ?post = "case r5 of Inl e \<Rightarrow> qs @ [ROLLBACK] | Inr complete \<Rightarrow> qs"
        have w': "conn w' = conn w5" "redis w' = redis w5"
          "trace w' = trace w @ (Query BEGIN # map Query pre @ [Query COMMIT] @ mid @
             map Query ?post @ [Release])"
          and r: "r = (case r5 of Inl e \<Rightarrow> outcome e | Inr complete \<Rightarrow> Inr (created complete))"
          using unfolded Inr order inv rb pre(2) tr4 q(3) settled
          by (cases r5; simp add: rollback_settled)+
        from committing_iff [OF w'(3)] have com: "committing w w'" by simp
        have post: "COMMIT \<notin> set ?post"
          using q(4) by (cases r5) auto
        have events: "new_events w w' =
            Query BEGIN # map Query pre @ [Query COMMIT] @ mid @ map Query ?post @ [Release]"
          using w'(3) by (simp add: new_events_def)
        have wl: "write_lines (order_items_id_seq (conn w)) oid lines
               (d\<lparr>orders := orders d @
                     [\<lparr>o_id = oid, o_user_id = userId,
                       o_total_amount = (\<Sum>i\<leftarrow>lines. unitPrice i * quantity i),
                       o_status = ''pending'',
                       o_shipping_address = shippingAddress (body req)\<rparr>]\<rparr>)
            = Inr (current (conn w2))"
          using f by (auto simp: d_def lines_def oid_def)
        have pass: "\<forall>item \<in> set (items (body req)). in_stock d item"
          using f by (simp add: d_def)
        have c': "committed (conn w') = current (conn w2)" "working (conn w') = None"
          "row_order (conn w') = row_order (conn w)" "conn w4 = conn w'"
          using w'(1) q(1) conn4 f by simp_all
        have rr: "r = (case fst (read_back oid w4) of
                    Inl e \<Rightarrow> outcome e
                  | Inr complete \<Rightarrow> Inr (created complete))"
          using r rb oid by simp
        have redis: "redis ?w3 = redis w" "redis w' = redis (snd (invalidateProductCache ?w3))"
          using pre(1) w'(2) q(2) inv by simp_all
        then have "\<exists>wc. redis wc = redis w \<and> redis w' = redis (snd (invalidateProductCache wc))"
          by blast
        moreover have "\<exists>qs. trace (snd (read_back oid w4)) = trace w4 @ map Query qs \<and>
            set qs \<subseteq> set ?post"
          using rb oid q(3) by (intro exI [of _ qs]) (cases r5; auto)
        ultimately show ?thesis
          using com valid user pass wl c' rr events pre(3) post mid by blast
      qed
    qed
  qed
qed

lemma write_lines_InrD:
  assumes "write_lines n oid its d = Inr d'"
  shows "users d' = users d \<and> orders d' = orders d \<and>
         order_items d' = order_items d @ item_rows n oid its \<and>
         map p_id (products d') = map p_id (products d) \<and>
         map p_name (products d') = map p_name (products d)"
  using assms
proof (induction its arbitrary: n d)
  case Nil
  then show ?case by simp
next
  case (Cons item rest)
  from Cons.prems obtain d1 d2 where
    ins: "insert_order_item n oid (productId item) (unitPrice item) (quantity item) d = Inr d1"
    and upd: "update_stock (quantity item) (productId item) d1 = Inr d2"
    and rest: "write_lines (n + 1) oid rest d2 = Inr d'"
    by (auto split: sum.splits)
  from ins have d1: "d1 = d\<lparr>order_items := order_items d @
      [\<lparr>oi_id = n, oi_order_id = oid, oi_product_id = productId item,
        oi_unit_price = unitPrice item, oi_quantity = quantity item\<rparr>]\<rparr>"
    by (auto simp: insert_order_item_def split: if_splits)
  from upd have d2: "users d2 = users d1" "orders d2 = orders d1"
    "order_items d2 = order_items d1"
    "map p_id (products d2) = map p_id (products d1)"
    "map p_name (products d2) = map p_name (products d1)"
    by (auto simp: update_stock_def split: if_splits)
  from Cons.IH [OF rest] d1 d2 show ?case by simp
qed

section \<open>Properties of the order placement: placed orders\<close>

lemma item_rows_of_cart:
  assumes "\<forall>item \<in> set its. in_stock d item"
  shows "list_all2
           (\<lambda>row item. oi_order_id row = oid \<and> oi_product_id row = productId item \<and>
              oi_quantity row = quantity item \<and>
              (\<exists>product others. select_product (productId item) d = Inr (product # others) \<and>
                 oi_unit_price row = p_price product))
           (item_rows n oid (concat (map (priced d) its))) its"
  using assms
proof (induction its arbitrary: n)
  case Nil
  then show ?case by simp
next
  case (Cons item rest)
  then obtain product others where
    "select_product (productId item) d = Inr (product # others)"
    by (auto elim: in_stock_row)
  with Cons show ?case by (simp add: priced_def)
qed

lemma sum_item_rows:
  "(\<Sum>row\<leftarrow>item_rows n oid lines. oi_unit_price row * oi_quantity row) =
   (\<Sum>l\<leftarrow>lines. unitPrice l * quantity l)"
  by (induction lines arbitrary: n) simp_all

lemma item_rows_order_id: "\<forall>row \<in> set (item_rows n oid lines). oi_order_id row = oid"
  by (induction lines arbitrary: n) simp_all

lemma order_lines_new:
  assumes "\<forall>oi \<in> set (order_items d). oi_order_id oi < oid"
  shows "filter (\<lambda>oi. oi_order_id oi = oid) (order_items d @ item_rows n oid lines) =
         item_rows n oid lines"
proof -
  have "filter (\<lambda>oi. oi_order_id oi = oid) (order_items d) = []"
    using assms by (auto simp: filter_empty_conv)
  moreover have "filter (\<lambda>oi. oi_order_id oi = oid) (item_rows n oid lines) =
      item_rows n oid lines"
    using item_rows_order_id [of n oid lines] by (simp add: filter_id_conv)
  ultimately show ?thesis by simp
qed

lemma unique_row:
  assumes "distinct (map p_id ps)" and "pid \<in> p_id ` set ps"
  shows "\<exists>p. filter (\<lambda>q. pid = p_id q) ps = [p]"
  using assms
proof (induction ps)
  case Nil
  then show ?case by simp
next
  case (Cons a ps)
  show ?case
  proof (cases "pid = p_id a")
    case True
    with Cons.prems have "filter (\<lambda>q. pid = p_id q) ps = []"
      by (auto simp: filter_empty_conv)
    with True show ?thesis by simp
  next
    case False
    with Cons show ?thesis by auto
  qed
qed

lemma join_rows:
  assumes "distinct (map p_id ps)" and "\<forall>row \<in> set rows. oi_product_id row \<in> p_id ` set ps"
  shows "list_all2
           (\<lambda>v row. iv_product_id v = oi_product_id row \<and>
              iv_unit_price v = oi_unit_price row \<and> iv_quantity v = oi_quantity row \<and>
              iv_subtotal v = oi_unit_price row * oi_quantity row)
           (concat (map (\<lambda>oi. map (\<lambda>p. \<lparr>iv_id = oi_id oi, iv_product_id = oi_product_id oi,
                                   iv_product_name = p_name p,
                                   iv_unit_price = oi_unit_price oi,
                                   iv_quantity = oi_quantity oi,
                                   iv_subtotal = oi_unit_price oi * oi_quantity oi\<rparr>)
                            (filter (\<lambda>p. oi_product_id oi = p_id p) ps)) rows))
           rows"
  using assms(2)
proof (induction rows)
  case Nil
  then show ?case by simp
next
  case (Cons row rows)
  then obtain p where "filter (\<lambda>q. oi_product_id row = p_id q) ps = [p]"
    using unique_row [OF assms(1), of "oi_product_id row"] by auto
  with Cons show ?case by simp
qed

lemma sum_list_all2:
  "list_all2 (\<lambda>x y. f x = g y) xs ys \<Longrightarrow> sum_list (map f xs) = sum_list (map g ys)"
  by (induction rule: list_all2_induct) simp_all

lemma in_stock_product_id:
  assumes "in_stock d item"
  shows "productId item \<in> p_id ` set (products d)"
proof -
  from assms obtain p others where "select_product (productId item) d = Inr (p # others)"
    by (auto elim: in_stock_row)
  then have "filter (\<lambda>p. p_id p = productId item) (products d) = p # others"
    by (simp add: select_product_def split: if_splits)
  then have "p \<in> set (filter (\<lambda>p. p_id p = productId item) (products d))"
    by simp
  then have "p \<in> set (products d)" "p_id p = productId item" by simp_all
  then show ?thesis by (metis imageI)
qed

lemma item_rows_known:
  assumes "\<forall>item \<in> set its. in_stock d item"
  shows "\<forall>row \<in> set (item_rows n oid (concat (map (priced d) its))).
           oi_product_id row \<in> p_id ` set (products d)"
  using assms
proof (induction its arbitrary: n)
  case Nil
  then show ?case by simp
next
  case (Cons item rest)
  then obtain product others where
    "select_product (productId item) d = Inr (product # others)"
    by (auto elim: in_stock_row)
  with Cons in_stock_product_id [of d item] show ?case by (simp add: priced_def)
qed

lemma mset_arrange [simp]: "mset (arrange ks rows) = mset rows"
proof -
  let ?keys = "ks @ replicate (length rows - length ks) 0"
  have "length rows \<le> length ?keys" by simp
  then have "map snd (zip ?keys rows) = rows"
    by (simp add: map_snd_zip_take)
  then have "mset (map snd (zip ?keys rows)) = mset rows" by simp
  then show ?thesis
    unfolding arrange_def by (simp only: mset_map mset_sort)
qed

lemma set_arrange [simp]: "set (arrange ks rows) = set rows"
  using mset_arrange [of ks rows] by (rule mset_eq_setD)

lemma arrange_single [simp]: "arrange ks [x] = [x]"
proof -
  have "mset (arrange ks [x]) = {#x#}" by simp
  then show ?thesis by (simp only: mset_single_iff)
qed

lemma arrange_Nil [simp]: "arrange ks [] = []"
  by (simp add: arrange_def)

lemma sum_list_arrange:
  fixes f :: "'a \<Rightarrow> 'b::comm_monoid_add"
  shows "sum_list (map f (arrange ks xs)) = sum_list (map f xs)"
proof -
  have "sum_mset (mset (map f (arrange ks xs))) = sum_mset (mset (map f xs))"
    by simp
  then show ?thesis by (simp only: sum_mset_sum_list)
qed

lemma list_all2_map_eq:
  "list_all2 (\<lambda>x y. f x = g y) xs ys \<Longrightarrow> map f xs = map g ys"
  by (induction rule: list_all2_induct) simp_all

lemma handler_cases:
  assumes "handler = createOrder \<or> handler = createOrder_ts"
  obtains read_back outcome where "handler = controller read_back outcome" "reading read_back"
    "\<And>e resp. outcome e = Inr resp \<Longrightarrow> status resp = 500"
proof -
  from assms consider "handler = createOrder" | "handler = createOrder_ts" by blast
  then show thesis
  proof cases
    case 1
    show thesis
    proof (rule that)
      show "handler = controller completeOrder (\<lambda>error. Inr (reply 500 ''Failed to create order''))"
        using 1 by (simp add: createOrder_controller)
      show "reading completeOrder" by (rule reading_completeOrder)
      show "status resp = 500"
        if "(\<lambda>error. Inr (reply 500 ''Failed to create order'')) e = Inr resp" for e :: exn and resp
        using that by (auto simp: reply_def)
    qed
  next
    case 2
    show thesis
    proof (rule that)
      show "handler = controller orderWithItems Inl"
        using 2 by (simp add: createOrder_ts_controller)
      show "reading orderWithItems" by (rule reading_orderWithItems)
      show "status resp = 500" if "Inl e = Inr resp" for e :: exn and resp :: response
        using that by simp
    qed
  qed
qed

lemma controller_recorded:
  assumes run: "controller read_back outcome req w = (r, w')" and rd: "reading read_back"
    and com: "committing w w'" and fresh: "fresh_ids (conn w)"
  shows "\<exists>ord. filter (\<lambda>ord. o_id ord = orders_id_seq (conn w)) (orders (committed (conn w')))
            = [ord] \<and>
          o_total_amount ord =
            (\<Sum>oi\<leftarrow>order_lines (o_id ord) (committed (conn w')).
               oi_unit_price oi * oi_quantity oi) \<and>
          list_all2
            (\<lambda>oi item. oi_product_id oi = productId item \<and> oi_quantity oi = quantity item \<and>
               (\<exists>product others.
                  select_product (productId item) (current (conn w)) = Inr (product # others) \<and>
                  oi_unit_price oi = p_price product))
            (order_lines (o_id ord) (committed (conn w'))) (items (body req))"
proof -
  let ?d = "current (conn w)"
  let ?oid = "orders_id_seq (conn w)"
  let ?lines = "concat (map (priced ?d) (items (body req)))"
  from controller_cases [OF run rd] com obtain userId d' where
    pass: "\<forall>item \<in> set (items (body req)). in_stock ?d item"
    and wl: "write_lines (order_items_id_seq (conn w)) ?oid ?lines
        (?d\<lparr>orders := orders ?d @
              [\<lparr>o_id = ?oid, o_user_id = userId,
                o_total_amount = (\<Sum>i\<leftarrow>?lines. unitPrice i * quantity i),
                o_status = ''pending'',
                o_shipping_address = shippingAddress (body req)\<rparr>]\<rparr>) = Inr d'"
    and d': "committed (conn w') = d'"
    by blast
  let ?ord = "\<lparr>o_id = ?oid, o_user_id = userId,
                o_total_amount = (\<Sum>i\<leftarrow>?lines. unitPrice i * quantity i),
                o_status = ''pending'', o_shipping_address = shippingAddress (body req)\<rparr>"
  note f = write_lines_InrD [OF wl]
  have old_orders: "\<forall>ord \<in> set (orders ?d). o_id ord < ?oid"
    and old_items: "\<forall>oi \<in> set (order_items ?d). oi_order_id oi < ?oid"
    using fresh by (simp_all add: fresh_ids_def)
  have "filter (\<lambda>ord. o_id ord = ?oid) (orders ?d) = []"
    using old_orders by (auto simp: filter_empty_conv)
  then have one: "filter (\<lambda>ord. o_id ord = ?oid) (orders d') = [?ord]"
    using f by simp
  have ol: "order_lines ?oid d' = item_rows (order_items_id_seq (conn w)) ?oid ?lines"
    using f order_lines_new [OF old_items] by (simp add: order_lines_def)
  have total: "o_total_amount ?ord =
      (\<Sum>oi\<leftarrow>order_lines (o_id ?ord) d'. oi_unit_price oi * oi_quantity oi)"
    using ol by (simp add: sum_item_rows)
  have "list_all2
            (\<lambda>oi item. oi_product_id oi = productId item \<and> oi_quantity oi = quantity item \<and>
               (\<exists>product others.
                  select_product (productId item) ?d = Inr (product # others) \<and>
                  oi_unit_price oi = p_price product))
            (order_lines (o_id ?ord) d') (items (body req))"
    using item_rows_of_cart [OF pass, of ?oid "order_items_id_seq (conn w)"] ol
    by (auto elim!: list_all2_mono)
  with one total show ?thesis
    unfolding d' by blast
qed

text \<open>
  Claim C5. When a call of \<open>createOrder\<close> (of the compiled controller or of the TypeScript
  controller) has issued \<open>COMMIT\<close>, the committed store has exactly one order with the
  newly drawn id; its \<open>total_amount\<close> is the sum of \<open>unit_price * quantity\<close> over its
  lines; and its lines are the lines of the cart, in the order of their ids, each with the
  product and quantity of the cart and with the price that the row of the product had
  in the store when the transaction read it. A line of the cart carries no price.
  Amounts are exact here (see the first section).
\<close>

theorem recorded_total_is_sum_of_lines:
  assumes "handler = createOrder \<or> handler = createOrder_ts"
    and "Query COMMIT \<in> set (new_events w (snd (handler req w)))"
    and "fresh_ids (conn w)"
  shows "\<exists>ord. filter (\<lambda>ord. o_id ord = orders_id_seq (conn w))
                  (orders (committed (conn (snd (handler req w))))) = [ord] \<and>
          o_total_amount ord =
            (\<Sum>oi\<leftarrow>order_lines (o_id ord) (committed (conn (snd (handler req w)))).
               oi_unit_price oi * oi_quantity oi) \<and>
          list_all2
            (\<lambda>oi item. oi_product_id oi = productId item \<and> oi_quantity oi = quantity item \<and>
               (\<exists>product others.
                  select_product (productId item) (current (conn w)) = Inr (product # others) \<and>
                  oi_unit_price oi = p_price product))
            (order_lines (o_id ord) (committed (conn (snd (handler req w)))))
            (items (body req))"
proof -
  from assms(1) obtain read_back outcome where
    h: "handler = controller read_back outcome" and rd: "reading read_back"
    by (rule handler_cases)
  have run: "controller read_back outcome req w = (fst (handler req w), snd (handler req w))"
    by (simp add: h)
  have com: "committing w (snd (handler req w))"
    using assms(2) by (simp add: committing_def)
  from controller_recorded [OF run rd com assms(3)] show ?thesis .
qed

theorem recorded_total_is_sum_of_lines_witness:
  "Query COMMIT \<in> set (new_events shop_world
     (snd (createOrder (order_request [cart_line 1 2, cart_line 1 1]) shop_world))) \<and>
   fresh_ids (conn shop_world) \<and>
   fst (createOrder (order_request [cart_line 1 2, cart_line 1 1]) shop_world) =
     Inr (reply 500 ''Failed to create order'') \<and>
   orders (committed (conn (snd
     (createOrder (order_request [cart_line 1 2, cart_line 1 1]) shop_world)))) =
     [\<lparr>o_id = 1, o_user_id = 7, o_total_amount = 3897, o_status = ''pending'',
       o_shipping_address = ''123 Test Street''\<rparr>] \<and>
   order_lines 1 (committed (conn (snd
     (createOrder (order_request [cart_line 1 2, cart_line 1 1]) shop_world)))) =
     [\<lparr>oi_id = 1, oi_order_id = 1, oi_product_id = 1, oi_unit_price = 1299, oi_quantity = 2\<rparr>,
      \<lparr>oi_id = 2, oi_order_id = 1, oi_product_id = 1, oi_unit_price = 1299, oi_quantity = 1\<rparr>] \<and>
   (\<exists>ord. filter (\<lambda>ord. o_id ord = orders_id_seq (conn shop_world))
            (orders (committed (conn (snd
               (createOrder (order_request [cart_line 1 2, cart_line 1 1]) shop_world))))) = [ord] \<and>
          o_total_amount ord =
            (\<Sum>oi\<leftarrow>order_lines (o_id ord) (committed (conn (snd
               (createOrder (order_request [cart_line 1 2, cart_line 1 1]) shop_world)))).
               oi_unit_price oi * oi_quantity oi)) \<and>
   status (projr (fst (createOrder_ts (order_request [cart_line 1 2, cart_line 1 1]) shop_world)))
     = 201 \<and>
   committed (conn (snd
     (createOrder_ts (order_request [cart_line 1 2, cart_line 1 1]) shop_world))) =
   committed (conn (snd
     (createOrder (order_request [cart_line 1 2, cart_line 1 1]) shop_world)))"
proof -
  let ?req = "order_request [cart_line 1 2, cart_line 1 1]"
  have com: "Query COMMIT \<in> set (new_events shop_world (snd (createOrder ?req shop_world)))"
    by code_simp
  have answer: "fst (createOrder ?req shop_world) = Inr (reply 500 ''Failed to create order'')"
    by code_simp
  have fresh: "fresh_ids (conn shop_world)"
    by code_simp
  have rows: "orders (committed (conn (snd (createOrder ?req shop_world)))) =
     [\<lparr>o_id = 1, o_user_id = 7, o_total_amount = 3897, o_status = ''pending'',
       o_shipping_address = ''123 Test Street''\<rparr>]"
    by code_simp
  have lines: "order_lines 1 (committed (conn (snd (createOrder ?req shop_world)))) =
     [\<lparr>oi_id = 1, oi_order_id = 1, oi_product_id = 1, oi_unit_price = 1299, oi_quantity = 2\<rparr>,
      \<lparr>oi_id = 2, oi_order_id = 1, oi_product_id = 1, oi_unit_price = 1299, oi_quantity = 1\<rparr>]"
    by code_simp
  have ts: "status (projr (fst (createOrder_ts ?req shop_world))) = 201"
    by code_simp
  have same: "committed (conn (snd (createOrder_ts ?req shop_world))) =
      committed (conn (snd (createOrder ?req shop_world)))"
    by code_simp
  from recorded_total_is_sum_of_lines [of createOrder shop_world ?req, OF _ com fresh]
    com answer fresh rows lines ts same
  show ?thesis by blast
qed

lemma createOrder_never_created:
  "fst (createOrder req w) = Inr answer \<Longrightarrow> status answer \<noteq> 201"
proof -
  assume a: "fst (createOrder req w) = Inr answer"
  have run: "controller completeOrder (\<lambda>error. Inr (reply 500 ''Failed to create order'')) req w
      = (Inr answer, snd (createOrder req w))"
    using a by (simp add: createOrder_controller [symmetric] prod_eq_iff)
  from controller_cases [OF run reading_completeOrder]
  have "status answer \<noteq> 201 \<or> answer = reply 500 ''Failed to create order''"
    by (auto simp: completeOrder_eq)
  then show ?thesis by (auto simp: reply_def)
qed

text \<open>
  Claim C6. When the TypeScript \<open>createOrder\<close> answers 201, the order of the answer has
  the header that the store holds for the newly drawn order id after \<open>COMMIT\<close>, and under
  \<open>items\<close> the rows that the query of the lines gives on that store, in the order the
  connection returns them (the query has no \<open>ORDER BY\<close>): up to their order, one line per
  line of the cart with the product and quantity of that line, each with the subtotal
  \<open>unit_price * quantity\<close>. The \<open>total_amount\<close> of the header is the sum of the
  subtotals of the lines, and both queries come after \<open>COMMIT\<close> among the statements of
  the call. Amounts are exact here (see the first section). The compiled \<open>createOrder\<close>
  never answers 201: its query for the complete order is refused.
\<close>

theorem response_is_order_read_back:
  assumes "createOrder_ts req w = (Inr resp, w')" and "status resp = 201"
    and "fresh_ids (conn w)" and "unique_products (current (conn w))"
  shows "(\<exists>v header.
            order_json (json resp) = Some v \<and> ov_header v = Some header \<and>
            order_header_rows (orders_id_seq (conn w)) (committed (conn w')) = [header] \<and>
            hv_id header = orders_id_seq (conn w) \<and>
            ov_items v =
              select_order_items (row_order (conn w')) (orders_id_seq (conn w))
                (committed (conn w')) \<and>
            mset (ov_items v) =
              mset (order_items_join (orders_id_seq (conn w)) (committed (conn w'))) \<and>
            mset (map (\<lambda>line. (iv_product_id line, iv_quantity line)) (ov_items v)) =
              mset (map (\<lambda>item. (productId item, quantity item)) (items (body req))) \<and>
            (\<forall>line \<in> set (ov_items v).
               iv_subtotal line = iv_unit_price line * iv_quantity line) \<and>
            hv_total_amount header = (\<Sum>line\<leftarrow>ov_items v. iv_subtotal line) \<and>
            (\<exists>pre post. new_events w w' = pre @ Query COMMIT # post \<and>
               Query (SelectOrder (hv_id header)) \<in> set post \<and>
               Query (SelectOrderItems (hv_id header)) \<in> set post)) \<and>
         (\<forall>answer. fst (createOrder req w) = Inr answer \<longrightarrow> status answer \<noteq> 201)"
proof -
  let ?d = "current (conn w)"
  let ?oid = "orders_id_seq (conn w)"
  let ?lines = "concat (map (priced ?d) (items (body req)))"
  have run: "controller orderWithItems Inl req w = (Inr resp, w')"
    using assms(1) by (simp add: createOrder_ts_controller)
  from controller_cases [OF run reading_orderWithItems] assms(2)
  obtain userId d' pre mid post w4 qs where
    valid: "createOrderSchema (body req) = []"
    and pass: "\<forall>item \<in> set (items (body req)). in_stock ?d item"
    and wl: "write_lines (order_items_id_seq (conn w)) ?oid ?lines
        (?d\<lparr>orders := orders ?d @
              [\<lparr>o_id = ?oid, o_user_id = userId,
                o_total_amount = (\<Sum>i\<leftarrow>?lines. unitPrice i * quantity i),
                o_status = ''pending'',
                o_shipping_address = shippingAddress (body req)\<rparr>]\<rparr>) = Inr d'"
    and d': "committed (conn w') = d'" and settled: "working (conn w') = None"
    and w4: "conn w4 = conn w'"
    and r: "Inr resp = (case fst (orderWithItems ?oid w4) of
                    Inl e \<Rightarrow> Inl e
                  | Inr complete \<Rightarrow> Inr (created complete))"
    and events: "new_events w w' =
        Query BEGIN # map Query pre @ [Query COMMIT] @ mid @ map Query post @ [Release]"
    and qs: "trace (snd (orderWithItems ?oid w4)) = trace w4 @ map Query qs"
      "set qs \<subseteq> set post"
    by auto
  let ?ord = "\<lparr>o_id = ?oid, o_user_id = userId,
                o_total_amount = (\<Sum>i\<leftarrow>?lines. unitPrice i * quantity i),
                o_status = ''pending'', o_shipping_address = shippingAddress (body req)\<rparr>"
  let ?rows = "item_rows (order_items_id_seq (conn w)) ?oid ?lines"
  let ?header = "\<lparr>hv_id = ?oid,
                   hv_total_amount = (\<Sum>i\<leftarrow>?lines. unitPrice i * quantity i),
                   hv_status = ''pending'',
                   hv_shipping_address = shippingAddress (body req)\<rparr>"
  let ?views = "order_items_join ?oid d'"
  let ?items = "arrange (row_order (conn w4)) ?views"
  note f = write_lines_InrD [OF wl]
  have cur4: "current (conn w4) = d'"
    using w4 d' settled by (simp add: current_def)
  have old_orders: "\<forall>ord \<in> set (orders ?d). o_id ord < ?oid"
    and old_items: "\<forall>oi \<in> set (order_items ?d). oi_order_id oi < ?oid"
    using assms(3) by (simp_all add: fresh_ids_def)
  have "filter (\<lambda>ord. o_id ord = ?oid) (orders ?d) = []"
    using old_orders by (auto simp: filter_empty_conv)
  then have one: "filter (\<lambda>ord. o_id ord = ?oid) (orders d') = [?ord]"
    using f by simp
  then have header: "order_header_rows ?oid d' = [?header]"
    by (simp add: order_header_rows_def)
  have resp: "resp = created (Some \<lparr>ov_header = Some ?header, ov_items = ?items\<rparr>)"
    using r by (simp add: orderWithItems_eq cur4 header)
  have ol: "filter (\<lambda>oi. oi_order_id oi = ?oid) (order_items d') = ?rows"
    using f order_lines_new [OF old_items] by simp
  have cart: "list_all2
           (\<lambda>row item. oi_order_id row = ?oid \<and> oi_product_id row = productId item \<and>
              oi_quantity row = quantity item \<and>
              (\<exists>product others. select_product (productId item) ?d = Inr (product # others) \<and>
                 oi_unit_price row = p_price product))
           ?rows (items (body req))"
    by (rule item_rows_of_cart [OF pass])
  have ids: "distinct (map p_id (products d'))" "p_id ` set (products d') = p_id ` set (products ?d)"
    using f assms(4) by (simp_all add: unique_products_def flip: set_map)
  have known: "\<forall>row \<in> set ?rows. oi_product_id row \<in> p_id ` set (products d')"
    unfolding ids(2) by (rule item_rows_known [OF pass])
  have views: "list_all2
           (\<lambda>v row. iv_product_id v = oi_product_id row \<and>
              iv_unit_price v = oi_unit_price row \<and> iv_quantity v = oi_quantity row \<and>
              iv_subtotal v = oi_unit_price row * oi_quantity row)
           ?views ?rows"
    unfolding order_items_join_def ol by (rule join_rows [OF ids(1) known])
  have lines: "list_all2
             (\<lambda>line item. iv_product_id line = productId item \<and>
                iv_quantity line = quantity item \<and>
                iv_subtotal line = iv_unit_price line * iv_quantity line)
             ?views (items (body req))"
    by (rule list_all2_trans [OF _ views cart]) auto
  have "list_all2 (\<lambda>line item. (iv_product_id line, iv_quantity line) =
                    (productId item, quantity item)) ?views (items (body req))"
    by (rule list_all2_mono [OF lines]) simp
  then have "map (\<lambda>line. (iv_product_id line, iv_quantity line)) ?views =
      map (\<lambda>item. (productId item, quantity item)) (items (body req))"
    by (rule list_all2_map_eq)
  then have "mset (map (\<lambda>line. (iv_product_id line, iv_quantity line)) ?views) =
      mset (map (\<lambda>item. (productId item, quantity item)) (items (body req)))"
    by simp
  then have pairs: "mset (map (\<lambda>line. (iv_product_id line, iv_quantity line)) ?items) =
      mset (map (\<lambda>item. (productId item, quantity item)) (items (body req)))"
    by simp
  have "\<forall>line \<in> set ?views. iv_subtotal line = iv_unit_price line * iv_quantity line"
    using lines by (auto simp: list_all2_conv_all_nth in_set_conv_nth)
  then have subtotals: "\<forall>line \<in> set ?items.
      iv_subtotal line = iv_unit_price line * iv_quantity line"
    by simp
  have "(\<Sum>line\<leftarrow>?views. iv_subtotal line) =
      (\<Sum>row\<leftarrow>?rows. oi_unit_price row * oi_quantity row)"
    by (rule sum_list_all2) (rule list_all2_mono [OF views], simp)
  then have total: "hv_total_amount ?header = (\<Sum>line\<leftarrow>?items. iv_subtotal line)"
    by (simp add: sum_item_rows sum_list_arrange)
  have "map Query qs = [Query (SelectOrder ?oid), Query (SelectOrderItems ?oid)]"
    using qs(1) by (simp add: orderWithItems_eq)
  then have "qs = [SelectOrder ?oid, SelectOrderItems ?oid]"
    by auto
  with qs(2) have post: "SelectOrder ?oid \<in> set post" "SelectOrderItems ?oid \<in> set post"
    by simp_all
  have "new_events w w' =
      (Query BEGIN # map Query pre) @ Query COMMIT # (mid @ map Query post @ [Release])"
    using events by simp
  moreover have "Query (SelectOrder ?oid) \<in> set (mid @ map Query post @ [Release])"
    "Query (SelectOrderItems ?oid) \<in> set (mid @ map Query post @ [Release])"
    using post by simp_all
  ultimately have after: "\<exists>pre post. new_events w w' = pre @ Query COMMIT # post \<and>
      Query (SelectOrder (hv_id ?header)) \<in> set post \<and>
      Query (SelectOrderItems (hv_id ?header)) \<in> set post"
    by (metis header_view.select_convs(1))
  have first: "\<exists>v header.
            order_json (json resp) = Some v \<and> ov_header v = Some header \<and>
            order_header_rows ?oid (committed (conn w')) = [header] \<and>
            hv_id header = ?oid \<and>
            ov_items v = select_order_items (row_order (conn w')) ?oid (committed (conn w')) \<and>
            mset (ov_items v) = mset (order_items_join ?oid (committed (conn w'))) \<and>
            mset (map (\<lambda>line. (iv_product_id line, iv_quantity line)) (ov_items v)) =
              mset (map (\<lambda>item. (productId item, quantity item)) (items (body req))) \<and>
            (\<forall>line \<in> set (ov_items v).
               iv_subtotal line = iv_unit_price line * iv_quantity line) \<and>
            hv_total_amount header = (\<Sum>line\<leftarrow>ov_items v. iv_subtotal line) \<and>
            (\<exists>pre post. new_events w w' = pre @ Query COMMIT # post \<and>
               Query (SelectOrder (hv_id header)) \<in> set post \<and>
               Query (SelectOrderItems (hv_id header)) \<in> set post)"
  proof -
    let ?v = "\<lparr>ov_header = Some ?header, ov_items = ?items\<rparr>"
    have 1: "order_json (json resp) = Some ?v"
      using resp by (simp add: created_def)
    have 2: "ov_header ?v = Some ?header"
      by simp
    have 3: "order_header_rows ?oid (committed (conn w')) = [?header]"
      using header d' by simp
    have 4: "hv_id ?header = ?oid" by simp
    have 5: "mset (ov_items ?v) = mset (order_items_join ?oid (committed (conn w')))"
      using d' by simp
    have 9: "ov_items ?v = select_order_items (row_order (conn w')) ?oid (committed (conn w'))"
      using d' w4 by (simp add: select_order_items_def)
    have 6: "mset (map (\<lambda>line. (iv_product_id line, iv_quantity line)) (ov_items ?v)) =
        mset (map (\<lambda>item. (productId item, quantity item)) (items (body req)))"
      using pairs by simp
    have 7: "\<forall>line \<in> set (ov_items ?v).
        iv_subtotal line = iv_unit_price line * iv_quantity line"
      using subtotals by simp
    have 8: "hv_total_amount ?header = (\<Sum>line\<leftarrow>ov_items ?v. iv_subtotal line)"
      using total by simp
    from 1 2 3 4 9 5 6 7 8 after show ?thesis
      by (intro exI [of _ ?v] exI [of _ ?header] conjI)
  qed
  have "\<forall>answer. fst (createOrder req w) = Inr answer \<longrightarrow> status answer \<noteq> 201"
    by (blast dest: createOrder_never_created)
  with first show ?thesis by blast
qed

theorem response_is_order_read_back_witness:
  "fresh_ids (conn reversing_shop) \<and> unique_products (current (conn reversing_shop)) \<and>
   fst (createOrder_ts (order_request [cart_line 1 2, cart_line 1 1]) reversing_shop) =
     Inr \<lparr>status = 201,
          json = \<lparr>message = ''Order created successfully'', errors = None,
                  order_json = Some
                    \<lparr>ov_header = Some
                       \<lparr>hv_id = 1, hv_total_amount = 3897, hv_status = ''pending'',
                        hv_shipping_address = ''123 Test Street''\<rparr>,
                     ov_items =
                       [\<lparr>iv_id = 2, iv_product_id = 1, iv_product_name = ''Mug'',
                         iv_unit_price = 1299, iv_quantity = 1, iv_subtotal = 1299\<rparr>,
                        \<lparr>iv_id = 1, iv_product_id = 1, iv_product_name = ''Mug'',
                         iv_unit_price = 1299, iv_quantity = 2, iv_subtotal = 2598\<rparr>]\<rparr>\<rparr>\<rparr> \<and>
   order_items_join 1 (committed (conn (snd
     (createOrder_ts (order_request [cart_line 1 2, cart_line 1 1]) reversing_shop)))) =
     [\<lparr>iv_id = 1, iv_product_id = 1, iv_product_name = ''Mug'',
       iv_unit_price = 1299, iv_quantity = 2, iv_subtotal = 2598\<rparr>,
      \<lparr>iv_id = 2, iv_product_id = 1, iv_product_name = ''Mug'',
       iv_unit_price = 1299, iv_quantity = 1, iv_subtotal = 1299\<rparr>] \<and>
   (\<exists>v header.
      order_json (json (projr (fst
        (createOrder_ts (order_request [cart_line 1 2, cart_line 1 1]) reversing_shop)))) =
        Some v \<and>
      ov_header v = Some header \<and>
      mset (ov_items v) =
        mset (order_items_join (orders_id_seq (conn reversing_shop)) (committed (conn (snd
          (createOrder_ts (order_request [cart_line 1 2, cart_line 1 1]) reversing_shop))))) \<and>
      hv_total_amount header = (\<Sum>line\<leftarrow>ov_items v. iv_subtotal line)) \<and>
   fst (createOrder (order_request [cart_line 1 2, cart_line 1 1]) reversing_shop) =
     Inr (reply 500 ''Failed to create order'')"
proof -
  let ?req = "order_request [cart_line 1 2, cart_line 1 1]"
  let ?resp = "projr (fst (createOrder_ts ?req reversing_shop))"
  have answer: "fst (createOrder_ts ?req reversing_shop) =
     Inr \<lparr>status = 201,
          json = \<lparr>message = ''Order created successfully'', errors = None,
                  order_json = Some
                    \<lparr>ov_header = Some
                       \<lparr>hv_id = 1, hv_total_amount = 3897, hv_status = ''pending'',
                        hv_shipping_address = ''123 Test Street''\<rparr>,
                     ov_items =
                       [\<lparr>iv_id = 2, iv_product_id = 1, iv_product_name = ''Mug'',
                         iv_unit_price = 1299, iv_quantity = 1, iv_subtotal = 1299\<rparr>,
                        \<lparr>iv_id = 1, iv_product_id = 1, iv_product_name = ''Mug'',
                         iv_unit_price = 1299, iv_quantity = 2, iv_subtotal = 2598\<rparr>]\<rparr>\<rparr>\<rparr>"
    by code_simp
  then have run: "createOrder_ts ?req reversing_shop =
      (Inr ?resp, snd (createOrder_ts ?req reversing_shop))"
    by (simp add: prod_eq_iff)
  have created: "status ?resp = 201"
    using answer by simp
  have fresh: "fresh_ids (conn reversing_shop)"
    by code_simp
  have unique: "unique_products (current (conn reversing_shop))"
    by code_simp
  have stored: "order_items_join 1 (committed (conn (snd (createOrder_ts ?req reversing_shop)))) =
     [\<lparr>iv_id = 1, iv_product_id = 1, iv_product_name = ''Mug'',
       iv_unit_price = 1299, iv_quantity = 2, iv_subtotal = 2598\<rparr>,
      \<lparr>iv_id = 2, iv_product_id = 1, iv_product_name = ''Mug'',
       iv_unit_price = 1299, iv_quantity = 1, iv_subtotal = 1299\<rparr>]"
    by code_simp
  have compiled: "fst (createOrder ?req reversing_shop) =
      Inr (reply 500 ''Failed to create order'')"
    by code_simp
  from response_is_order_read_back [OF run created fresh unique]
  have "\<exists>v header.
      order_json (json ?resp) = Some v \<and> ov_header v = Some header \<and>
      mset (ov_items v) =
        mset (order_items_join (orders_id_seq (conn reversing_shop))
          (committed (conn (snd (createOrder_ts ?req reversing_shop))))) \<and>
      hv_total_amount header = (\<Sum>line\<leftarrow>ov_items v. iv_subtotal line)"
    by blast
  with answer fresh unique stored compiled show ?thesis by blast
qed

section \<open>Properties of the order placement: the order of events\<close>

lemma redis_after_commit:
  assumes "front @ Query COMMIT # rest = pre @ Redis cmd # post"
    and "\<forall>ev \<in> set front. \<forall>c. ev \<noteq> Redis c"
  shows "Query COMMIT \<in> set pre"
proof -
  from assms(1) obtain us where
    "front = pre @ us \<and> us @ Query COMMIT # rest = Redis cmd # post \<or>
     front @ us = pre \<and> Query COMMIT # rest = us @ Redis cmd # post"
    unfolding append_eq_append_conv2 by blast
  then show ?thesis
  proof
    assume a: "front = pre @ us \<and> us @ Query COMMIT # rest = Redis cmd # post"
    then show ?thesis
      using assms(2) by (cases us) auto
  next
    assume b: "front @ us = pre \<and> Query COMMIT # rest = us @ Redis cmd # post"
    then show ?thesis
      by (cases us) auto
  qed
qed

lemma controller_events:
  assumes rd: "reading read_back"
    and ev: "new_events w (snd (controller read_back outcome req w)) = pre @ Redis cmd # post"
  shows "Query COMMIT \<in> set pre"
proof -
  let ?w' = "snd (controller read_back outcome req w)"
  have run: "controller read_back outcome req w = (fst (controller read_back outcome req w), ?w')"
    by simp
  from controller_cases [OF run rd]
  consider (uncommitted) qs where "new_events w ?w' = map Query qs @ [Release]"
    | (committed) front mid rear where
      "new_events w ?w' = Query BEGIN # map Query front @ [Query COMMIT] @ mid @ map Query rear @ [Release]"
    by blast
  then show ?thesis
  proof cases
    case uncommitted
    with ev have "Redis cmd \<in> set (map Query qs @ [Release])"
      by (metis in_set_conv_decomp)
    then show ?thesis by auto
  next
    case committed
    with ev have "(Query BEGIN # map Query front) @ Query COMMIT # (mid @ map Query rear @ [Release])
        = pre @ Redis cmd # post"
      by simp
    then show ?thesis
      by (rule redis_after_commit) auto
  qed
qed

section \<open>Properties of the order placement: independence of the cache\<close>

lemma store_only_return: "store_only (return_io a)"
  by (simp add: store_only_def return_io_def)

lemma store_only_bind:
  assumes "store_only m" and "\<And>a. store_only (f a)"
  shows "store_only (bind_io m f)"
  unfolding store_only_def
proof (intro allI impI)
  fix w1 w2 :: world
  assume c: "conn w1 = conn w2"
  obtain r1 v1 where m1: "m w1 = (r1, v1)" by (cases "m w1")
  obtain r2 v2 where m2: "m w2 = (r2, v2)" by (cases "m w2")
  from assms(1) c have "fst (m w1) = fst (m w2) \<and> conn (snd (m w1)) = conn (snd (m w2))"
    unfolding store_only_def by blast
  with m1 m2 have same: "conn v1 = conn v2" and m2': "m w2 = (r1, v2)"
    by simp_all
  show "fst (bind_io m f w1) = fst (bind_io m f w2) \<and>
        conn (snd (bind_io m f w1)) = conn (snd (bind_io m f w2))"
  proof (cases r1)
    case (Inl e)
    with m1 m2' same show ?thesis by (simp add: bind_io_def)
  next
    case (Inr a)
    from assms(2) [of a] same
    have "fst (f a v1) = fst (f a v2) \<and> conn (snd (f a v1)) = conn (snd (f a v2))"
      unfolding store_only_def by blast
    with Inr m1 m2' show ?thesis by (simp add: bind_io_def)
  qed
qed

lemma store_only_try_catch:
  assumes "store_only m" and "\<And>e. store_only (h e)"
  shows "store_only (try_catch m h)"
  unfolding store_only_def
proof (intro allI impI)
  fix w1 w2 :: world
  assume c: "conn w1 = conn w2"
  obtain r1 v1 where m1: "m w1 = (r1, v1)" by (cases "m w1")
  obtain r2 v2 where m2: "m w2 = (r2, v2)" by (cases "m w2")
  from assms(1) c have "fst (m w1) = fst (m w2) \<and> conn (snd (m w1)) = conn (snd (m w2))"
    unfolding store_only_def by blast
  with m1 m2 have same: "conn v1 = conn v2" and m2': "m w2 = (r1, v2)"
    by simp_all
  show "fst (try_catch m h w1) = fst (try_catch m h w2) \<and>
        conn (snd (try_catch m h w1)) = conn (snd (try_catch m h w2))"
  proof (cases r1)
    case (Inr a)
    with m1 m2' same show ?thesis by (simp add: try_catch_def)
  next
    case (Inl e)
    from assms(2) [of e] same
    have "fst (h e v1) = fst (h e v2) \<and> conn (snd (h e v1)) = conn (snd (h e v2))"
      unfolding store_only_def by blast
    with Inl m1 m2' show ?thesis by (simp add: try_catch_def)
  qed
qed

lemma store_only_client_query: "store_only (client_query q f)"
  unfolding store_only_def
  by (auto simp: client_query_cases split: sum.splits prod.splits)

lemma store_only_client_control: "store_only (client_control q f)"
  unfolding store_only_def by (simp add: client_control_def)

lemma store_only_insert_order: "store_only (query_insert_order uid t st addr)"
  unfolding store_only_def
  by (auto simp: query_insert_order_def refused_eq client_query_cases
      split: sum.splits prod.splits)

lemma store_only_insert_order_item: "store_only (query_insert_order_item oid pid up qty)"
  unfolding store_only_def
  by (auto simp: query_insert_order_item_def refused_eq client_query_cases
      split: sum.splits prod.splits)

lemma store_only_update_stock: "store_only (query_update_stock qty pid)"
  by (simp add: query_update_stock_def refused_def store_only_client_query)

lemma store_only_basic:
  "store_only query_begin" "store_only query_commit" "store_only query_rollback"
  "store_only (query_product pid)" "store_only (query_complete_order oid)"
  by (simp_all add: query_begin_def query_commit_def query_rollback_def query_product_def
      query_complete_order_def store_only_client_query store_only_client_control)

lemma store_only_invalidateProductCache: "store_only invalidateProductCache"
  unfolding store_only_def
proof (intro allI impI)
  fix w1 w2 :: world
  assume "conn w1 = conn w2"
  with invalidateProductCache_effect [of w1] invalidateProductCache_effect [of w2]
  show "fst (invalidateProductCache w1) = fst (invalidateProductCache w2) \<and>
        conn (snd (invalidateProductCache w1)) = conn (snd (invalidateProductCache w2))"
    by auto
qed

lemma store_only_stock_loop: "store_only (stock_loop its t acc)"
proof (induction its arbitrary: t acc)
  case Nil
  then show ?case by (simp add: store_only_return)
next
  case (Cons item rest)
  show ?case
    unfolding stock_loop.simps
    by (intro store_only_bind store_only_basic)
       (auto split: list.splits intro!: store_only_bind store_only_basic
          store_only_return Cons.IH)
qed

lemma store_only_write_loop: "store_only (write_loop oid its)"
proof (induction its)
  case Nil
  then show ?case by (simp add: store_only_return)
next
  case (Cons item rest)
  show ?case
    unfolding write_loop.simps
    by (intro store_only_bind store_only_update_stock store_only_insert_order_item Cons.IH)
qed

lemma store_onlyD:
  "store_only m \<Longrightarrow> conn w1 = conn w2 \<Longrightarrow>
   fst (m w1) = fst (m w2) \<and> conn (snd (m w1)) = conn (snd (m w2))"
  unfolding store_only_def by blast

lemma store_only_place: "store_only (place userId b)"
  unfolding place_def
proof (intro store_only_bind store_only_stock_loop)
  fix checked :: "response + money \<times> order_item list"
  show "store_only (case checked of Inl early \<Rightarrow> return_io (Inl early)
       | Inr (totalAmount, orderItems) \<Rightarrow>
           bind_io (query_insert_order userId totalAmount ''pending'' (shippingAddress b))
             (\<lambda>order.
           bind_io (write_loop (o_id order) orderItems) (\<lambda>_.
           bind_io query_commit (\<lambda>_.
           bind_io invalidateProductCache (\<lambda>_.
           return_io (Inr order))))))"
  proof (cases checked)
    case (Inl early)
    then show ?thesis by (simp add: store_only_return)
  next
    case (Inr p)
    obtain totalAmount orderItems where p: "p = (totalAmount, orderItems)" by (cases p)
    show ?thesis
      unfolding Inr p sum.case prod.case
      by (intro store_only_bind store_only_insert_order store_only_write_loop
          store_only_invalidateProductCache store_only_basic store_only_return)
  qed
qed

lemma store_only_createOrder_try:
  assumes "\<And>oid. store_only (read_back oid)"
  shows "store_only (createOrder_try read_back req)"
  unfolding createOrder_try_def
  by (intro store_only_bind store_only_basic)
     (auto split: option.splits sum.splits
        intro!: store_only_return store_only_bind store_only_place assms)

lemma store_only_controller:
  assumes "\<And>oid. store_only (read_back oid)"
  shows "store_only (controller read_back outcome req)"
proof -
  have "store_only (\<lambda>w'. (outcome error, w'))" for error
    by (simp add: store_only_def)
  then have inner: "store_only (try_catch (createOrder_try read_back req)
             (\<lambda>error. bind_io query_rollback (\<lambda>_ w'. (outcome error, w'))))"
    by (intro store_only_try_catch store_only_createOrder_try store_only_bind store_only_basic
        assms)
  show ?thesis
    unfolding store_only_def
  proof (intro allI impI)
    fix w1 w2 :: world
    assume "conn w1 = conn w2"
    from store_onlyD [OF inner this]
    show "fst (controller read_back outcome req w1) = fst (controller read_back outcome req w2) \<and>
          conn (snd (controller read_back outcome req w1)) =
            conn (snd (controller read_back outcome req w2))"
      by (simp add: controller_def case_prod_unfold)
  qed
qed

lemma store_only_completeOrder: "store_only (completeOrder oid)"
  by (simp add: store_only_def completeOrder_eq)

lemma store_only_orderWithItems: "store_only (orderWithItems oid)"
  by (simp add: store_only_def orderWithItems_eq)

lemma handler_store_only:
  assumes "handler = createOrder \<or> handler = createOrder_ts"
  shows "store_only (handler req)"
  using assms
  by (auto simp: createOrder_controller createOrder_ts_controller
      intro!: store_only_controller store_only_completeOrder store_only_orderWithItems)

text \<open>
  Claim C7. In every call of \<open>createOrder\<close>, of the compiled controller and of the
  TypeScript controller alike, a command sent to Redis (the invalidation of the cache)
  comes after a \<open>COMMIT\<close> of the same call. The invalidation never throws and leaves the
  connection as it is. And the outcome of the call (its answer, or the error it throws)
  and the connection it leaves, hence the committed store, are the same for every state
  of the Redis server, whichever of its commands fail: a failure of the invalidation
  changes neither the order nor the answer. (Writing to the log is not modelled.)
\<close>

theorem invalidation_follows_commit_and_is_swallowed:
  assumes "handler = createOrder \<or> handler = createOrder_ts"
  shows "(\<forall>pre cmd post. new_events w (snd (handler req w)) = pre @ Redis cmd # post \<longrightarrow>
            Query COMMIT \<in> set pre) \<and>
         (\<exists>w'. invalidateProductCache w = (Inr (), w') \<and> conn w' = conn w) \<and>
         (\<forall>r. fst (handler req (w\<lparr>redis := r\<rparr>)) = fst (handler req w) \<and>
              conn (snd (handler req (w\<lparr>redis := r\<rparr>))) = conn (snd (handler req w)))"
proof -
  from assms obtain read_back outcome where
    h: "handler = controller read_back outcome" and rd: "reading read_back"
    by (rule handler_cases)
  have "fst (handler req (w\<lparr>redis := r\<rparr>)) = fst (handler req w) \<and>
        conn (snd (handler req (w\<lparr>redis := r\<rparr>))) = conn (snd (handler req w))"
    for r
    by (rule store_onlyD [OF handler_store_only [OF assms]]) simp
  then have independent: "\<forall>r. fst (handler req (w\<lparr>redis := r\<rparr>)) = fst (handler req w) \<and>
        conn (snd (handler req (w\<lparr>redis := r\<rparr>))) = conn (snd (handler req w))"
    by blast
  have ordered: "\<forall>pre cmd post.
      new_events w (snd (handler req w)) = pre @ Redis cmd # post \<longrightarrow>
      Query COMMIT \<in> set pre"
    unfolding h by (blast intro: controller_events [OF rd])
  have swallowed: "\<exists>w'. invalidateProductCache w = (Inr (), w') \<and> conn w' = conn w"
    using invalidateProductCache_effect [of w] by blast
  from ordered swallowed independent show ?thesis by (intro conjI)
qed

theorem invalidation_follows_commit_and_is_swallowed_witness:
  "new_events shop_world (snd (createOrder (order_request [cart_line 1 2]) shop_world)) =
     [Query BEGIN, Query (SelectProduct 1),
      Query (InsertOrder 7 2598 ''pending'' ''123 Test Street''),
      Query (InsertOrderItem 1 1 1299 2), Query (UpdateStock 2 1), Query COMMIT] @
     Redis (Keys ''products:*'') #
     [Query (SelectCompleteOrder 1), Query ROLLBACK, Release] \<and>
   Query COMMIT \<in> set [Query BEGIN, Query (SelectProduct 1),
      Query (InsertOrder 7 2598 ''pending'' ''123 Test Street''),
      Query (InsertOrderItem 1 1 1299 2), Query (UpdateStock 2 1), Query COMMIT] \<and>
   fst (createOrder (order_request [cart_line 1 2]) shop_world) =
     Inr (reply 500 ''Failed to create order'') \<and>
   fst (createOrder (order_request [cart_line 1 2]) (shop_world\<lparr>redis := redis_down\<rparr>)) =
     fst (createOrder (order_request [cart_line 1 2]) shop_world) \<and>
   conn (snd (createOrder (order_request [cart_line 1 2]) (shop_world\<lparr>redis := redis_down\<rparr>))) =
     conn (snd (createOrder (order_request [cart_line 1 2]) shop_world)) \<and>
   new_events shop_world (snd (createOrder_ts (order_request [cart_line 1 2]) shop_world)) =
     [Query BEGIN, Query (SelectProduct 1),
      Query (InsertOrder 7 2598 ''pending'' ''123 Test Street''),
      Query (InsertOrderItem 1 1 1299 2), Query (UpdateStock 2 1), Query COMMIT] @
     Redis (Keys ''products:*'') #
     [Query (SelectOrder 1), Query (SelectOrderItems 1), Release] \<and>
   status (projr (fst (createOrder_ts (order_request [cart_line 1 2])
     (shop_world\<lparr>redis := redis_down\<rparr>)))) = 201 \<and>
   fst (createOrder_ts (order_request [cart_line 1 2]) (shop_world\<lparr>redis := redis_down\<rparr>)) =
     fst (createOrder_ts (order_request [cart_line 1 2]) shop_world) \<and>
   conn (snd (createOrder_ts (order_request [cart_line 1 2]) (shop_world\<lparr>redis := redis_down\<rparr>))) =
     conn (snd (createOrder_ts (order_request [cart_line 1 2]) shop_world))"
proof -
  let ?req = "order_request [cart_line 1 2]"
  have events: "new_events shop_world (snd (createOrder ?req shop_world)) =
     [Query BEGIN, Query (SelectProduct 1),
      Query (InsertOrder 7 2598 ''pending'' ''123 Test Street''),
      Query (InsertOrderItem 1 1 1299 2), Query (UpdateStock 2 1), Query COMMIT] @
     Redis (Keys ''products:*'') #
     [Query (SelectCompleteOrder 1), Query ROLLBACK, Release]"
    by code_simp
  have events_ts: "new_events shop_world (snd (createOrder_ts ?req shop_world)) =
     [Query BEGIN, Query (SelectProduct 1),
      Query (InsertOrder 7 2598 ''pending'' ''123 Test Street''),
      Query (InsertOrderItem 1 1 1299 2), Query (UpdateStock 2 1), Query COMMIT] @
     Redis (Keys ''products:*'') #
     [Query (SelectOrder 1), Query (SelectOrderItems 1), Release]"
    by code_simp
  have answer: "fst (createOrder ?req shop_world) = Inr (reply 500 ''Failed to create order'')"
    by code_simp
  have created: "status (projr (fst (createOrder_ts ?req (shop_world\<lparr>redis := redis_down\<rparr>)))) = 201"
    by code_simp
  note t = invalidation_follows_commit_and_is_swallowed [of createOrder shop_world ?req]
  note u = invalidation_follows_commit_and_is_swallowed [of createOrder_ts shop_world ?req]
  from t have a: "fst (createOrder ?req (shop_world\<lparr>redis := redis_down\<rparr>)) =
      fst (createOrder ?req shop_world) \<and>
    conn (snd (createOrder ?req (shop_world\<lparr>redis := redis_down\<rparr>))) =
      conn (snd (createOrder ?req shop_world))"
    by blast
  from u have b: "fst (createOrder_ts ?req (shop_world\<lparr>redis := redis_down\<rparr>)) =
      fst (createOrder_ts ?req shop_world) \<and>
    conn (snd (createOrder_ts ?req (shop_world\<lparr>redis := redis_down\<rparr>))) =
      conn (snd (createOrder_ts ?req shop_world))"
    by blast
  from events events_ts answer created a b show ?thesis by simp
qed

section \<open>Properties of the listing after an order\<close>

lemma glob_match_star: "glob_match ''*'' s"
  by (induction s) simp_all

lemma glob_match_products: "glob_match ''products:*'' (''products:'' @ s)"
  using glob_match_star [of s] by (cases s) simp_all

lemma cacheKey_in_namespace: "glob_match ''products:*'' (cacheKey q)"
  unfolding cacheKey_def by (simp only: append_assoc glob_match_products)

lemma products_route_miss:
  assumes "map_of (entries (redis w)) (cacheKey q) = None"
  shows "fst (products_route q w) = Inr (listing_answer (fetch_listing q (conn w)))"
  using assms
  by (cases "fetch_listing q (conn w)")
     (simp_all add: products_route_def cache_get_def cache_get_try_def cache_set_def
        try_catch_def bind_io_def return_io_def redis_get_def redis_setex_def redis_call_cases
        redis_apply_def query_listing_def listing_answer_def)

text \<open>
  Claim C8, as amended. Every key the listing route uses matches \<open>products:*\<close>. When a
  call of \<open>createOrder\<close> (of either controller) has issued \<open>COMMIT\<close> and Redis serves the
  commands \<open>KEYS\<close> and \<open>DEL\<close> of the invalidation, no entry with such a key is left after
  the call, and a listing request that follows is answered as its queries on the store
  decide, whatever the cache held before: with the page they give, or with 500 if the
  store refuses them (for a page whose offset is a safe integer).
\<close>

theorem listing_after_invalidation_reads_store:
  assumes "handler = createOrder \<or> handler = createOrder_ts"
    and "Query COMMIT \<in> set (new_events w (snd (handler req w)))"
    and "\<not> failing (redis w) (Keys ''products:*'')"
    and "\<forall>ks. \<not> failing (redis w) (Del ks)"
    and "safe_integer ((page_of q - 1) * limit_of q)"
  shows "glob_match ''products:*'' (cacheKey q) \<and>
         (\<forall>e \<in> set (entries (redis (snd (handler req w)))).
            \<not> glob_match ''products:*'' (fst e)) \<and>
         map_of (entries (redis (snd (handler req w)))) (cacheKey q) = None \<and>
         fst (products_route q (snd (handler req w))) =
           Inr (listing_answer (fetch_listing q (conn (snd (handler req w)))))"
proof -
  let ?w' = "snd (handler req w)"
  from assms(1) obtain read_back outcome where
    h: "handler = controller read_back outcome" and rd: "reading read_back"
    by (rule handler_cases)
  have run: "controller read_back outcome req w = (fst (handler req w), ?w')"
    by (simp add: h)
  have com: "committing w ?w'"
    using assms(2) by (simp add: committing_def)
  from controller_cases [OF run rd] com obtain wc where
    wc: "redis wc = redis w" "redis ?w' = redis (snd (invalidateProductCache wc))"
    by blast
  from invalidateProductCache_effect [of wc] assms(3,4) wc
  have "entries (redis ?w') =
      filter (\<lambda>e. \<not> glob_match ''products:*'' (fst e)) (entries (redis w))"
    by (auto simp del: glob_match.simps)
  then have gone: "\<forall>e \<in> set (entries (redis ?w')). \<not> glob_match ''products:*'' (fst e)"
    by (simp del: glob_match.simps)
  have "cacheKey q \<notin> fst ` set (entries (redis ?w'))"
    using gone cacheKey_in_namespace [of q] by (auto simp del: glob_match.simps)
  then have none: "map_of (entries (redis ?w')) (cacheKey q) = None"
    by (simp add: map_of_eq_None_iff)
  from products_route_miss [OF none] gone none cacheKey_in_namespace [of q]
  show ?thesis by (simp del: glob_match.simps)
qed

theorem listing_after_invalidation_reads_store_witness:
  "Query COMMIT \<in> set (new_events (listed redis_up) (sold createOrder_ts redis_up)) \<and>
   \<not> failing (redis (listed redis_up)) (Keys ''products:*'') \<and>
   (\<forall>ks. \<not> failing (redis (listed redis_up)) (Del ks)) \<and>
   safe_integer ((page_of first_page - 1) * limit_of first_page) \<and>
   map fst (entries (redis (listed redis_up))) = [''products:1:12:all:none''] \<and>
   status (projr (fst (createOrder_ts (order_request [cart_line 1 2]) (listed redis_up)))) = 201 \<and>
   entries (redis (sold createOrder_ts redis_up)) = [] \<and>
   fst (products_route first_page (sold createOrder_ts redis_up)) =
     Inr (Page \<lparr>l_items = [shirt, mug\<lparr>p_stock_quantity := 3\<rparr>],
                l_page = 1, l_limit = 12, l_total = 2\<rparr>) \<and>
   page_stock (fst (products_route first_page (listed redis_up))) = [0, 5] \<and>
   page_stock (fst (products_route first_page (sold createOrder_ts redis_up))) = [0, 3]"
proof -
  let ?req = "order_request [cart_line 1 2]"
  have com: "Query COMMIT \<in> set (new_events (listed redis_up)
      (snd (createOrder_ts ?req (listed redis_up))))"
    by code_simp
  have created: "status (projr (fst (createOrder_ts ?req (listed redis_up)))) = 201"
    by code_simp
  have up: "failing (redis (listed redis_up)) = (\<lambda>cmd. False)"
    by (simp add: listed_def products_route_def cache_get_def cache_get_try_def cache_set_def
        try_catch_def bind_io_def return_io_def redis_get_def redis_setex_def redis_call_cases
        redis_apply_def shop_world_def redis_up_def query_listing_def split: sum.splits)
  have safe: "safe_integer ((page_of first_page - 1) * limit_of first_page)"
    by (simp add: safe_integer_def page_of_def limit_of_def first_page_def)
  have keys: "map fst (entries (redis (listed redis_up))) = [''products:1:12:all:none'']"
    by code_simp
  have gone: "entries (redis (sold createOrder_ts redis_up)) = []"
    by code_simp
  have page: "listing_answer (fetch_listing first_page (conn (sold createOrder_ts redis_up))) =
      Page \<lparr>l_items = [shirt, mug\<lparr>p_stock_quantity := 3\<rparr>],
             l_page = 1, l_limit = 12, l_total = 2\<rparr>"
    by code_simp
  have before: "page_stock (fst (products_route first_page (listed redis_up))) = [0, 5]"
    by code_simp
  have after: "page_stock (fst (products_route first_page (sold createOrder_ts redis_up))) = [0, 3]"
    by code_simp
  from listing_after_invalidation_reads_store
    [of createOrder_ts "listed redis_up" ?req first_page, OF _ com _ _ safe] up
  have "fst (products_route first_page (sold createOrder_ts redis_up)) =
     Inr (listing_answer (fetch_listing first_page (conn (sold createOrder_ts redis_up))))"
    by (simp add: sold_def)
  with page have "fst (products_route first_page (sold createOrder_ts redis_up)) =
     Inr (Page \<lparr>l_items = [shirt, mug\<lparr>p_stock_quantity := 3\<rparr>],
                l_page = 1, l_limit = 12, l_total = 2\<rparr>)"
    by simp
  with com up safe created keys gone before after show ?thesis by (simp add: sold_def)
qed

text \<open>
  The claim as stated fails when the invalidation fails, which \<open>createOrder\<close> tolerates:
  with a Redis server that refuses \<open>KEYS\<close>, the page cached before the order is still
  served after the order is committed, with 5 mugs in stock where the store has 3. This
  holds of both controllers; the TypeScript one answers 201, the compiled one 500 (its
  reading of the complete order fails after \<open>COMMIT\<close>).
\<close>

theorem stale_listing_after_failed_invalidation_counterexample:
  "status (projr (fst (createOrder_ts (order_request [cart_line 1 2])
      (listed redis_without_keys)))) = 201 \<and>
   Query COMMIT \<in> set (new_events (listed redis_without_keys)
      (sold createOrder_ts redis_without_keys)) \<and>
   map p_stock_quantity (products (committed (conn (sold createOrder_ts redis_without_keys))))
     = [3, 0] \<and>
   map fst (entries (redis (sold createOrder_ts redis_without_keys))) =
     [''products:1:12:all:none''] \<and>
   page_stock (fst (products_route first_page (sold createOrder_ts redis_without_keys))) = [0, 5] \<and>
   Query COMMIT \<in> set (new_events (listed redis_without_keys)
      (sold createOrder redis_without_keys)) \<and>
   map p_stock_quantity (products (committed (conn (sold createOrder redis_without_keys))))
     = [3, 0] \<and>
   page_stock (fst (products_route first_page (sold createOrder redis_without_keys))) = [0, 5]"
  by code_simp

section \<open>The stock after a placed order\<close>

lemma update_stock_InrD:
  assumes "update_stock qty pid d = Inr d'"
  shows "products d' =
           map (\<lambda>p. if p_id p = pid then p\<lparr>p_stock_quantity := p_stock_quantity p - qty\<rparr>
                     else p) (products d)"
    and "\<forall>p \<in> set (products d). p_id p = pid \<longrightarrow> 0 \<le> p_stock_quantity p - qty"
  using assms by (auto simp: update_stock_def split: if_splits)

lemma write_lines_stock:
  assumes "write_lines n oid its d = Inr d'"
  shows "map p_id (products d') = map p_id (products d) \<and>
         map p_stock_quantity (products d') =
           map (\<lambda>p. p_stock_quantity p -
                  (\<Sum>item\<leftarrow>its. if productId item = p_id p then quantity item else 0))
               (products d) \<and>
         ((\<forall>p \<in> set (products d). 0 \<le> p_stock_quantity p) \<longrightarrow>
          (\<forall>p \<in> set (products d'). 0 \<le> p_stock_quantity p))"
  using assms
proof (induction its arbitrary: n d)
  case Nil
  then show ?case by simp
next
  case (Cons item rest)
  from Cons.prems obtain d1 d2 where
    ins: "insert_order_item n oid (productId item) (unitPrice item) (quantity item) d = Inr d1"
    and upd: "update_stock (quantity item) (productId item) d1 = Inr d2"
    and rest: "write_lines (n + 1) oid rest d2 = Inr d'"
    by (auto split: sum.splits)
  from ins have d1: "products d1 = products d"
    by (auto simp: insert_order_item_def split: if_splits)
  note u = update_stock_InrD [OF upd]
  have ids2: "map p_id (products d2) = map p_id (products d)"
    using u(1) d1 by (simp add: o_def if_distrib [of p_id] cong: if_cong)
  have stock2: "map p_stock_quantity (products d2) =
      map (\<lambda>p. p_stock_quantity p - (if productId item = p_id p then quantity item else 0))
        (products d)"
    using u(1) d1 by (auto simp: o_def)
  have nonneg2: "(\<forall>p \<in> set (products d). 0 \<le> p_stock_quantity p) \<longrightarrow>
      (\<forall>p \<in> set (products d2). 0 \<le> p_stock_quantity p)"
    using u d1 by auto
  note r = Cons.IH [OF rest]
  have "length (map p_id (products d2)) = length (map p_id (products d))"
    by (simp only: ids2)
  then have len: "length (products d2) = length (products d)"
    by simp
  from r have "length (map p_id (products d')) = length (map p_id (products d2))"
    by simp
  then have len': "length (products d') = length (products d2)"
    by simp
  have "map p_stock_quantity (products d') =
      map (\<lambda>p. p_stock_quantity p -
             (\<Sum>i\<leftarrow>item # rest. if productId i = p_id p then quantity i else 0))
          (products d)"
  proof (rule nth_equalityI)
    show "length (map p_stock_quantity (products d')) =
        length (map (\<lambda>p. p_stock_quantity p -
             (\<Sum>i\<leftarrow>item # rest. if productId i = p_id p then quantity i else 0))
          (products d))"
      using len len' by simp
  next
    fix i assume "i < length (map p_stock_quantity (products d'))"
    then have i: "i < length (products d2)" "i < length (products d)"
      using len len' by simp_all
    have "map p_stock_quantity (products d') ! i =
        p_stock_quantity (products d2 ! i) -
          (\<Sum>it\<leftarrow>rest. if productId it = p_id (products d2 ! i) then quantity it else 0)"
      using r i by simp
    moreover have "p_id (products d2 ! i) = p_id (products d ! i)"
    proof -
      have "map p_id (products d2) ! i = map p_id (products d) ! i"
        by (simp only: ids2)
      then show ?thesis using i by simp
    qed
    moreover have "p_stock_quantity (products d2 ! i) =
        p_stock_quantity (products d ! i) -
          (if productId item = p_id (products d ! i) then quantity item else 0)"
    proof -
      have "map p_stock_quantity (products d2) ! i =
          map (\<lambda>p. p_stock_quantity p -
                 (if productId item = p_id p then quantity item else 0)) (products d) ! i"
        by (simp only: stock2)
      then show ?thesis using i by simp
    qed
    ultimately show "map p_stock_quantity (products d') ! i =
        map (\<lambda>p. p_stock_quantity p -
               (\<Sum>i\<leftarrow>item # rest. if productId i = p_id p then quantity i else 0))
            (products d) ! i"
      using i by simp
  qed
  note stock = this
  have ids: "map p_id (products d') = map p_id (products d)"
    using r ids2 by (simp only:)
  have nonneg: "(\<forall>p \<in> set (products d). 0 \<le> p_stock_quantity p) \<longrightarrow>
      (\<forall>p \<in> set (products d'). 0 \<le> p_stock_quantity p)"
    using r nonneg2 by blast
  from ids stock nonneg show ?case by (intro conjI)
qed

lemma priced_quantities:
  assumes "\<forall>item \<in> set its. in_stock d item"
  shows "(\<Sum>l\<leftarrow>concat (map (priced d) its). if productId l = pid then quantity l else 0) =
         (\<Sum>item\<leftarrow>its. if productId item = pid then quantity item else 0)"
  using assms
proof (induction its)
  case Nil
  then show ?case by simp
next
  case (Cons item rest)
  then obtain product others where
    "select_product (productId item) d = Inr (product # others)"
    by (auto elim: in_stock_row)
  with Cons show ?case by (simp add: priced_def)
qed


lemma controller_decrements_stock:
  assumes run: "controller read_back outcome req w = (r, w')" and rd: "reading read_back"
    and com: "committing w w'"
  shows "map p_id (products (committed (conn w'))) = map p_id (products (current (conn w))) \<and>
         map p_stock_quantity (products (committed (conn w'))) =
           map (\<lambda>p. p_stock_quantity p -
                  (\<Sum>item\<leftarrow>items (body req).
                     if productId item = p_id p then quantity item else 0))
               (products (current (conn w))) \<and>
         ((\<forall>p \<in> set (products (current (conn w))). 0 \<le> p_stock_quantity p) \<longrightarrow>
          (\<forall>p \<in> set (products (committed (conn w'))). 0 \<le> p_stock_quantity p)) \<and>
         working (conn w') = None"
proof -
  let ?d = "current (conn w)"
  let ?lines = "concat (map (priced ?d) (items (body req)))"
  from controller_cases [OF run rd] com obtain userId d' where
    pass: "\<forall>item \<in> set (items (body req)). in_stock ?d item"
    and wl: "write_lines (order_items_id_seq (conn w)) (orders_id_seq (conn w)) ?lines
        (?d\<lparr>orders := orders ?d @
              [\<lparr>o_id = orders_id_seq (conn w), o_user_id = userId,
                o_total_amount = (\<Sum>i\<leftarrow>?lines. unitPrice i * quantity i),
                o_status = ''pending'',
                o_shipping_address = shippingAddress (body req)\<rparr>]\<rparr>) = Inr d'"
    and d': "committed (conn w') = d'" and settled: "working (conn w') = None"
    by blast
  from write_lines_stock [OF wl] settled show ?thesis
    unfolding d' by (simp add: priced_quantities [OF pass])
qed

section \<open>All or nothing\<close>

lemma controller_atomic:
  assumes run: "controller read_back outcome req w = (r, w')" and rd: "reading read_back"
    and failed: "\<not> committing w w'"
  shows "committed (conn w') = committed (conn w) \<and>
         (working (conn w') = None \<or> working (conn w') = Some (current (conn w)))"
  using controller_cases [OF run rd] failed by blast

section \<open>Calls one after the other\<close>

lemma stock_compose:
  assumes ids1: "map p_id between = map p_id before"
    and st1: "map p_stock_quantity between = map (\<lambda>p. p_stock_quantity p - f (p_id p)) before"
    and ids2: "map p_id after = map p_id between"
    and st2: "map p_stock_quantity after = map (\<lambda>p. p_stock_quantity p - g (p_id p)) between"
  shows "map p_stock_quantity after =
         map (\<lambda>p. p_stock_quantity p - (f (p_id p) + g (p_id p))) before"
proof (rule nth_equalityI)
  have "length (map p_id between) = length (map p_id before)" by (simp only: ids1)
  then have l1: "length between = length before" by simp
  have "length (map p_id after) = length (map p_id between)" by (simp only: ids2)
  then have l2: "length after = length between" by simp
  show "length (map p_stock_quantity after) =
      length (map (\<lambda>p. p_stock_quantity p - (f (p_id p) + g (p_id p))) before)"
    using l1 l2 by simp
  fix i assume "i < length (map p_stock_quantity after)"
  then have i: "i < length after" "i < length between" "i < length before"
    using l1 l2 by simp_all
  have "map p_id between ! i = map p_id before ! i" by (simp only: ids1)
  then have a: "p_id (between ! i) = p_id (before ! i)" using i by simp
  have "map p_stock_quantity between ! i = map (\<lambda>p. p_stock_quantity p - f (p_id p)) before ! i"
    by (simp only: st1)
  then have b: "p_stock_quantity (between ! i) = p_stock_quantity (before ! i) - f (p_id (before ! i))"
    using i by simp
  have "map p_stock_quantity after ! i = map (\<lambda>p. p_stock_quantity p - g (p_id p)) between ! i"
    by (simp only: st2)
  then have c: "p_stock_quantity (after ! i) = p_stock_quantity (between ! i) - g (p_id (between ! i))"
    using i by simp
  show "map p_stock_quantity after ! i =
      map (\<lambda>p. p_stock_quantity p - (f (p_id p) + g (p_id p))) before ! i"
    using a b c i by simp
qed


lemma controller_step:
  assumes settled: "current (conn w) = committed (conn w)"
    and run: "controller read_back outcome req w = (r, w')" and rd: "reading read_back"
  shows "current (conn w') = committed (conn w') \<and>
         map p_id (products (committed (conn w'))) = map p_id (products (committed (conn w))) \<and>
         map p_stock_quantity (products (committed (conn w'))) =
           map (\<lambda>p. p_stock_quantity p -
                  (if committing w w' then ordered_quantity (p_id p) req else 0))
             (products (committed (conn w))) \<and>
         ((\<forall>p \<in> set (products (committed (conn w))). 0 \<le> p_stock_quantity p) \<longrightarrow>
          (\<forall>p \<in> set (products (committed (conn w'))). 0 \<le> p_stock_quantity p))"
proof (cases "committing w w'")
  case True
  note s = controller_decrements_stock [OF run rd True]
  from s have "current (conn w') = committed (conn w')"
    by (simp add: current_def)
  with s True settled show ?thesis
    by (simp add: ordered_quantity_def)
next
  case False
  from controller_atomic [OF run rd False]
  have same: "committed (conn w') = committed (conn w)"
    and tx: "working (conn w') = None \<or> working (conn w') = Some (current (conn w))"
    by simp_all
  from tx same settled have "current (conn w') = committed (conn w')"
    by (auto simp: current_def)
  with same False show ?thesis by simp
qed

text \<open>
  Calls served one after the other on one connection, by either controller: every
  product keeps its id, its stock is the stock before less the quantities of the calls
  that committed, and it is not negative if no stock was negative before. (This says
  nothing of calls that overlap in time: how their statements interleave is decided by
  the database server.)
\<close>

lemma serial_stock_accounting:
  assumes "handler = createOrder \<or> handler = createOrder_ts"
    and "current (conn w) = committed (conn w)" and "serve handler reqs w = (marks, w')"
  shows "length marks = length reqs \<and>
         current (conn w') = committed (conn w') \<and>
         map p_id (products (committed (conn w'))) = map p_id (products (committed (conn w))) \<and>
         map p_stock_quantity (products (committed (conn w'))) =
           map (\<lambda>p. p_stock_quantity p -
                  (\<Sum>(req, mark)\<leftarrow>zip reqs marks.
                     if mark then ordered_quantity (p_id p) req else 0))
             (products (committed (conn w))) \<and>
         ((\<forall>p \<in> set (products (committed (conn w))). 0 \<le> p_stock_quantity p) \<longrightarrow>
          (\<forall>p \<in> set (products (committed (conn w'))). 0 \<le> p_stock_quantity p))"
  using assms(2,3)
proof (induction reqs arbitrary: w marks w')
  case Nil
  then show ?case by simp
next
  case (Cons req reqs)
  from assms(1) obtain read_back outcome where
    h: "handler = controller read_back outcome" and rd: "reading read_back"
    by (rule handler_cases)
  obtain r w1 where first: "handler req w = (r, w1)" by (cases "handler req w")
  obtain marks' w2 where rest: "serve handler reqs w1 = (marks', w2)"
    by (cases "serve handler reqs w1")
  from Cons.prems(2) first rest have marks: "marks = committing w w1 # marks'" and w': "w' = w2"
    by simp_all
  note s1 = controller_step [OF Cons.prems(1) first [unfolded h] rd]
  from s1 have settled1: "current (conn w1) = committed (conn w1)" by simp
  note s2 = Cons.IH [OF settled1 rest]
  have stock: "map p_stock_quantity (products (committed (conn w2))) =
      map (\<lambda>p. p_stock_quantity p -
             ((if committing w w1 then ordered_quantity (p_id p) req else 0) +
              (\<Sum>(req, mark)\<leftarrow>zip reqs marks'.
                 if mark then ordered_quantity (p_id p) req else 0)))
        (products (committed (conn w)))"
    by (rule stock_compose [where between = "products (committed (conn w1))"])
       (use s1 s2 in simp_all)
  have ids: "map p_id (products (committed (conn w2))) = map p_id (products (committed (conn w)))"
    using s1 s2 by (simp only:)
  have nonneg: "(\<forall>p \<in> set (products (committed (conn w))). 0 \<le> p_stock_quantity p) \<longrightarrow>
          (\<forall>p \<in> set (products (committed (conn w2))). 0 \<le> p_stock_quantity p)"
    using s1 s2 by blast
  from s2 have len: "length marks' = length reqs"
    and settled2: "current (conn w2) = committed (conn w2)"
    by simp_all
  from len settled2 ids stock nonneg show ?case
    unfolding marks w' by simp
qed

end
